(* ===== verification/CF_Prelude.thy ===== *)
theory CF_Prelude
  imports Main "HOL-Library.Word" "HOL-Library.List_Lexorder"
begin

text \<open>
  Shared vocabulary of the development: the Rust standard-library notions the
  sources use (\<open>Result\<close> and the question-mark operator, \<open>Option::filter\<close>, checked
  arithmetic on machine integers, \<open>Ordering\<close> and the stable \<open>sort_by\<close>, UTF-8
  length and \<open>trim\<close> of strings, decimal formatting), the identifiers every
  component names (UUIDs, public keys, event identifiers, timestamps), and the
  generic lemmas the component proofs rest on.

  Code of third-party crates is never defined here.  The \<open>uuid\<close> crate enters as
  a record \<open>uuid_api\<close> of its observers, passed to every definition that calls it.
\<close>

subsection \<open>Results\<close>

datatype ('a, 'e) result = Ok 'a | Err 'e

definition bind_r :: "('a, 'e) result \<Rightarrow> ('a \<Rightarrow> ('b, 'e) result) \<Rightarrow> ('b, 'e) result" where
  "bind_r m k = (case m of Ok x \<Rightarrow> k x | Err e \<Rightarrow> Err e)"

definition then_r :: "(unit, 'e) result \<Rightarrow> ('b, 'e) result \<Rightarrow> ('b, 'e) result" where
  "then_r m k = (case m of Ok _ \<Rightarrow> k | Err e \<Rightarrow> Err e)"

definition map_err :: "('e \<Rightarrow> 'f) \<Rightarrow> ('a, 'e) result \<Rightarrow> ('a, 'f) result" where
  "map_err f m = (case m of Ok x \<Rightarrow> Ok x | Err e \<Rightarrow> Err (f e))"

definition ok_or :: "'e \<Rightarrow> 'a option \<Rightarrow> ('a, 'e) result" where
  "ok_or e x = (case x of Some y \<Rightarrow> Ok y | None \<Rightarrow> Err e)"

primrec for_each :: "('a \<Rightarrow> (unit, 'e) result) \<Rightarrow> 'a list \<Rightarrow> (unit, 'e) result" where
  "for_each f [] = Ok ()"
| "for_each f (x # xs) = then_r (f x) (for_each f xs)"

named_theorems result_inv \<open>inversion of result-valued computations\<close>

lemma bind_r_simps [simp]:
  "bind_r (Ok x) k = k x" "bind_r (Err e) k = Err e"
  by (simp_all add: bind_r_def)

lemma then_r_simps [simp]:
  "then_r (Ok u) k = k" "then_r (Err e) k = Err e"
  by (simp_all add: then_r_def)

lemma map_err_simps [simp]:
  "map_err f (Ok x) = Ok x" "map_err f (Err e) = Err (f e)"
  by (simp_all add: map_err_def)

lemma ok_or_simps [simp]:
  "ok_or e (Some x) = Ok x" "ok_or e None = Err e"
  by (simp_all add: ok_or_def)

lemma bind_r_Ok_iff [result_inv]:
  "bind_r m k = Ok y \<longleftrightarrow> (\<exists>x. m = Ok x \<and> k x = Ok y)"
  by (cases m) simp_all

lemma bind_r_Err_iff:
  "bind_r m k = Err e \<longleftrightarrow> m = Err e \<or> (\<exists>x. m = Ok x \<and> k x = Err e)"
  by (cases m) simp_all

lemma then_r_Ok_iff [result_inv]: "then_r m k = Ok y \<longleftrightarrow> m = Ok () \<and> k = Ok y"
  by (cases m) simp_all

lemma then_r_Err_iff: "then_r m k = Err e \<longleftrightarrow> m = Err e \<or> (m = Ok () \<and> k = Err e)"
  by (cases m) simp_all

lemma map_err_Ok_iff [result_inv]: "map_err f m = Ok x \<longleftrightarrow> m = Ok x"
  by (cases m) simp_all

lemma ok_or_Ok_iff [result_inv]: "ok_or e x = Ok y \<longleftrightarrow> x = Some y"
  by (cases x) simp_all

lemma if_Err_Ok_iff [result_inv]: "(if b then Err e else k) = Ok y \<longleftrightarrow> \<not> b \<and> k = Ok y"
  by simp

lemma for_each_Ok_iff [result_inv]: "for_each f xs = Ok () \<longleftrightarrow> (\<forall>x\<in>set xs. f x = Ok ())"
  by (induction xs) (auto simp: then_r_Ok_iff)

lemma result_unit_cases: "(m :: (unit, 'e) result) = Ok () \<or> (\<exists>e. m = Err e)"
  by (cases m) simp_all

lemma not_Ok_unit: "(m :: (unit, 'e) result) \<noteq> Ok () \<longleftrightarrow> (\<exists>e. m = Err e)"
  by (cases m) simp_all


subsection \<open>Machine integers\<close>

type_synonym u8 = "8 word"
type_synonym u16 = "16 word"
type_synonym u32 = "32 word"
type_synonym u64 = "64 word"

definition checked_add :: "'a::len word \<Rightarrow> 'a word \<Rightarrow> 'a word option" where
  "checked_add a b = (if unat a + unat b < 2 ^ LENGTH('a) then Some (a + b) else None)"

definition checked_sub :: "'a::len word \<Rightarrow> 'a word \<Rightarrow> 'a word option" where
  "checked_sub a b = (if b \<le> a then Some (a - b) else None)"

definition opt_filter :: "('a \<Rightarrow> bool) \<Rightarrow> 'a option \<Rightarrow> 'a option" where
  "opt_filter p x = (case x of Some y \<Rightarrow> if p y then Some y else None | None \<Rightarrow> None)"

lemma opt_filter_Some_iff [result_inv]: "opt_filter p x = Some y \<longleftrightarrow> x = Some y \<and> p y"
  by (auto simp: opt_filter_def split: option.splits)

lemma checked_add_Some_iff:
  "checked_add a b = Some c \<longleftrightarrow> unat c = unat a + unat b"
  for a b c :: "'a::len word"
proof
  assume "checked_add a b = Some c"
  then show "unat c = unat a + unat b"
    by (auto simp: checked_add_def unat_word_ariths split: if_splits)
next
  assume c: "unat c = unat a + unat b"
  then have lt: "unat a + unat b < 2 ^ LENGTH('a)"
    by (metis unsigned_less)
  then have "unat (a + b) = unat c"
    using c by (simp add: unat_word_ariths)
  then have "a + b = c" by (simp add: word_unat_eq_iff)
  with lt show "checked_add a b = Some c" by (simp add: checked_add_def)
qed

lemma checked_sub_Some_iff:
  "checked_sub a b = Some c \<longleftrightarrow> unat a = unat b + unat c"
  for a b c :: "'a::len word"
proof
  assume "checked_sub a b = Some c"
  then show "unat a = unat b + unat c"
    by (auto simp: checked_sub_def unat_sub_if' word_le_nat_alt split: if_splits)
next
  assume eq: "unat a = unat b + unat c"
  then have le: "b \<le> a" by (simp add: word_le_nat_alt)
  then have "unat (a - b) = unat c"
    using eq by (simp add: unat_sub_if' word_le_nat_alt)
  then have "a - b = c" by (simp add: word_unat_eq_iff)
  with le show "checked_sub a b = Some c" by (simp add: checked_sub_def)
qed

text \<open>
  The largest revision, count or generation a supported client represents
  exactly.  The document, context, view and runtime modules each declare it.
\<close>

definition MAX_SAFE_REVISION :: u64 where
  "MAX_SAFE_REVISION = 9007199254740991"

lemma unat_MAX_SAFE_REVISION [simp]: "unat MAX_SAFE_REVISION = 9007199254740991"
  by (simp add: MAX_SAFE_REVISION_def)

lemma le_MAX_SAFE_iff: "r \<le> MAX_SAFE_REVISION \<longleftrightarrow> unat r \<le> 9007199254740991"
  by (simp add: word_le_nat_alt)

lemma MAX_SAFE_less_iff: "MAX_SAFE_REVISION < r \<longleftrightarrow> 9007199254740991 < unat r"
  by (simp add: word_less_nat_alt)

lemma one_le_iff: "1 \<le> r \<longleftrightarrow> 1 \<le> unat r" for r :: "'a::len word"
  by (simp add: word_le_nat_alt)

lemma unat_eq_zero_iff: "unat r = 0 \<longleftrightarrow> r = 0" for r :: "'a::len word"
  by (simp add: unat_eq_0)

lemmas safe_range = le_MAX_SAFE_iff MAX_SAFE_less_iff one_le_iff

text \<open>The successor guarded by that bound, as every reducer computes it.\<close>

definition checked_succ :: "u64 \<Rightarrow> u64 option" where
  "checked_succ r = opt_filter (\<lambda>n. n \<le> MAX_SAFE_REVISION) (checked_add r 1)"

lemma checked_succ_Some_iff:
  "checked_succ r = Some n \<longleftrightarrow> unat n = unat r + 1 \<and> unat r < 9007199254740991"
  by (auto simp: checked_succ_def opt_filter_Some_iff checked_add_Some_iff safe_range)

lemma checked_succ_None_iff:
  "checked_succ r = None \<longleftrightarrow> 9007199254740991 \<le> unat r"
proof (cases "unat r < 9007199254740991")
  case True
  then have "unat (r + 1) = unat r + 1"
    by (simp add: unat_word_ariths)
  with True have "checked_succ r = Some (r + 1)"
    by (simp add: checked_succ_Some_iff)
  with True show ?thesis by simp
next
  case False
  then have "checked_succ r \<noteq> Some n" for n
    by (simp add: checked_succ_Some_iff)
  with False show ?thesis
    by (cases "checked_succ r") auto
qed

lemma checked_succ_ex: "unat r < 9007199254740991 \<Longrightarrow> \<exists>n. checked_succ r = Some n"
  using checked_succ_None_iff [of r] by (cases "checked_succ r") auto

lemma checked_succ_inj: "checked_succ a = Some n \<Longrightarrow> checked_succ b = Some n \<Longrightarrow> a = b"
  by (simp add: checked_succ_Some_iff word_unat_eq_iff)

lemma checked_succ_plus_one: "unat r < 9007199254740991 \<Longrightarrow> checked_succ r = Some (r + 1)"
  by (simp add: checked_succ_Some_iff unat_word_ariths)

lemma unat_succ_safe: "unat r < 9007199254740991 \<Longrightarrow> unat (r + 1) = unat r + 1" for r :: u64
  by (simp add: unat_word_ariths)

lemma unat_pred: "r \<noteq> 0 \<Longrightarrow> unat (r - 1) = unat r - 1" for r :: u64
  by (simp add: unat_minus_one)

lemma succ_safe:
  "unat r < 9007199254740991 \<Longrightarrow> 1 \<le> r + 1 \<and> r + 1 \<le> MAX_SAFE_REVISION" for r :: u64
  by (simp add: safe_range unat_succ_safe)


subsection \<open>Identifiers and times\<close>

text \<open>
  A UUID is its 128-bit value, a Nostr public key or event identifier its 256
  bits, a canonical timestamp an integer instant.  What the \<open>uuid\<close> crate computes
  from a UUID is a parameter of the model.
\<close>

type_synonym uuid = "128 word"
type_synonym public_key = "256 word"
type_synonym event_id = "256 word"
type_synonym timestamp = int

datatype uuid_variant = NCS | RFC4122 | Microsoft | Future

record uuid_api =
  is_nil :: "uuid \<Rightarrow> bool"
  get_version_num :: "uuid \<Rightarrow> nat"
  get_variant :: "uuid \<Rightarrow> uuid_variant"
  as_bytes :: "uuid \<Rightarrow> u8 list"
  uuid_display :: "uuid \<Rightarrow> string"

text \<open>
  What the components rely on: the byte view has sixteen bytes and determines
  the UUID, and so does the hyphenated text.
\<close>

definition uuid_bytes_ok :: "uuid_api \<Rightarrow> bool" where
  "uuid_bytes_ok U \<longleftrightarrow> inj (as_bytes U) \<and> (\<forall>u. length (as_bytes U u) = 16)"

definition is_uuid_v4 :: "uuid_api \<Rightarrow> uuid \<Rightarrow> bool" where
  "is_uuid_v4 U u \<longleftrightarrow> \<not> is_nil U u \<and> get_version_num U u = 4 \<and> get_variant U u = RFC4122"


subsection \<open>Strings\<close>

text \<open>
  Member-supplied text is a list of Unicode scalar values; \<open>str::len\<close> counts its
  UTF-8 bytes and \<open>str::trim\<close> strips the code points with the White\_Space
  property.  Diagnostics the program itself builds are ASCII and use \<open>string\<close>.
\<close>

type_synonym ustring = "nat list"

definition utf8_char_len :: "nat \<Rightarrow> nat" where
  "utf8_char_len c = (if c < 128 then 1 else if c < 2048 then 2 else if c < 65536 then 3 else 4)"

definition utf8_len :: "ustring \<Rightarrow> nat" where
  "utf8_len s = sum_list (map utf8_char_len s)"

definition is_whitespace :: "nat \<Rightarrow> bool" where
  "is_whitespace c \<longleftrightarrow> (9 \<le> c \<and> c \<le> 13) \<or> c = 32 \<or> c = 133 \<or> c = 160 \<or> c = 5760
     \<or> (8192 \<le> c \<and> c \<le> 8202) \<or> c = 8232 \<or> c = 8233 \<or> c = 8239 \<or> c = 8287 \<or> c = 12288"

definition trim :: "ustring \<Rightarrow> ustring" where
  "trim s = rev (dropWhile is_whitespace (rev (dropWhile is_whitespace s)))"

lemma length_dropWhile_le [simp]: "length (dropWhile p xs) \<le> length xs"
  by (induction xs) auto

lemma dropWhile_eq_self_iff': "dropWhile p xs = xs \<longleftrightarrow> xs = [] \<or> \<not> p (hd xs)"
proof (cases xs)
  case (Cons y ys)
  show ?thesis
  proof (cases "p y")
    case True
    have "length (dropWhile p ys) < length (y # ys)"
      by (simp add: less_Suc_eq_le)
    with True Cons show ?thesis by auto
  qed (simp add: Cons)
qed simp

lemma trim_eq_self_iff:
  "trim s = s \<longleftrightarrow> s = [] \<or> (\<not> is_whitespace (hd s) \<and> \<not> is_whitespace (last s))"
proof
  assume eq: "trim s = s"
  let ?d = "dropWhile is_whitespace s"
  have "length (trim s) \<le> length ?d"
    unfolding trim_def length_rev
    by (rule order_trans [OF length_dropWhile_le]) simp
  with eq have "length ?d = length s"
    using length_dropWhile_le [of is_whitespace s] by simp
  then have d: "?d = s"
    by (metis append_Nil length_append add_right_cancel length_0_conv takeWhile_dropWhile_id add_0)
  with eq have "dropWhile is_whitespace (rev s) = rev s"
    by (metis rev_rev_ident trim_def)
  then have "rev s = [] \<or> \<not> is_whitespace (hd (rev s))"
    by (simp add: dropWhile_eq_self_iff')
  with d show "s = [] \<or> (\<not> is_whitespace (hd s) \<and> \<not> is_whitespace (last s))"
    by (auto simp: dropWhile_eq_self_iff' hd_rev)
next
  assume "s = [] \<or> (\<not> is_whitespace (hd s) \<and> \<not> is_whitespace (last s))"
  then show "trim s = s"
  proof
    assume *: "\<not> is_whitespace (hd s) \<and> \<not> is_whitespace (last s)"
    have "dropWhile is_whitespace s = s"
      using * by (simp add: dropWhile_eq_self_iff')
    moreover have "dropWhile is_whitespace (rev s) = rev s"
      using * by (cases "s = []") (simp_all add: dropWhile_eq_self_iff' hd_rev)
    ultimately show ?thesis by (simp add: trim_def)
  qed (simp add: trim_def)
qed

fun show_nat :: "nat \<Rightarrow> string" where
  "show_nat n =
     (if n < 10 then [char_of (48 + n)] else show_nat (n div 10) @ [char_of (48 + n mod 10)])"

declare show_nat.simps [simp del]


subsection \<open>JSON values\<close>

text \<open>
  The shape of a parsed JSON value, which the command parsers measure before
  they decode it.  Parsing and decoding themselves belong to \<open>serde_json\<close> and are
  parameters of the definitions that call them.
\<close>

datatype json_value =
    JNull
  | JBool bool
  | JNumber string
  | JString ustring
  | JArray "json_value list"
  | JObject "(ustring \<times> json_value) list"

fun json_depth :: "json_value \<Rightarrow> nat" where
  "json_depth (JArray vs) = 1 + foldr max (map json_depth vs) 0"
| "json_depth (JObject kvs) = 1 + foldr max (map (\<lambda>kv. json_depth (snd kv)) kvs) 0"
| "json_depth _ = 1"

lemma foldr_max_upper: "x \<in> set xs \<Longrightarrow> x \<le> foldr max xs (0 :: nat)"
  by (induction xs) auto

text \<open>The depth bounds every descent into the value.\<close>

lemma json_depth_pos: "1 \<le> json_depth v"
  by (cases v) simp_all

lemma json_depth_child:
  "v \<in> set vs \<Longrightarrow> json_depth v < json_depth (JArray vs)"
  "(k, v) \<in> set kvs \<Longrightarrow> json_depth v < json_depth (JObject kvs)"
  by (force simp: less_Suc_eq_le intro!: foldr_max_upper)+


subsection \<open>Orderings and stable sorting\<close>

datatype ordering = Less | Equal | Greater

definition cmp_of :: "'a::linorder \<Rightarrow> 'a \<Rightarrow> ordering" where
  "cmp_of a b = (if a < b then Less else if a = b then Equal else Greater)"

definition then_with :: "ordering \<Rightarrow> ordering \<Rightarrow> ordering" where
  "then_with a b = (case a of Equal \<Rightarrow> b | _ \<Rightarrow> a)"

lemma then_with_simps [simp]:
  "then_with Less b = Less" "then_with Greater b = Greater" "then_with Equal b = b"
  by (simp_all add: then_with_def)

lemma cmp_of_iffs [simp]:
  "cmp_of a b = Less \<longleftrightarrow> a < b" "cmp_of a b = Equal \<longleftrightarrow> a = b" "cmp_of a b = Greater \<longleftrightarrow> b < a"
  by (auto simp: cmp_of_def)

text \<open>
  \<open>slice::sort_by\<close> is a stable sort: an element is placed after the elements
  already present that compare equal to it.
\<close>

fun insert_by :: "('a \<Rightarrow> 'a \<Rightarrow> ordering) \<Rightarrow> 'a \<Rightarrow> 'a list \<Rightarrow> 'a list" where
  "insert_by cmp x [] = [x]"
| "insert_by cmp x (y # ys) = (if cmp x y = Greater then y # insert_by cmp x ys else x # y # ys)"

definition sort_by :: "('a \<Rightarrow> 'a \<Rightarrow> ordering) \<Rightarrow> 'a list \<Rightarrow> 'a list" where
  "sort_by cmp xs = foldr (insert_by cmp) xs []"

text \<open>\<open>slice::windows(2)\<close> with \<open>any\<close>.\<close>

fun any_window2 :: "('a \<Rightarrow> 'a \<Rightarrow> bool) \<Rightarrow> 'a list \<Rightarrow> bool" where
  "any_window2 p (x # y # zs) = (p x y \<or> any_window2 p (y # zs))"
| "any_window2 p _ = False"

lemma any_window2_strict:
  "\<not> any_window2 (\<lambda>a b. f b \<le> (f a :: 'b::linorder)) xs \<longleftrightarrow> sorted_wrt (\<lambda>a b. f a < f b) xs"
proof (induction xs)
  case (Cons x xs)
  then show ?case by (cases xs) (auto simp: not_le dest: less_trans)
qed simp

text \<open>
  The interface of a total preorder presented as a comparison function.  Its
  clients sort by it; its providers are the orders the sources implement.
\<close>

locale comparison =
  fixes cmp :: "'a \<Rightarrow> 'a \<Rightarrow> ordering"
  assumes refl: "cmp x x = Equal"
    and sym: "cmp x y = Less \<longleftrightarrow> cmp y x = Greater"
    and trans: "cmp x y \<noteq> Greater \<Longrightarrow> cmp y z \<noteq> Greater \<Longrightarrow> cmp x z \<noteq> Greater"
begin

lemma set_insert_by: "set (insert_by cmp x ys) = insert x (set ys)"
  by (induction ys) auto

lemma length_insert_by: "length (insert_by cmp x ys) = Suc (length ys)"
  by (induction ys) auto

lemma not_greater_total: "cmp x y \<noteq> Greater \<or> cmp y x \<noteq> Greater"
  using sym [of x y] sym [of y x] by (cases "cmp x y") auto

lemma sorted_insert_by:
  "sorted_wrt (\<lambda>a b. cmp a b \<noteq> Greater) ys \<Longrightarrow>
   sorted_wrt (\<lambda>a b. cmp a b \<noteq> Greater) (insert_by cmp x ys)"
proof (induction ys)
  case (Cons y ys)
  show ?case
  proof (cases "cmp x y = Greater")
    case True
    then have "cmp y x \<noteq> Greater" using not_greater_total [of x y] by simp
    with True Cons show ?thesis by (auto simp: set_insert_by)
  next
    case False
    with Cons show ?thesis by (auto dest: trans)
  qed
qed simp

lemma set_sort_by: "set (sort_by cmp xs) = set xs"
  by (induction xs) (auto simp: sort_by_def set_insert_by)

lemma length_sort_by: "length (sort_by cmp xs) = length xs"
  by (induction xs) (auto simp: sort_by_def length_insert_by)

lemma sorted_sort_by: "sorted_wrt (\<lambda>a b. cmp a b \<noteq> Greater) (sort_by cmp xs)"
  by (induction xs) (auto simp: sort_by_def sorted_insert_by)

lemma sort_by_sorted:
  "sorted_wrt (\<lambda>a b. cmp a b \<noteq> Greater) xs \<Longrightarrow> sort_by cmp xs = xs"
proof (induction xs)
  case (Cons x xs)
  then have "foldr (insert_by cmp) xs [] = xs" by (simp add: sort_by_def)
  with Cons.prems show ?case by (cases xs) (auto simp: sort_by_def)
qed (simp add: sort_by_def)

end

text \<open>A comparison under which distinct elements never tie: a total order.\<close>

locale total_comparison = comparison +
  assumes eq: "cmp x y = Equal \<Longrightarrow> x = y"
begin

lemma distinct_insert_by: "distinct (insert_by cmp x ys) \<longleftrightarrow> x \<notin> set ys \<and> distinct ys"
  by (induction ys) (auto simp: set_insert_by)

lemma distinct_sort_by: "distinct (sort_by cmp xs) \<longleftrightarrow> distinct xs"
  by (induction xs) (auto simp: sort_by_def distinct_insert_by set_sort_by [unfolded sort_by_def])

lemma antisym: "cmp x y \<noteq> Greater \<Longrightarrow> cmp y x \<noteq> Greater \<Longrightarrow> x = y"
  using sym [of x y] eq [of x y] by (cases "cmp x y") auto

lemma sorted_distinct_unique:
  "sorted_wrt (\<lambda>a b. cmp a b \<noteq> Greater) xs \<Longrightarrow> distinct xs \<Longrightarrow>
   sorted_wrt (\<lambda>a b. cmp a b \<noteq> Greater) ys \<Longrightarrow> distinct ys \<Longrightarrow> set xs = set ys \<Longrightarrow> xs = ys"
proof (induction xs arbitrary: ys)
  case (Cons x xs)
  then obtain y zs where ys: "ys = y # zs" by (cases ys) auto
  have "x = y"
  proof (rule ccontr)
    assume "x \<noteq> y"
    with Cons.prems ys have "cmp x y \<noteq> Greater" "cmp y x \<noteq> Greater" by auto
    with \<open>x \<noteq> y\<close> antisym show False by blast
  qed
  with Cons.prems ys have "set xs = set zs" by (simp add: insert_ident)
  with Cons ys have "xs = zs" by simp
  with \<open>x = y\<close> ys show ?case by simp
qed simp

text \<open>Any two arrangements of the same distinct elements sort to one list.\<close>

lemma sort_by_cong_set: "distinct xs \<Longrightarrow> distinct ys \<Longrightarrow> set xs = set ys \<Longrightarrow> sort_by cmp xs = sort_by cmp ys"
  by (rule sorted_distinct_unique) (simp_all add: sorted_sort_by distinct_sort_by set_sort_by)

lemma sorted_any_window2_eq:
  "sorted_wrt (\<lambda>a b. cmp a b \<noteq> Greater) xs \<Longrightarrow> any_window2 (=) xs \<longleftrightarrow> \<not> distinct xs"
proof (induction xs)
  case C: (Cons x xs)
  show ?case
  proof (cases xs)
    case (Cons y zs)
    have "x \<in> set zs \<Longrightarrow> x = y"
      using C.prems Cons antisym [of x y] by auto
    with C.IH C.prems Cons show ?thesis by auto
  qed simp
qed simp

end

text \<open>Comparing by a key gives such an order, total when the key is injective.\<close>

lemma comparison_key: "comparison (\<lambda>a b. cmp_of (f a) (f b))"
  by unfold_locales (auto simp: not_less)

lemma total_comparison_key: "inj f \<Longrightarrow> total_comparison (\<lambda>a b. cmp_of (f a) (f b))"
  using comparison_key [of f]
  by (simp add: total_comparison_def total_comparison_axioms_def inj_eq)


subsection \<open>Runs of a step relation\<close>

inductive steps :: "('s \<Rightarrow> 'e \<Rightarrow> 's \<Rightarrow> bool) \<Rightarrow> 's \<Rightarrow> 'e list \<Rightarrow> 's \<Rightarrow> bool" for R where
  steps_Nil: "steps R s [] s"
| steps_snoc: "steps R s es t \<Longrightarrow> R t e u \<Longrightarrow> steps R s (es @ [e]) u"

lemma steps_invariant:
  assumes "steps R s es t" and "I s" and "\<And>a e b. R a e b \<Longrightarrow> I a \<Longrightarrow> I b"
  shows "I t"
  using assms by (induction rule: steps.induct) blast+

lemma steps_trans: "steps R s es t \<Longrightarrow> steps R t fs u \<Longrightarrow> steps R s (es @ fs) u"
  by (rotate_tac, induction rule: steps.induct)
    (auto simp flip: append_assoc intro: steps.intros)

lemma steps_single: "R s e t \<Longrightarrow> steps R s [e] t"
  using steps_snoc [OF steps_Nil] by fastforce

text \<open>
  The contract of a revisioned catalog: an accepted command moves a valid
  catalog to a valid catalog, advances its revision by exactly one inside the
  safe range, and moves canonical time strictly forward.
\<close>

locale revisioned =
  fixes step :: "'s \<Rightarrow> 'e \<Rightarrow> 's \<Rightarrow> bool"
    and revision :: "'s \<Rightarrow> u64"
    and time :: "'s \<Rightarrow> timestamp"
    and wf :: "'s \<Rightarrow> bool"
  assumes step_wf: "step s e t \<Longrightarrow> wf t"
    and step_revision: "step s e t \<Longrightarrow> checked_succ (revision s) = Some (revision t)"
    and step_time: "step s e t \<Longrightarrow> time s < time t"
begin

lemma steps_revision: "steps step s es t \<Longrightarrow> unat (revision t) = unat (revision s) + length es"
  by (induction rule: steps.induct) (auto dest: step_revision simp: checked_succ_Some_iff)

lemma steps_bounded: "steps step s es t \<Longrightarrow> es \<noteq> [] \<Longrightarrow> unat (revision t) \<le> 9007199254740991"
  by (induction rule: steps.induct) (auto dest: step_revision simp: checked_succ_Some_iff)

lemma steps_length: "steps step s es t \<Longrightarrow> length es \<le> 9007199254740991"
  using steps_revision steps_bounded by (cases "es = []") fastforce+

lemma steps_time: "steps step s es t \<Longrightarrow> time s + int (length es) \<le> time t"
  by (induction rule: steps.induct) (auto dest: step_time)

lemma steps_wf: "steps step s es t \<Longrightarrow> wf s \<Longrightarrow> wf t"
  by (erule steps_invariant) (auto dest: step_wf)

text \<open>Along one run a revision names at most one state.\<close>

lemma steps_revision_determines:
  assumes "steps step s es t" and "steps step t fs u" and "revision t = revision u"
  shows "fs = [] \<and> t = u"
proof -
  have "length fs = 0"
    using steps_revision [OF assms(2)] assms(3) by simp
  with assms(2) show ?thesis by (auto elim: steps.cases)
qed

end

end
