(* ===== verification/Runtime_Fence.thy ===== *)
theory Runtime_Fence
  imports CF_Prelude
begin

text \<open>
  The runtime fence of \<open>buzz-core/src/runtime.rs\<close>: the identity and epoch of a
  supervised runtime that a managed command carries, and the claim check that
  the document and the context command parsers share in shape.
\<close>

record runtime_fence =
  runtime_id :: uuid
  runtime_epoch :: u64

definition runtime_fence_validate :: "uuid_api \<Rightarrow> runtime_fence \<Rightarrow> (unit, string) result" where
  "runtime_fence_validate U f =
     (if is_nil U (runtime_id f) then Err ''runtime_id cannot be nil''
      else if \<not> (1 \<le> runtime_epoch f \<and> runtime_epoch f \<le> MAX_SAFE_REVISION)
      then Err ''runtime_epoch must be in the JavaScript-safe positive range''
      else Ok ())"

lemma runtime_fence_validate_Ok [result_inv]:
  "runtime_fence_validate U f = Ok () \<longleftrightarrow>
     \<not> is_nil U (runtime_id f) \<and> 1 \<le> runtime_epoch f \<and> runtime_epoch f \<le> MAX_SAFE_REVISION"
  by (auto simp: runtime_fence_validate_def)

text \<open>A managed command names both an Assignment and a fence, or neither.\<close>

definition managed_claim_ok :: "uuid_api \<Rightarrow> uuid option \<Rightarrow> runtime_fence option \<Rightarrow> bool" where
  "managed_claim_ok U a f \<longleftrightarrow>
     (a = None \<and> f = None) \<or>
     (\<exists>x y. a = Some x \<and> f = Some y \<and> \<not> is_nil U x \<and> runtime_fence_validate U y = Ok ())"

end
