(* ===== verification/Document_Model.thy ===== *)
theory Document_Model
  imports Runtime_Fence
begin

text \<open>
  The closed contract of a Project Document: the error type, the value checks,
  the command, the canonical row, revision and catalog, the projections and the
  receipt of \<open>crates/buzz-project-document/src\<close> (\<open>error.rs\<close>, \<open>validation.rs\<close>,
  \<open>command.rs\<close>, \<open>model.rs\<close>, \<open>projection.rs\<close>).  A struct is a record whose fields
  carry a prefix; an enum is a datatype with the source's constructors.
\<close>

subsection \<open>Errors\<close>

datatype document_error =
    InvalidJson string
  | ContentTooLarge nat nat
  | JsonTooDeep nat nat
  | UnsupportedSchemaVersion u16 u16
  | InvalidDocumentId uuid
  | InvalidRevisionTarget string
  | InvalidRuntimeFence string
  | InvalidSnapshot string
  | InvalidProjection string
  | RevisionConflict u64 "u64 option"
  | DocumentIdAlreadyExists uuid
  | DocumentNotFound uuid
  | DocumentDeleted uuid
  | NoChange
  | StillReferenced uuid
  | RevisionExhausted
  | InvalidCanonicalState string

fun document_error_code :: "document_error \<Rightarrow> string" where
  "document_error_code (InvalidJson _) = ''invalid_json''"
| "document_error_code (ContentTooLarge _ _) = ''content_too_large''"
| "document_error_code (JsonTooDeep _ _) = ''invalid_json''"
| "document_error_code (UnsupportedSchemaVersion _ _) = ''schema''"
| "document_error_code (InvalidDocumentId _) = ''invalid_document_id''"
| "document_error_code (InvalidRevisionTarget _) = ''revision_target''"
| "document_error_code (InvalidRuntimeFence _) = ''runtime_fence''"
| "document_error_code (InvalidSnapshot _) = ''invalid_snapshot''"
| "document_error_code (InvalidProjection _) = ''invalid_snapshot''"
| "document_error_code (RevisionConflict _ _) = ''revision''"
| "document_error_code (DocumentIdAlreadyExists _) = ''id_exists''"
| "document_error_code (DocumentNotFound _) = ''revision_target''"
| "document_error_code (DocumentDeleted _) = ''revision_target''"
| "document_error_code NoChange = ''no_change''"
| "document_error_code (StillReferenced _) = ''still_referenced''"
| "document_error_code RevisionExhausted = ''revision_target''"
| "document_error_code (InvalidCanonicalState _) = ''invalid_snapshot''"

type_synonym 'a document_result = "('a, document_error) result"


subsection \<open>Value checks\<close>

definition PROJECT_DOCUMENT_SCHEMA_VERSION :: u16 where
  "PROJECT_DOCUMENT_SCHEMA_VERSION = 1"

definition MAX_COMMAND_CONTENT_BYTES :: nat where "MAX_COMMAND_CONTENT_BYTES = 65536"
definition MAX_COMMAND_JSON_DEPTH :: nat where "MAX_COMMAND_JSON_DEPTH = 16"
definition MAX_TITLE_BYTES :: nat where "MAX_TITLE_BYTES = 256"
definition MAX_SUMMARY_BYTES :: nat where "MAX_SUMMARY_BYTES = 4096"
definition MAX_CONTENT_MARKDOWN_BYTES :: nat where "MAX_CONTENT_MARKDOWN_BYTES = 49152"

definition validate_document_id :: "uuid_api \<Rightarrow> uuid \<Rightarrow> unit document_result" where
  "validate_document_id U document_id =
     (if is_nil U document_id \<or> get_version_num U document_id \<noteq> 4
         \<or> get_variant U document_id \<noteq> RFC4122
      then Err (InvalidDocumentId document_id) else Ok ())"

definition validate_positive_revision :: "u64 \<Rightarrow> string \<Rightarrow> unit document_result" where
  "validate_positive_revision value field =
     (if \<not> (1 \<le> value \<and> value \<le> MAX_SAFE_REVISION)
      then Err (InvalidRevisionTarget
        (field @ '' must be in 1..='' @ show_nat (unat MAX_SAFE_REVISION)))
      else Ok ())"

definition validate_nonnegative_revision :: "u64 \<Rightarrow> string \<Rightarrow> unit document_result" where
  "validate_nonnegative_revision value field =
     (if MAX_SAFE_REVISION < value
      then Err (InvalidRevisionTarget
        (field @ '' must be in 0..='' @ show_nat (unat MAX_SAFE_REVISION)))
      else Ok ())"

definition validate_no_nul :: "string \<Rightarrow> ustring \<Rightarrow> unit document_result" where
  "validate_no_nul field value =
     (if 0 \<in> set value then Err (InvalidSnapshot (field @ '' must not contain NUL'')) else Ok ())"

definition validate_len :: "string \<Rightarrow> ustring \<Rightarrow> nat \<Rightarrow> unit document_result" where
  "validate_len field value mx =
     (if mx < utf8_len value
      then Err (InvalidSnapshot
        (field @ '' exceeds '' @ show_nat mx @ '' UTF-8 bytes (got '' @
         show_nat (utf8_len value) @ '')''))
      else Ok ())"

definition validate_snapshot :: "ustring \<Rightarrow> ustring option \<Rightarrow> ustring \<Rightarrow> unit document_result" where
  "validate_snapshot title summary content_markdown =
     then_r (validate_no_nul ''title'' title)
     (if title = [] \<or> trim title \<noteq> title
      then Err (InvalidSnapshot ''title must be non-empty and have no leading or trailing whitespace'')
      else then_r (validate_len ''title'' title MAX_TITLE_BYTES)
       (then_r
         (case summary of
            None \<Rightarrow> Ok ()
          | Some s \<Rightarrow>
              then_r (validate_no_nul ''summary'' s)
              (if s = [] then Err (InvalidSnapshot ''an empty summary is non-canonical; omit the field'')
               else validate_len ''summary'' s MAX_SUMMARY_BYTES))
         (then_r (validate_no_nul ''content_markdown'' content_markdown)
           (validate_len ''content_markdown'' content_markdown MAX_CONTENT_MARKDOWN_BYTES))))"


subsection \<open>Canonical state\<close>

datatype document_state = Active | Deleted

datatype document_operation = Create | Update | Delete

fun document_operation_str :: "document_operation \<Rightarrow> string" where
  "document_operation_str Create = ''create''"
| "document_operation_str Update = ''update''"
| "document_operation_str Delete = ''delete''"

record document_snapshot =
  snap_title :: ustring
  snap_summary :: "ustring option"
  snap_content_markdown :: ustring

definition snapshot_validate :: "document_snapshot \<Rightarrow> unit document_result" where
  "snapshot_validate s = validate_snapshot (snap_title s) (snap_summary s) (snap_content_markdown s)"

datatype document_revision =
    ActiveRevision
      (rev_schema_version: u16) (rev_document_id: uuid) (rev_document_revision: u64)
      (rev_body: document_snapshot) (rev_actor: public_key) (rev_canonical_at: timestamp)
  | DeletedRevision
      (rev_schema_version: u16) (rev_document_id: uuid) (rev_document_revision: u64)
      (rev_actor: public_key) (rev_canonical_at: timestamp)

fun revision_state :: "document_revision \<Rightarrow> document_state" where
  "revision_state (ActiveRevision _ _ _ _ _ _) = Active"
| "revision_state (DeletedRevision _ _ _ _ _) = Deleted"

fun revision_snapshot :: "document_revision \<Rightarrow> document_snapshot option" where
  "revision_snapshot (ActiveRevision _ _ _ s _ _) = Some s"
| "revision_snapshot (DeletedRevision _ _ _ _ _) = None"

definition revision_validate :: "uuid_api \<Rightarrow> document_revision \<Rightarrow> unit document_result" where
  "revision_validate U r =
     then_r (case revision_snapshot r of Some s \<Rightarrow> snapshot_validate s | None \<Rightarrow> Ok ())
     (if rev_schema_version r \<noteq> PROJECT_DOCUMENT_SCHEMA_VERSION
      then Err (UnsupportedSchemaVersion (rev_schema_version r) PROJECT_DOCUMENT_SCHEMA_VERSION)
      else then_r (validate_document_id U (rev_document_id r))
        (validate_positive_revision (rev_document_revision r) ''document_revision''))"

record document_attribution =
  attr_at :: timestamp
  attr_by :: public_key

record project_document =
  doc_document_id :: uuid
  doc_current_revision :: u64
  doc_state :: document_state
  doc_created :: document_attribution
  doc_updated :: document_attribution

definition document_validate :: "uuid_api \<Rightarrow> project_document \<Rightarrow> unit document_result" where
  "document_validate U d =
     then_r (validate_document_id U (doc_document_id d))
     (then_r (validate_positive_revision (doc_current_revision d) ''current_revision'')
       (if attr_at (doc_updated d) < attr_at (doc_created d)
        then Err (InvalidCanonicalState ''Document updated_at precedes created_at'')
        else Ok ()))"

definition document_from_snapshot ::
  "uuid_api \<Rightarrow> uuid \<Rightarrow> u64 \<Rightarrow> document_state \<Rightarrow> document_attribution \<Rightarrow> document_attribution
   \<Rightarrow> project_document document_result" where
  "document_from_snapshot U document_id current_revision st created updated =
     (let d = \<lparr>doc_document_id = document_id, doc_current_revision = current_revision,
               doc_state = st, doc_created = created, doc_updated = updated\<rparr>
      in then_r (document_validate U d) (Ok d))"

record current_document =
  cur_document :: project_document
  cur_revision :: document_revision

definition current_document_new ::
  "uuid_api \<Rightarrow> project_document \<Rightarrow> document_revision \<Rightarrow> current_document document_result" where
  "current_document_new U d r =
     then_r (document_validate U d) (then_r (revision_validate U r)
     (if doc_document_id d \<noteq> rev_document_id r
         \<or> doc_current_revision d \<noteq> rev_document_revision r
         \<or> doc_state d \<noteq> revision_state r
         \<or> attr_by (doc_updated d) \<noteq> rev_actor r
         \<or> attr_at (doc_updated d) \<noteq> rev_canonical_at r
      then Err (InvalidCanonicalState ''current Document row does not match its immutable revision'')
      else if doc_current_revision d = 1
         \<and> (attr_by (doc_created d) \<noteq> rev_actor r \<or> attr_at (doc_created d) \<noteq> rev_canonical_at r)
      then Err (InvalidCanonicalState ''revision one does not match Document creation provenance'')
      else Ok \<lparr>cur_document = d, cur_revision = r\<rparr>))"

definition current_document_validate :: "uuid_api \<Rightarrow> current_document \<Rightarrow> unit document_result" where
  "current_document_validate U c =
     bind_r (current_document_new U (cur_document c) (cur_revision c)) (\<lambda>_. Ok ())"

record document_catalog =
  cat_project_id :: uuid
  cat_catalog_revision :: u64
  cat_active_document_count :: u64
  cat_projection_generation :: u64
  cat_initialized_at :: timestamp
  cat_updated_at :: timestamp

definition catalog_validate :: "uuid_api \<Rightarrow> document_catalog \<Rightarrow> unit document_result" where
  "catalog_validate U c =
     (if is_nil U (cat_project_id c) then Err (InvalidCanonicalState ''project_id cannot be nil'')
      else then_r (validate_nonnegative_revision (cat_catalog_revision c) ''catalog_revision'')
       (then_r (validate_nonnegative_revision (cat_active_document_count c) ''active_document_count'')
        (then_r (validate_positive_revision (cat_projection_generation c) ''projection_generation'')
          (if cat_catalog_revision c = 0 \<and> cat_active_document_count c \<noteq> 0
           then Err (InvalidCanonicalState ''catalog revision zero must have no active Documents'')
           else if cat_updated_at c < cat_initialized_at c
           then Err (InvalidCanonicalState ''catalog updated_at precedes initialized_at'')
           else Ok ()))))"

definition catalog_from_snapshot ::
  "uuid_api \<Rightarrow> uuid \<Rightarrow> u64 \<Rightarrow> u64 \<Rightarrow> u64 \<Rightarrow> timestamp \<Rightarrow> timestamp
   \<Rightarrow> document_catalog document_result" where
  "catalog_from_snapshot U project_id catalog_revision active_document_count
      projection_generation initialized_at updated_at =
     (let c = \<lparr>cat_project_id = project_id, cat_catalog_revision = catalog_revision,
               cat_active_document_count = active_document_count,
               cat_projection_generation = projection_generation,
               cat_initialized_at = initialized_at, cat_updated_at = updated_at\<rparr>
      in then_r (catalog_validate U c) (Ok c))"

definition catalog_empty ::
  "uuid_api \<Rightarrow> uuid \<Rightarrow> u64 \<Rightarrow> timestamp \<Rightarrow> document_catalog document_result" where
  "catalog_empty U project_id projection_generation initialized_at =
     catalog_from_snapshot U project_id 0 0 projection_generation initialized_at initialized_at"


subsection \<open>What the checks accept\<close>

lemma validate_document_id_Ok [result_inv]: "validate_document_id U i = Ok () \<longleftrightarrow> is_uuid_v4 U i"
  by (auto simp: validate_document_id_def is_uuid_v4_def)

lemma validate_positive_revision_Ok [result_inv]:
  "validate_positive_revision v f = Ok () \<longleftrightarrow> 1 \<le> v \<and> v \<le> MAX_SAFE_REVISION"
  by (simp add: validate_positive_revision_def)

lemma validate_nonnegative_revision_Ok [result_inv]:
  "validate_nonnegative_revision v f = Ok () \<longleftrightarrow> v \<le> MAX_SAFE_REVISION"
  by (auto simp: validate_nonnegative_revision_def)

lemma validate_no_nul_Ok [result_inv]: "validate_no_nul f v = Ok () \<longleftrightarrow> 0 \<notin> set v"
  by (simp add: validate_no_nul_def)

lemma validate_len_Ok [result_inv]: "validate_len f v m = Ok () \<longleftrightarrow> utf8_len v \<le> m"
  by (auto simp: validate_len_def)

definition snapshot_ok :: "ustring \<Rightarrow> ustring option \<Rightarrow> ustring \<Rightarrow> bool" where
  "snapshot_ok title summary content \<longleftrightarrow>
     0 \<notin> set title \<and> title \<noteq> [] \<and> trim title = title \<and> utf8_len title \<le> 256
     \<and> (\<forall>s. summary = Some s \<longrightarrow> 0 \<notin> set s \<and> s \<noteq> [] \<and> utf8_len s \<le> 4096)
     \<and> 0 \<notin> set content \<and> utf8_len content \<le> 49152"

lemma validate_snapshot_Ok [result_inv]: "validate_snapshot t s c = Ok () \<longleftrightarrow> snapshot_ok t s c"
  by (cases s)
    (auto simp: validate_snapshot_def snapshot_ok_def result_inv MAX_TITLE_BYTES_def
      MAX_SUMMARY_BYTES_def MAX_CONTENT_MARKDOWN_BYTES_def)

lemma snapshot_ok_head: "snapshot_ok t s c \<Longrightarrow> snapshot_ok t s []"
  by (simp add: snapshot_ok_def utf8_len_def)

lemma snapshot_validate_Ok [result_inv]:
  "snapshot_validate s = Ok () \<longleftrightarrow>
     snapshot_ok (snap_title s) (snap_summary s) (snap_content_markdown s)"
  by (simp add: snapshot_validate_def validate_snapshot_Ok)

lemma revision_validate_Ok [result_inv]:
  "revision_validate U r = Ok () \<longleftrightarrow>
     (\<forall>s. revision_snapshot r = Some s \<longrightarrow> snapshot_validate s = Ok ())
     \<and> rev_schema_version r = PROJECT_DOCUMENT_SCHEMA_VERSION \<and> is_uuid_v4 U (rev_document_id r)
     \<and> 1 \<le> rev_document_revision r \<and> rev_document_revision r \<le> MAX_SAFE_REVISION"
  by (auto simp: revision_validate_def result_inv split: option.splits)

lemma document_validate_Ok [result_inv]:
  "document_validate U d = Ok () \<longleftrightarrow>
     is_uuid_v4 U (doc_document_id d) \<and> 1 \<le> doc_current_revision d
     \<and> doc_current_revision d \<le> MAX_SAFE_REVISION
     \<and> attr_at (doc_created d) \<le> attr_at (doc_updated d)"
  by (auto simp: document_validate_def result_inv)

lemma document_from_snapshot_Ok [result_inv]:
  "document_from_snapshot U i n st c u = Ok d \<longleftrightarrow>
     d = \<lparr>doc_document_id = i, doc_current_revision = n, doc_state = st, doc_created = c,
          doc_updated = u\<rparr> \<and> document_validate U d = Ok ()"
  by (auto simp: document_from_snapshot_def Let_def result_inv)

text \<open>A current row agrees with the immutable revision it names.\<close>

definition rows_agree :: "project_document \<Rightarrow> document_revision \<Rightarrow> bool" where
  "rows_agree d r \<longleftrightarrow>
     doc_document_id d = rev_document_id r \<and> doc_current_revision d = rev_document_revision r
     \<and> doc_state d = revision_state r \<and> attr_by (doc_updated d) = rev_actor r
     \<and> attr_at (doc_updated d) = rev_canonical_at r
     \<and> (doc_current_revision d = 1 \<longrightarrow>
           attr_by (doc_created d) = rev_actor r \<and> attr_at (doc_created d) = rev_canonical_at r)"

lemma current_document_new_Ok [result_inv]:
  "current_document_new U d r = Ok c \<longleftrightarrow>
     document_validate U d = Ok () \<and> revision_validate U r = Ok () \<and> rows_agree d r
     \<and> c = \<lparr>cur_document = d, cur_revision = r\<rparr>"
  by (auto simp: current_document_new_def rows_agree_def then_r_Ok_iff)

lemma current_document_validate_Ok [result_inv]:
  "current_document_validate U c = Ok () \<longleftrightarrow>
     document_validate U (cur_document c) = Ok () \<and> revision_validate U (cur_revision c) = Ok ()
     \<and> rows_agree (cur_document c) (cur_revision c)"
  by (auto simp: current_document_validate_def bind_r_Ok_iff current_document_new_Ok)

lemma catalog_validate_Ok [result_inv]:
  "catalog_validate U c = Ok () \<longleftrightarrow>
     \<not> is_nil U (cat_project_id c) \<and> cat_catalog_revision c \<le> MAX_SAFE_REVISION
     \<and> cat_active_document_count c \<le> MAX_SAFE_REVISION
     \<and> 1 \<le> cat_projection_generation c \<and> cat_projection_generation c \<le> MAX_SAFE_REVISION
     \<and> (cat_catalog_revision c = 0 \<longrightarrow> cat_active_document_count c = 0)
     \<and> cat_initialized_at c \<le> cat_updated_at c"
  by (auto simp: catalog_validate_def result_inv)

lemma catalog_from_snapshot_Ok [result_inv]:
  "catalog_from_snapshot U p r n g i u = Ok c \<longleftrightarrow>
     c = \<lparr>cat_project_id = p, cat_catalog_revision = r, cat_active_document_count = n,
          cat_projection_generation = g, cat_initialized_at = i, cat_updated_at = u\<rparr>
     \<and> catalog_validate U c = Ok ()"
  by (auto simp: catalog_from_snapshot_def Let_def then_r_Ok_iff)

end
