(* ===== verification/Document_Wire.thy ===== *)
theory Document_Wire
  imports Document_Model
begin

text \<open>
  What crosses the wire for a Project Document: the member command of
  \<open>command.rs\<close>, and the relay's projections, projection plan and receipt of
  \<open>projection.rs\<close> in \<open>crates/buzz-project-document/src\<close>.
\<close>

subsection \<open>Commands\<close>

datatype document_command_request =
    CreateRequest (req_document_id: uuid) (req_title: ustring) (req_summary: "ustring option")
      (req_content_markdown: ustring)
  | UpdateRequest (req_document_id: uuid) (req_title: ustring) (req_summary: "ustring option")
      (req_content_markdown: ustring)
  | DeleteRequest (req_document_id: uuid)

fun request_operation :: "document_command_request \<Rightarrow> document_operation" where
  "request_operation (CreateRequest _ _ _ _) = Create"
| "request_operation (UpdateRequest _ _ _ _) = Update"
| "request_operation (DeleteRequest _) = Delete"

fun request_snapshot :: "document_command_request \<Rightarrow> document_snapshot option" where
  "request_snapshot (CreateRequest _ t s c) =
     Some \<lparr>snap_title = t, snap_summary = s, snap_content_markdown = c\<rparr>"
| "request_snapshot (UpdateRequest _ t s c) =
     Some \<lparr>snap_title = t, snap_summary = s, snap_content_markdown = c\<rparr>"
| "request_snapshot (DeleteRequest _) = None"

definition request_validate :: "uuid_api \<Rightarrow> document_command_request \<Rightarrow> unit document_result" where
  "request_validate U r =
     then_r (validate_document_id U (req_document_id r))
     (case r of
        CreateRequest _ t s c \<Rightarrow> validate_snapshot t s c
      | UpdateRequest _ t s c \<Rightarrow> validate_snapshot t s c
      | DeleteRequest _ \<Rightarrow> Ok ())"

record project_document_command =
  cmd_schema_version :: u16
  cmd_expected_document_revision :: u64
  cmd_acting_assignment_id :: "uuid option"
  cmd_runtime_fence :: "runtime_fence option"
  cmd_request :: document_command_request

definition command_new :: "u64 \<Rightarrow> document_command_request \<Rightarrow> project_document_command" where
  "command_new expected request =
     \<lparr>cmd_schema_version = PROJECT_DOCUMENT_SCHEMA_VERSION,
      cmd_expected_document_revision = expected, cmd_acting_assignment_id = None,
      cmd_runtime_fence = None, cmd_request = request\<rparr>"

definition command_with_runtime_fence ::
  "project_document_command \<Rightarrow> uuid \<Rightarrow> runtime_fence \<Rightarrow> project_document_command" where
  "command_with_runtime_fence c assignment fence =
     c\<lparr>cmd_acting_assignment_id := Some assignment, cmd_runtime_fence := Some fence\<rparr>"

definition command_validate_for_submission ::
  "uuid_api \<Rightarrow> project_document_command \<Rightarrow> unit document_result" where
  "command_validate_for_submission U c =
     (if cmd_schema_version c \<noteq> PROJECT_DOCUMENT_SCHEMA_VERSION
      then Err (UnsupportedSchemaVersion (cmd_schema_version c) PROJECT_DOCUMENT_SCHEMA_VERSION)
      else then_r
        (validate_nonnegative_revision (cmd_expected_document_revision c) ''expected_document_revision'')
       (then_r
         (case request_operation (cmd_request c) of
            Create \<Rightarrow>
              if cmd_expected_document_revision c \<noteq> 0
              then Err (InvalidRevisionTarget ''create requires expected_document_revision = 0'')
              else Ok ()
          | Update \<Rightarrow> validate_positive_revision (cmd_expected_document_revision c) ''expected_document_revision''
          | Delete \<Rightarrow> validate_positive_revision (cmd_expected_document_revision c) ''expected_document_revision'')
        (then_r
          (case (cmd_acting_assignment_id c, cmd_runtime_fence c) of
             (None, None) \<Rightarrow> Ok ()
           | (Some assignment_id, Some fence) \<Rightarrow>
               if is_nil U assignment_id
               then Err (InvalidRuntimeFence ''acting_assignment_id cannot be nil'')
               else map_err InvalidRuntimeFence (runtime_fence_validate U fence)
           | _ \<Rightarrow> Err (InvalidRuntimeFence
               ''acting_assignment_id and runtime_fence must both be omitted or both be present''))
          (request_validate U (cmd_request c)))))"

text \<open>
  \<open>from_json\<close>: the byte limit, then \<open>serde_json\<close>'s parser \<open>parse\<close>, the depth limit,
  the derived decoder \<open>decode\<close>, and the field checks.
\<close>

definition command_from_json ::
  "uuid_api \<Rightarrow> (ustring \<Rightarrow> (json_value, string) result)
   \<Rightarrow> (json_value \<Rightarrow> (project_document_command, string) result)
   \<Rightarrow> ustring \<Rightarrow> project_document_command document_result" where
  "command_from_json U parse decode content =
     (if MAX_COMMAND_CONTENT_BYTES < utf8_len content
      then Err (ContentTooLarge MAX_COMMAND_CONTENT_BYTES (utf8_len content))
      else bind_r (map_err InvalidJson (parse content)) (\<lambda>value.
        if MAX_COMMAND_JSON_DEPTH < json_depth value
        then Err (JsonTooDeep MAX_COMMAND_JSON_DEPTH (json_depth value))
        else bind_r (map_err InvalidJson (decode value)) (\<lambda>command.
          then_r (command_validate_for_submission U command) (Ok command))))"

definition command_operation :: "project_document_command \<Rightarrow> document_operation" where
  "command_operation c = request_operation (cmd_request c)"

definition command_document_id :: "project_document_command \<Rightarrow> uuid" where
  "command_document_id c = req_document_id (cmd_request c)"


subsection \<open>Projections\<close>

datatype document_projection_type = DocumentHead | DocumentRevision | DocumentMeta

text \<open>The canonical coordinates, from the hyphenated text of the identities.\<close>

definition document_head_coordinate :: "uuid_api \<Rightarrow> uuid \<Rightarrow> uuid \<Rightarrow> string" where
  "document_head_coordinate U project_id document_id =
     ''project-document:'' @ uuid_display U project_id @ '':'' @ uuid_display U document_id"

definition document_revision_coordinate :: "uuid_api \<Rightarrow> uuid \<Rightarrow> uuid \<Rightarrow> u64 \<Rightarrow> string" where
  "document_revision_coordinate U project_id document_id document_revision =
     ''project-document:'' @ uuid_display U project_id @ '':'' @ uuid_display U document_id
       @ '':revision:'' @ show_nat (unat document_revision)"

definition document_meta_coordinate :: "uuid_api \<Rightarrow> uuid \<Rightarrow> string" where
  "document_meta_coordinate U project_id =
     ''project-document:'' @ uuid_display U project_id @ '':meta''"

definition validate_projection_common ::
  "uuid_api \<Rightarrow> u16 \<Rightarrow> document_projection_type \<Rightarrow> document_projection_type \<Rightarrow> uuid \<Rightarrow> u64 \<Rightarrow> u64
   \<Rightarrow> unit document_result" where
  "validate_projection_common U schema_version projection_type expected_type project_id
      projection_generation catalog_revision =
     (if schema_version \<noteq> PROJECT_DOCUMENT_SCHEMA_VERSION
      then Err (UnsupportedSchemaVersion schema_version PROJECT_DOCUMENT_SCHEMA_VERSION)
      else if projection_type \<noteq> expected_type
      then Err (InvalidProjection ''projection_type does not match event kind'')
      else if is_nil U project_id then Err (InvalidProjection ''project_id cannot be nil'')
      else then_r (validate_positive_revision projection_generation ''projection_generation'')
        (validate_nonnegative_revision catalog_revision ''catalog_revision''))"

record active_head =
  ah_schema_version :: u16
  ah_projection_type :: document_projection_type
  ah_project_id :: uuid
  ah_projection_generation :: u64
  ah_catalog_revision :: u64
  ah_document_id :: uuid
  ah_document_revision :: u64
  ah_title :: ustring
  ah_summary :: "ustring option"
  ah_created_at :: timestamp
  ah_created_by :: public_key
  ah_updated_at :: timestamp
  ah_updated_by :: public_key
  ah_revision_coordinate :: string
  ah_revision_event_id :: event_id
  ah_source_event_id :: event_id

record deleted_head =
  dh_schema_version :: u16
  dh_projection_type :: document_projection_type
  dh_project_id :: uuid
  dh_projection_generation :: u64
  dh_catalog_revision :: u64
  dh_document_id :: uuid
  dh_document_revision :: u64
  dh_created_at :: timestamp
  dh_created_by :: public_key
  dh_deleted_at :: timestamp
  dh_deleted_by :: public_key
  dh_revision_coordinate :: string
  dh_revision_event_id :: event_id
  dh_source_event_id :: event_id

datatype document_head_projection = ActiveHead active_head | DeletedHead deleted_head

definition head_identity_validate ::
  "uuid_api \<Rightarrow> u16 \<Rightarrow> document_projection_type \<Rightarrow> uuid \<Rightarrow> u64 \<Rightarrow> u64 \<Rightarrow> uuid \<Rightarrow> u64 \<Rightarrow> string
   \<Rightarrow> unit document_result" where
  "head_identity_validate U schema_version projection_type project_id projection_generation
      catalog_revision document_id document_revision revision_coordinate =
     then_r (validate_projection_common U schema_version projection_type DocumentHead project_id
       projection_generation catalog_revision)
     (then_r (validate_positive_revision catalog_revision ''catalog_revision'')
      (then_r (validate_document_id U document_id)
       (then_r (validate_positive_revision document_revision ''document_revision'')
        (if revision_coordinate \<noteq> document_revision_coordinate U project_id document_id document_revision
         then Err (InvalidProjection ''revision_coordinate does not match projection identity'')
         else Ok ()))))"

fun head_projection_validate :: "uuid_api \<Rightarrow> document_head_projection \<Rightarrow> unit document_result" where
  "head_projection_validate U (ActiveHead h) =
     then_r (validate_snapshot (ah_title h) (ah_summary h) [])
     (if ah_updated_at h < ah_created_at h
      then Err (InvalidProjection ''updated_at precedes created_at'')
      else head_identity_validate U (ah_schema_version h) (ah_projection_type h) (ah_project_id h)
        (ah_projection_generation h) (ah_catalog_revision h) (ah_document_id h)
        (ah_document_revision h) (ah_revision_coordinate h))"
| "head_projection_validate U (DeletedHead h) =
     (if dh_deleted_at h < dh_created_at h
      then Err (InvalidProjection ''deleted_at precedes created_at'')
      else head_identity_validate U (dh_schema_version h) (dh_projection_type h) (dh_project_id h)
        (dh_projection_generation h) (dh_catalog_revision h) (dh_document_id h)
        (dh_document_revision h) (dh_revision_coordinate h))"

record active_revision_projection =
  ar_schema_version :: u16
  ar_projection_type :: document_projection_type
  ar_project_id :: uuid
  ar_projection_generation :: u64
  ar_catalog_revision :: u64
  ar_document_id :: uuid
  ar_document_revision :: u64
  ar_title :: ustring
  ar_summary :: "ustring option"
  ar_content_markdown :: ustring
  ar_created_at :: timestamp
  ar_created_by :: public_key
  ar_revision_at :: timestamp
  ar_revision_by :: public_key
  ar_source_event_id :: event_id

record deleted_revision_projection =
  dr_schema_version :: u16
  dr_projection_type :: document_projection_type
  dr_project_id :: uuid
  dr_projection_generation :: u64
  dr_catalog_revision :: u64
  dr_document_id :: uuid
  dr_document_revision :: u64
  dr_created_at :: timestamp
  dr_created_by :: public_key
  dr_revision_at :: timestamp
  dr_revision_by :: public_key
  dr_source_event_id :: event_id

datatype document_revision_projection =
    ActiveRevisionProjection active_revision_projection
  | DeletedRevisionProjection deleted_revision_projection

definition revision_identity_validate ::
  "uuid_api \<Rightarrow> u16 \<Rightarrow> document_projection_type \<Rightarrow> uuid \<Rightarrow> u64 \<Rightarrow> u64 \<Rightarrow> uuid \<Rightarrow> u64
   \<Rightarrow> unit document_result" where
  "revision_identity_validate U schema_version projection_type project_id projection_generation
      catalog_revision document_id document_revision =
     then_r (validate_projection_common U schema_version projection_type DocumentRevision project_id
       projection_generation catalog_revision)
     (then_r (validate_positive_revision catalog_revision ''catalog_revision'')
      (then_r (validate_document_id U document_id)
       (validate_positive_revision document_revision ''document_revision'')))"

fun revision_projection_validate ::
  "uuid_api \<Rightarrow> document_revision_projection \<Rightarrow> unit document_result" where
  "revision_projection_validate U (ActiveRevisionProjection r) =
     then_r (validate_snapshot (ar_title r) (ar_summary r) (ar_content_markdown r))
     (if ar_revision_at r < ar_created_at r
      then Err (InvalidProjection ''revision_at precedes created_at'')
      else revision_identity_validate U (ar_schema_version r) (ar_projection_type r)
        (ar_project_id r) (ar_projection_generation r) (ar_catalog_revision r)
        (ar_document_id r) (ar_document_revision r))"
| "revision_projection_validate U (DeletedRevisionProjection r) =
     (if dr_revision_at r < dr_created_at r
      then Err (InvalidProjection ''revision_at precedes created_at'')
      else revision_identity_validate U (dr_schema_version r) (dr_projection_type r)
        (dr_project_id r) (dr_projection_generation r) (dr_catalog_revision r)
        (dr_document_id r) (dr_document_revision r))"

record changed_document_head =
  ch_head_coordinate :: string
  ch_head_event_id :: event_id
  ch_document_id :: uuid
  ch_document_revision :: u64
  ch_revision_event_id :: event_id
  ch_deleted :: bool

record document_meta_projection =
  mp_schema_version :: u16
  mp_projection_type :: document_projection_type
  mp_project_id :: uuid
  mp_initialized :: bool
  mp_projection_generation :: u64
  mp_catalog_revision :: u64
  mp_active_document_count :: u64
  mp_reset :: bool
  mp_changed_heads :: "changed_document_head list"
  mp_source_event_id :: "event_id option"
  mp_updated_at :: timestamp

definition changed_head_validate ::
  "uuid_api \<Rightarrow> uuid \<Rightarrow> changed_document_head \<Rightarrow> unit document_result" where
  "changed_head_validate U project_id changed =
     then_r (validate_document_id U (ch_document_id changed))
     (then_r (validate_positive_revision (ch_document_revision changed) ''document_revision'')
      (if ch_head_coordinate changed
          \<noteq> document_head_coordinate U project_id (ch_document_id changed)
       then Err (InvalidProjection ''changed head coordinate does not match its identity'')
       else Ok ()))"

definition meta_projection_validate ::
  "uuid_api \<Rightarrow> document_meta_projection \<Rightarrow> unit document_result" where
  "meta_projection_validate U m =
     then_r (validate_projection_common U (mp_schema_version m) (mp_projection_type m) DocumentMeta
       (mp_project_id m) (mp_projection_generation m) (mp_catalog_revision m))
     (then_r (validate_nonnegative_revision (mp_active_document_count m) ''active_document_count'')
      (if \<not> mp_initialized m
       then Err (InvalidProjection ''an emitted document_meta must be initialized'')
       else then_r
         (if mp_reset m
          then (if mp_changed_heads m \<noteq> [] \<or> mp_source_event_id m \<noteq> None
                then Err (InvalidProjection ''reset metadata must omit source_event_id and changed_heads'')
                else Ok ())
          else if length (mp_changed_heads m) \<noteq> 1 \<or> mp_source_event_id m = None
          then Err (InvalidProjection ''incremental metadata requires one changed head and source_event_id'')
          else Ok ())
         (if mp_catalog_revision m = 0 \<and> (\<not> mp_reset m \<or> mp_active_document_count m \<noteq> 0)
          then Err (InvalidProjection ''catalog revision zero must be an empty reset bootstrap'')
          else for_each (changed_head_validate U (mp_project_id m)) (mp_changed_heads m))))"

record document_projection_plan =
  plan_catalog :: document_catalog
  plan_current :: "current_document option"
  plan_source_event_id :: "event_id option"
  plan_reset :: bool

definition plan_for_bootstrap ::
  "uuid_api \<Rightarrow> document_catalog \<Rightarrow> document_projection_plan document_result" where
  "plan_for_bootstrap U catalog =
     then_r (catalog_validate U catalog)
     (if cat_catalog_revision catalog \<noteq> 0 \<or> cat_active_document_count catalog \<noteq> 0
      then Err (InvalidProjection ''bootstrap projection requires revision zero and an empty catalog'')
      else Ok \<lparr>plan_catalog = catalog, plan_current = None, plan_source_event_id = None,
               plan_reset = True\<rparr>)"

definition plan_for_reprojection ::
  "uuid_api \<Rightarrow> document_catalog \<Rightarrow> document_projection_plan document_result" where
  "plan_for_reprojection U catalog =
     then_r (catalog_validate U catalog)
     (Ok \<lparr>plan_catalog = catalog, plan_current = None, plan_source_event_id = None,
          plan_reset = True\<rparr>)"

definition plan_for_transition ::
  "uuid_api \<Rightarrow> document_catalog \<Rightarrow> current_document \<Rightarrow> event_id
   \<Rightarrow> document_projection_plan document_result" where
  "plan_for_transition U catalog current source_event_id =
     then_r (catalog_validate U catalog) (then_r (current_document_validate U current)
     (if cat_catalog_revision catalog = 0
      then Err (InvalidProjection ''a mutation projection requires a positive catalog revision'')
      else if cat_updated_at catalog \<noteq> attr_at (doc_updated (cur_document current))
      then Err (InvalidProjection ''catalog and current Document must share one canonical transition time'')
      else Ok \<lparr>plan_catalog = catalog, plan_current = Some current,
               plan_source_event_id = Some source_event_id, plan_reset = False\<rparr>))"


subsection \<open>Receipts\<close>

record project_document_receipt =
  rct_schema_version :: u16
  rct_change_id :: event_id
  rct_actor :: public_key
  rct_acting_assignment_id :: "uuid option"
  rct_operation :: document_operation
  rct_document_id :: uuid
  rct_expected_document_revision :: u64
  rct_document_revision :: u64
  rct_catalog_revision :: u64
  rct_state :: document_state
  rct_accepted_at :: timestamp

definition receipt_validate :: "uuid_api \<Rightarrow> project_document_receipt \<Rightarrow> unit document_result" where
  "receipt_validate U r =
     (if rct_schema_version r \<noteq> PROJECT_DOCUMENT_SCHEMA_VERSION
      then Err (UnsupportedSchemaVersion (rct_schema_version r) PROJECT_DOCUMENT_SCHEMA_VERSION)
      else then_r (validate_document_id U (rct_document_id r))
      (then_r (validate_nonnegative_revision (rct_expected_document_revision r) ''expected_document_revision'')
      (then_r (validate_positive_revision (rct_document_revision r) ''document_revision'')
      (then_r (validate_positive_revision (rct_catalog_revision r) ''catalog_revision'')
       (if (case rct_acting_assignment_id r of Some i \<Rightarrow> is_nil U i | None \<Rightarrow> False)
        then Err (InvalidProjection ''acting_assignment_id cannot be nil'')
        else if rct_state r \<noteq> (case rct_operation r of Create \<Rightarrow> Active | Update \<Rightarrow> Active | Delete \<Rightarrow> Deleted)
        then Err (InvalidProjection ''receipt operation and lifecycle state disagree'')
        else (case checked_add (rct_expected_document_revision r) 1 of
            None \<Rightarrow> Err (InvalidProjection ''receipt revision overflow'')
          | Some committed_revision \<Rightarrow>
              if committed_revision \<noteq> rct_document_revision r
              then Err (InvalidProjection ''document_revision must be exactly expected_document_revision + 1'')
              else if rct_operation r = Create \<and> rct_expected_document_revision r \<noteq> 0
              then Err (InvalidProjection ''create receipt must start from revision zero'')
              else if rct_operation r \<noteq> Create \<and> rct_expected_document_revision r = 0
              then Err (InvalidProjection ''update/delete receipt requires a positive base revision'')
              else Ok ()))))))"


subsection \<open>What the checks accept\<close>

lemma request_validate_Ok [result_inv]:
  "request_validate U r = Ok () \<longleftrightarrow>
     is_uuid_v4 U (req_document_id r) \<and>
     (\<forall>s. request_snapshot r = Some s \<longrightarrow> snapshot_validate s = Ok ())"
  by (cases r) (auto simp: request_validate_def result_inv)

lemma command_validate_Ok [result_inv]:
  "command_validate_for_submission U c = Ok () \<longleftrightarrow>
     cmd_schema_version c = PROJECT_DOCUMENT_SCHEMA_VERSION
     \<and> cmd_expected_document_revision c \<le> MAX_SAFE_REVISION
     \<and> (command_operation c = Create \<longleftrightarrow> cmd_expected_document_revision c = 0)
     \<and> managed_claim_ok U (cmd_acting_assignment_id c) (cmd_runtime_fence c)
     \<and> request_validate U (cmd_request c) = Ok ()"
  by (cases "cmd_acting_assignment_id c"; cases "cmd_runtime_fence c"; cases "cmd_request c")
    (auto simp: command_validate_for_submission_def command_operation_def managed_claim_ok_def
      then_r_Ok_iff map_err_Ok_iff validate_nonnegative_revision_Ok validate_positive_revision_Ok
      one_le_iff unat_gt_0 Suc_le_eq)

lemma plan_for_transition_Ok [result_inv]:
  "plan_for_transition U cat cur e = Ok p \<longleftrightarrow>
     catalog_validate U cat = Ok () \<and> current_document_validate U cur = Ok ()
     \<and> cat_catalog_revision cat \<noteq> 0 \<and> cat_updated_at cat = attr_at (doc_updated (cur_document cur))
     \<and> p = \<lparr>plan_catalog = cat, plan_current = Some cur, plan_source_event_id = Some e,
            plan_reset = False\<rparr>"
  by (auto simp: plan_for_transition_def then_r_Ok_iff)

lemma receipt_validate_Ok [result_inv]:
  "receipt_validate U r = Ok () \<longleftrightarrow>
     rct_schema_version r = PROJECT_DOCUMENT_SCHEMA_VERSION \<and> is_uuid_v4 U (rct_document_id r)
     \<and> rct_document_revision r \<le> MAX_SAFE_REVISION
     \<and> 1 \<le> rct_catalog_revision r \<and> rct_catalog_revision r \<le> MAX_SAFE_REVISION
     \<and> (\<forall>i. rct_acting_assignment_id r = Some i \<longrightarrow> \<not> is_nil U i)
     \<and> (rct_state r = Deleted \<longleftrightarrow> rct_operation r = Delete)
     \<and> unat (rct_document_revision r) = unat (rct_expected_document_revision r) + 1
     \<and> (rct_operation r = Create \<longleftrightarrow> rct_expected_document_revision r = 0)"
proof (cases "checked_add (rct_expected_document_revision r) 1")
  case None
  then have "unat (rct_document_revision r) \<noteq> unat (rct_expected_document_revision r) + 1"
    using checked_add_Some_iff [of "rct_expected_document_revision r" 1 "rct_document_revision r"]
    by simp
  with None show ?thesis
    by (auto simp: receipt_validate_def then_r_Ok_iff)
next
  case (Some n)
  then have n: "n = rct_document_revision r \<longleftrightarrow>
      unat (rct_document_revision r) = unat (rct_expected_document_revision r) + 1"
    by (simp add: checked_add_Some_iff word_unat_eq_iff) (metis)
  with Some show ?thesis
    by (cases "rct_operation r"; cases "rct_state r"; cases "rct_acting_assignment_id r")
      (auto simp: receipt_validate_def result_inv safe_range)
qed

end
