(* ===== verification/Document_Reducer.thy ===== *)
theory Document_Reducer
  imports Document_Wire
begin

text \<open>
  The pure transition of \<open>crates/buzz-project-document/src/reducer.rs\<close>: one command
  against the catalog and the current row of its target.
\<close>

record document_change_context =
  ctx_actor :: public_key
  ctx_change_id :: event_id
  ctx_canonical_at :: timestamp
  ctx_deletion_blocked :: bool

record document_transition =
  tr_catalog :: document_catalog
  tr_current :: current_document
  tr_receipt :: project_document_receipt
  tr_projection_plan :: document_projection_plan

definition transition_validate :: "uuid_api \<Rightarrow> document_transition \<Rightarrow> unit document_result" where
  "transition_validate U t =
     then_r (catalog_validate U (tr_catalog t))
     (then_r (current_document_validate U (tr_current t))
     (then_r (receipt_validate U (tr_receipt t))
      (let r = tr_receipt t; d = cur_document (tr_current t); p = tr_projection_plan t in
       if rct_document_id r \<noteq> doc_document_id d
          \<or> rct_document_revision r \<noteq> doc_current_revision d
          \<or> rct_catalog_revision r \<noteq> cat_catalog_revision (tr_catalog t)
          \<or> rct_state r \<noteq> doc_state d
          \<or> rct_accepted_at r \<noteq> cat_updated_at (tr_catalog t)
          \<or> plan_catalog p \<noteq> tr_catalog t
          \<or> plan_current p \<noteq> Some (tr_current t)
          \<or> plan_source_event_id p \<noteq> Some (rct_change_id r)
          \<or> plan_reset p
       then Err (InvalidCanonicalState ''transition receipt, state, and projection plan disagree'')
       else Ok ())))"

definition require_active_current ::
  "current_document option \<Rightarrow> project_document_command \<Rightarrow> current_document document_result" where
  "require_active_current current command =
     (case current of
        None \<Rightarrow> Err (DocumentNotFound (command_document_id command))
      | Some c \<Rightarrow>
          let actual = doc_current_revision (cur_document c) in
          if actual \<noteq> cmd_expected_document_revision command
          then Err (RevisionConflict (cmd_expected_document_revision command) (Some actual))
          else if doc_state (cur_document c) = Deleted
          then Err (DocumentDeleted (command_document_id command))
          else Ok c)"

definition require_increasing_time :: "current_document \<Rightarrow> timestamp \<Rightarrow> unit document_result" where
  "require_increasing_time c canonical_at =
     (if canonical_at \<le> attr_at (doc_updated (cur_document c))
      then Err (InvalidCanonicalState ''canonical transition time must increase past Document updated_at'')
      else Ok ())"

definition next_revision :: "u64 \<Rightarrow> u64 document_result" where
  "next_revision current =
     ok_or RevisionExhausted (opt_filter (\<lambda>next. next \<le> MAX_SAFE_REVISION) (checked_add current 1))"

definition next_catalog ::
  "uuid_api \<Rightarrow> document_catalog \<Rightarrow> document_operation \<Rightarrow> timestamp \<Rightarrow> document_catalog document_result" where
  "next_catalog U catalog operation canonical_at =
     bind_r (next_revision (cat_catalog_revision catalog)) (\<lambda>catalog_revision.
     bind_r
       (case operation of
          Create \<Rightarrow> ok_or RevisionExhausted
            (opt_filter (\<lambda>count. count \<le> MAX_SAFE_REVISION)
              (checked_add (cat_active_document_count catalog) 1))
        | Update \<Rightarrow> Ok (cat_active_document_count catalog)
        | Delete \<Rightarrow> ok_or (InvalidCanonicalState ''cannot delete from a catalog with no active Documents'')
            (checked_sub (cat_active_document_count catalog) 1))
       (\<lambda>active_document_count.
         catalog_from_snapshot U (cat_project_id catalog) catalog_revision active_document_count
           (cat_projection_generation catalog) (cat_initialized_at catalog) canonical_at))"

text \<open>The three arms of the request: the next row and the revision it names.\<close>

definition reduce_request ::
  "uuid_api \<Rightarrow> current_document option \<Rightarrow> project_document_command \<Rightarrow> document_change_context \<Rightarrow> u64
   \<Rightarrow> (project_document \<times> document_revision) document_result" where
  "reduce_request U current command context next =
     (let attribution = \<lparr>attr_at = ctx_canonical_at context, attr_by = ctx_actor context\<rparr> in
      case cmd_request command of
        CreateRequest document_id title summary content_markdown \<Rightarrow>
          if current \<noteq> None then Err (DocumentIdAlreadyExists document_id)
          else bind_r (document_from_snapshot U document_id next Active attribution attribution)
            (\<lambda>document. Ok (document,
               ActiveRevision PROJECT_DOCUMENT_SCHEMA_VERSION document_id next
                 \<lparr>snap_title = title, snap_summary = summary, snap_content_markdown = content_markdown\<rparr>
                 (ctx_actor context) (ctx_canonical_at context)))
      | UpdateRequest document_id title summary content_markdown \<Rightarrow>
          bind_r (require_active_current current command) (\<lambda>c.
            let next_snapshot = \<lparr>snap_title = title, snap_summary = summary,
                                 snap_content_markdown = content_markdown\<rparr> in
            if revision_snapshot (cur_revision c) = Some next_snapshot then Err NoChange
            else then_r (require_increasing_time c (ctx_canonical_at context))
              (bind_r (document_from_snapshot U document_id next Active
                        (doc_created (cur_document c)) attribution)
                (\<lambda>document. Ok (document,
                   ActiveRevision PROJECT_DOCUMENT_SCHEMA_VERSION document_id next next_snapshot
                     (ctx_actor context) (ctx_canonical_at context)))))
      | DeleteRequest document_id \<Rightarrow>
          bind_r (require_active_current current command) (\<lambda>c.
            if ctx_deletion_blocked context then Err (StillReferenced document_id)
            else then_r (require_increasing_time c (ctx_canonical_at context))
              (bind_r (document_from_snapshot U document_id next Deleted
                        (doc_created (cur_document c)) attribution)
                (\<lambda>document. Ok (document,
                   DeletedRevision PROJECT_DOCUMENT_SCHEMA_VERSION document_id next
                     (ctx_actor context) (ctx_canonical_at context))))))"

definition reduce_document ::
  "uuid_api \<Rightarrow> document_catalog \<Rightarrow> current_document option \<Rightarrow> project_document_command
   \<Rightarrow> document_change_context \<Rightarrow> document_transition document_result" where
  "reduce_document U catalog current command context =
     then_r (catalog_validate U catalog)
     (then_r (command_validate_for_submission U command)
     (if ctx_canonical_at context \<le> cat_updated_at catalog
      then Err (InvalidCanonicalState ''canonical transition time must increase past catalog updated_at'')
      else then_r
       (case current of
          None \<Rightarrow> Ok ()
        | Some c \<Rightarrow> then_r (current_document_validate U c)
            (if doc_document_id (cur_document c) \<noteq> command_document_id command
             then Err (InvalidCanonicalState ''loaded current Document does not match the command target'')
             else Ok ()))
       (let operation = command_operation command in
        bind_r (next_revision (cmd_expected_document_revision command)) (\<lambda>next.
        bind_r (reduce_request U current command context next) (\<lambda>(document, revision).
        bind_r (current_document_new U document revision) (\<lambda>current'.
        bind_r (next_catalog U catalog operation (ctx_canonical_at context)) (\<lambda>catalog'.
        let receipt = \<lparr>rct_schema_version = PROJECT_DOCUMENT_SCHEMA_VERSION,
              rct_change_id = ctx_change_id context, rct_actor = ctx_actor context,
              rct_acting_assignment_id = cmd_acting_assignment_id command,
              rct_operation = operation, rct_document_id = command_document_id command,
              rct_expected_document_revision = cmd_expected_document_revision command,
              rct_document_revision = next, rct_catalog_revision = cat_catalog_revision catalog',
              rct_state = doc_state (cur_document current'),
              rct_accepted_at = ctx_canonical_at context\<rparr> in
        bind_r (plan_for_transition U catalog' current' (ctx_change_id context)) (\<lambda>projection_plan.
        let transition = \<lparr>tr_catalog = catalog', tr_current = current', tr_receipt = receipt,
              tr_projection_plan = projection_plan\<rparr> in
        then_r (transition_validate U transition) (Ok transition)))))))))"


subsection \<open>The abstract transition\<close>

text \<open>
  What the reducer promises, without its internal re-validation: when a command
  is admissible, and the row, catalog and receipt it then commits.
\<close>

definition live_target ::
  "uuid_api \<Rightarrow> current_document \<Rightarrow> project_document_command \<Rightarrow> timestamp \<Rightarrow> bool" where
  "live_target U c command at \<longleftrightarrow>
     current_document_validate U c = Ok () \<and> doc_document_id (cur_document c) = command_document_id command
     \<and> doc_current_revision (cur_document c) = cmd_expected_document_revision command
     \<and> doc_state (cur_document c) = Active \<and> attr_at (doc_updated (cur_document c)) < at"

definition target_admissible ::
  "uuid_api \<Rightarrow> document_catalog \<Rightarrow> current_document option \<Rightarrow> project_document_command
   \<Rightarrow> document_change_context \<Rightarrow> bool" where
  "target_admissible U catalog current command context \<longleftrightarrow>
     (case command_operation command of
        Create \<Rightarrow> current = None \<and> unat (cat_active_document_count catalog) < 9007199254740991
      | Update \<Rightarrow> \<exists>c. current = Some c \<and> live_target U c command (ctx_canonical_at context)
          \<and> revision_snapshot (cur_revision c) \<noteq> request_snapshot (cmd_request command)
      | Delete \<Rightarrow> \<exists>c. current = Some c \<and> live_target U c command (ctx_canonical_at context)
          \<and> \<not> ctx_deletion_blocked context \<and> cat_active_document_count catalog \<noteq> 0)"

definition admissible ::
  "uuid_api \<Rightarrow> document_catalog \<Rightarrow> current_document option \<Rightarrow> project_document_command
   \<Rightarrow> document_change_context \<Rightarrow> bool" where
  "admissible U catalog current command context \<longleftrightarrow>
     catalog_validate U catalog = Ok () \<and> command_validate_for_submission U command = Ok ()
     \<and> cat_updated_at catalog < ctx_canonical_at context
     \<and> unat (cmd_expected_document_revision command) < 9007199254740991
     \<and> unat (cat_catalog_revision catalog) < 9007199254740991
     \<and> target_admissible U catalog current command context"

definition next_row ::
  "current_document option \<Rightarrow> project_document_command \<Rightarrow> document_change_context \<Rightarrow> current_document" where
  "next_row current command context =
     (let now = \<lparr>attr_at = ctx_canonical_at context, attr_by = ctx_actor context\<rparr>;
          n = cmd_expected_document_revision command + 1; i = command_document_id command in
      \<lparr>cur_document =
         \<lparr>doc_document_id = i, doc_current_revision = n,
          doc_state = (if command_operation command = Delete then Deleted else Active),
          doc_created = (case current of None \<Rightarrow> now | Some c \<Rightarrow> doc_created (cur_document c)),
          doc_updated = now\<rparr>,
       cur_revision =
         (case request_snapshot (cmd_request command) of
            Some s \<Rightarrow> ActiveRevision PROJECT_DOCUMENT_SCHEMA_VERSION i n s (attr_by now) (attr_at now)
          | None \<Rightarrow> DeletedRevision PROJECT_DOCUMENT_SCHEMA_VERSION i n (attr_by now) (attr_at now))\<rparr>)"

definition next_count :: "document_operation \<Rightarrow> u64 \<Rightarrow> u64" where
  "next_count operation n = (case operation of Create \<Rightarrow> n + 1 | Update \<Rightarrow> n | Delete \<Rightarrow> n - 1)"

definition advance_catalog ::
  "document_catalog \<Rightarrow> document_operation \<Rightarrow> timestamp \<Rightarrow> document_catalog" where
  "advance_catalog catalog operation at =
     catalog\<lparr>cat_catalog_revision := cat_catalog_revision catalog + 1,
             cat_active_document_count := next_count operation (cat_active_document_count catalog),
             cat_updated_at := at\<rparr>"

definition receipt_of ::
  "document_catalog \<Rightarrow> project_document_command \<Rightarrow> document_change_context \<Rightarrow> project_document_receipt" where
  "receipt_of catalog' command context =
     \<lparr>rct_schema_version = PROJECT_DOCUMENT_SCHEMA_VERSION, rct_change_id = ctx_change_id context,
      rct_actor = ctx_actor context, rct_acting_assignment_id = cmd_acting_assignment_id command,
      rct_operation = command_operation command, rct_document_id = command_document_id command,
      rct_expected_document_revision = cmd_expected_document_revision command,
      rct_document_revision = cmd_expected_document_revision command + 1,
      rct_catalog_revision = cat_catalog_revision catalog',
      rct_state = (if command_operation command = Delete then Deleted else Active),
      rct_accepted_at = ctx_canonical_at context\<rparr>"

definition commit_of ::
  "document_catalog \<Rightarrow> current_document option \<Rightarrow> project_document_command
   \<Rightarrow> document_change_context \<Rightarrow> document_transition" where
  "commit_of catalog current command context =
     (let catalog' = advance_catalog catalog (command_operation command) (ctx_canonical_at context);
          row = next_row current command context in
      \<lparr>tr_catalog = catalog', tr_current = row, tr_receipt = receipt_of catalog' command context,
       tr_projection_plan = \<lparr>plan_catalog = catalog', plan_current = Some row,
         plan_source_event_id = Some (ctx_change_id context), plan_reset = False\<rparr>\<rparr>)"


subsection \<open>The reducer implements it\<close>

lemma next_revision_Ok [result_inv]:
  "next_revision r = Ok n \<longleftrightarrow> unat r < 9007199254740991 \<and> n = r + 1"
  unfolding next_revision_def ok_or_Ok_iff checked_succ_def [symmetric]
  using checked_succ_plus_one [of r] by (auto simp: checked_succ_Some_iff word_unat_eq_iff)

lemma require_active_current_Ok [result_inv]:
  "require_active_current cur cmd = Ok c \<longleftrightarrow>
     cur = Some c \<and> doc_current_revision (cur_document c) = cmd_expected_document_revision cmd
     \<and> doc_state (cur_document c) = Active"
  by (cases "doc_state (cur_document c)")
    (auto simp: require_active_current_def Let_def split: option.splits if_splits)

lemma next_catalog_Ok [result_inv]:
  "next_catalog U cat oper at = Ok cat' \<longleftrightarrow>
     unat (cat_catalog_revision cat) < 9007199254740991
     \<and> (oper = Create \<longrightarrow> unat (cat_active_document_count cat) < 9007199254740991)
     \<and> (oper = Delete \<longrightarrow> cat_active_document_count cat \<noteq> 0)
     \<and> cat' = advance_catalog cat oper at \<and> catalog_validate U cat' = Ok ()"
proof -
  have create: "ok_or RevisionExhausted (opt_filter (\<lambda>n. n \<le> MAX_SAFE_REVISION)
      (checked_add (cat_active_document_count cat) 1)) = Ok n
      \<longleftrightarrow> unat (cat_active_document_count cat) < 9007199254740991
        \<and> n = cat_active_document_count cat + 1" for n
    using next_revision_Ok [unfolded next_revision_def] .
  have delete: "ok_or e (checked_sub (cat_active_document_count cat) 1) = Ok n
      \<longleftrightarrow> cat_active_document_count cat \<noteq> 0 \<and> n = cat_active_document_count cat - 1" for e n
    by (auto simp: ok_or_Ok_iff checked_sub_def one_le_iff Suc_le_eq unat_gt_0)
  show ?thesis
    by (cases oper)
      (auto simp: next_catalog_def bind_r_Ok_iff next_revision_Ok create delete
        catalog_from_snapshot_Ok advance_catalog_def next_count_def)
qed

lemma require_increasing_time_Ok [result_inv]:
  "require_increasing_time c at = Ok () \<longleftrightarrow> attr_at (doc_updated (cur_document c)) < at"
  by (auto simp: require_increasing_time_def)

text \<open>The part of admissibility that the request arms themselves decide.\<close>

definition arm_admissible ::
  "current_document option \<Rightarrow> project_document_command \<Rightarrow> document_change_context \<Rightarrow> bool" where
  "arm_admissible current command context \<longleftrightarrow>
     (if command_operation command = Create then current = None
      else \<exists>c. current = Some c
        \<and> doc_current_revision (cur_document c) = cmd_expected_document_revision command
        \<and> doc_state (cur_document c) = Active
        \<and> attr_at (doc_updated (cur_document c)) < ctx_canonical_at context
        \<and> (if command_operation command = Update
           then revision_snapshot (cur_revision c) \<noteq> request_snapshot (cmd_request command)
           else \<not> ctx_deletion_blocked context))"

lemma reduce_request_Ok [result_inv]:
  "reduce_request U cur cmd ctx (cmd_expected_document_revision cmd + 1) = Ok dr \<longleftrightarrow>
     arm_admissible cur cmd ctx \<and> document_validate U (cur_document (next_row cur cmd ctx)) = Ok ()
     \<and> dr = (cur_document (next_row cur cmd ctx), cur_revision (next_row cur cmd ctx))"
proof (cases "cmd_request cmd")
  case (CreateRequest i t s c)
  then show ?thesis
    by (auto simp: reduce_request_def arm_admissible_def next_row_def command_operation_def
        command_document_id_def Let_def bind_r_Ok_iff document_from_snapshot_Ok)
next
  case (UpdateRequest i t s c)
  then show ?thesis
    by (auto simp: reduce_request_def arm_admissible_def next_row_def command_operation_def
        command_document_id_def Let_def bind_r_Ok_iff then_r_Ok_iff if_Err_Ok_iff
        document_from_snapshot_Ok require_active_current_Ok require_increasing_time_Ok)
next
  case (DeleteRequest i)
  then show ?thesis
    by (auto simp: reduce_request_def arm_admissible_def next_row_def command_operation_def
        command_document_id_def Let_def bind_r_Ok_iff then_r_Ok_iff if_Err_Ok_iff
        document_from_snapshot_Ok require_active_current_Ok require_increasing_time_Ok)
qed

lemma next_row_simps [simp]:
  "doc_document_id (cur_document (next_row cur cmd ctx)) = command_document_id cmd"
  "doc_current_revision (cur_document (next_row cur cmd ctx)) = cmd_expected_document_revision cmd + 1"
  "doc_updated (cur_document (next_row cur cmd ctx)) =
     \<lparr>attr_at = ctx_canonical_at ctx, attr_by = ctx_actor ctx\<rparr>"
  "doc_state (cur_document (next_row cur cmd ctx)) =
     (if command_operation cmd = Delete then Deleted else Active)"
  "doc_created (cur_document (next_row (Some c) cmd ctx)) = doc_created (cur_document c)"
  "doc_created (cur_document (next_row None cmd ctx)) =
     \<lparr>attr_at = ctx_canonical_at ctx, attr_by = ctx_actor ctx\<rparr>"
  "revision_snapshot (cur_revision (next_row cur cmd ctx)) = request_snapshot (cmd_request cmd)"
  "rev_schema_version (cur_revision (next_row cur cmd ctx)) = PROJECT_DOCUMENT_SCHEMA_VERSION"
  "rev_document_id (cur_revision (next_row cur cmd ctx)) = command_document_id cmd"
  "rev_document_revision (cur_revision (next_row cur cmd ctx)) = cmd_expected_document_revision cmd + 1"
  "rev_actor (cur_revision (next_row cur cmd ctx)) = ctx_actor ctx"
  "rev_canonical_at (cur_revision (next_row cur cmd ctx)) = ctx_canonical_at ctx"
  "revision_state (cur_revision (next_row cur cmd ctx)) =
     (if command_operation cmd = Delete then Deleted else Active)"
  by (cases "cmd_request cmd"; simp add: next_row_def Let_def command_operation_def)+

lemma advance_catalog_simps [simp]:
  "cat_project_id (advance_catalog cat oper at) = cat_project_id cat"
  "cat_catalog_revision (advance_catalog cat oper at) = cat_catalog_revision cat + 1"
  "cat_active_document_count (advance_catalog cat oper at) = next_count oper (cat_active_document_count cat)"
  "cat_projection_generation (advance_catalog cat oper at) = cat_projection_generation cat"
  "cat_initialized_at (advance_catalog cat oper at) = cat_initialized_at cat"
  "cat_updated_at (advance_catalog cat oper at) = at"
  by (simp_all add: advance_catalog_def)

lemma unat_next_count:
  "(oper = Create \<longrightarrow> unat n < 9007199254740991) \<Longrightarrow> (oper = Delete \<longrightarrow> n \<noteq> 0) \<Longrightarrow>
   unat (next_count oper n) + (if oper = Delete then 1 else 0) =
     unat n + (if oper = Create then 1 else 0)"
  by (cases oper) (simp_all add: next_count_def unat_succ_safe unat_pred unat_gt_0)

text \<open>An admissible command yields a valid row, catalog and receipt.\<close>

lemma admissible_catalog:
  assumes "admissible U cat cur cmd ctx"
  shows "catalog_validate U (advance_catalog cat (command_operation cmd) (ctx_canonical_at ctx)) = Ok ()"
proof -
  let ?oper = "command_operation cmd" and ?n = "cat_active_document_count cat"
  have oper: "?oper = Create \<longrightarrow> unat ?n < 9007199254740991" "?oper = Delete \<longrightarrow> ?n \<noteq> 0"
    using assms by (auto simp: admissible_def target_admissible_def)
  have "unat (next_count ?oper ?n) \<le> 9007199254740991"
    using unat_next_count [OF oper] oper assms
    by (auto simp: admissible_def catalog_validate_Ok safe_range split: if_splits)
  then have "next_count ?oper ?n \<le> MAX_SAFE_REVISION" by (simp add: safe_range)
  moreover have "cat_catalog_revision cat + 1 \<noteq> 0" "cat_catalog_revision cat + 1 \<le> MAX_SAFE_REVISION"
    using assms succ_safe [of "cat_catalog_revision cat"] by (auto simp: admissible_def)
  ultimately show ?thesis
    using assms by (auto simp: admissible_def catalog_validate_Ok)
qed

lemma arm_admissible_row:
  assumes cmd: "command_validate_for_submission U cmd = Ok ()"
      "unat (cmd_expected_document_revision cmd) < 9007199254740991"
    and arm: "arm_admissible cur cmd ctx"
    and loaded: "\<And>c. cur = Some c \<Longrightarrow> current_document_validate U c = Ok ()"
  shows "current_document_validate U (next_row cur cmd ctx) = Ok ()"
proof -
  have id: "is_uuid_v4 U (command_document_id cmd)"
    and snap: "\<forall>s. request_snapshot (cmd_request cmd) = Some s \<longrightarrow> snapshot_validate s = Ok ()"
    using cmd by (auto simp: command_validate_Ok request_validate_Ok command_document_id_def)
  have rev: "1 \<le> cmd_expected_document_revision cmd + 1"
      "cmd_expected_document_revision cmd + 1 \<le> MAX_SAFE_REVISION"
    using cmd(2) succ_safe by auto
  show ?thesis
  proof (cases "command_operation cmd = Create")
    case True
    then have "cur = None" using arm by (simp add: arm_admissible_def)
    with id snap rev True show ?thesis
      by (simp add: current_document_validate_Ok document_validate_Ok revision_validate_Ok rows_agree_def)
  next
    case False
    then obtain c where c: "cur = Some c"
        "attr_at (doc_updated (cur_document c)) < ctx_canonical_at ctx"
      using arm by (auto simp: arm_admissible_def)
    have "cmd_expected_document_revision cmd \<noteq> 0"
      using cmd(1) False by (auto simp: command_validate_Ok)
    moreover have "attr_at (doc_created (cur_document c)) \<le> ctx_canonical_at ctx"
      using c loaded by (force simp: current_document_validate_Ok document_validate_Ok)
    ultimately show ?thesis
      using id snap rev c(1)
      by (simp add: current_document_validate_Ok document_validate_Ok revision_validate_Ok rows_agree_def)
  qed
qed

lemma admissible_arm: "admissible U cat cur cmd ctx \<Longrightarrow> arm_admissible cur cmd ctx"
  by (cases "command_operation cmd")
    (auto simp: admissible_def target_admissible_def arm_admissible_def live_target_def)

lemma admissible_row:
  assumes "admissible U cat cur cmd ctx"
  shows "current_document_validate U (next_row cur cmd ctx) = Ok ()"
  using assms admissible_arm [OF assms]
  by (intro arm_admissible_row; cases "command_operation cmd")
    (auto simp: admissible_def target_admissible_def live_target_def)

lemma admissible_receipt:
  assumes "admissible U cat cur cmd ctx"
  shows "receipt_validate U
    (receipt_of (advance_catalog cat (command_operation cmd) (ctx_canonical_at ctx)) cmd ctx) = Ok ()"
  using assms succ_safe [of "cmd_expected_document_revision cmd"] succ_safe [of "cat_catalog_revision cat"]
  by (auto simp: admissible_def receipt_validate_Ok receipt_of_def command_validate_Ok
      request_validate_Ok command_document_id_def managed_claim_ok_def unat_succ_safe)

lemma admissible_commit_validate:
  assumes "admissible U cat cur cmd ctx"
  shows "transition_validate U (commit_of cat cur cmd ctx) = Ok ()"
  using admissible_catalog [OF assms] admissible_row [OF assms] admissible_receipt [OF assms]
  by (simp add: transition_validate_def commit_of_def receipt_of_def Let_def)

lemma reduce_document_admissible:
  assumes "admissible U cat cur cmd ctx"
  shows "reduce_document U cat cur cmd ctx = Ok (commit_of cat cur cmd ctx)"
proof -
  let ?row = "next_row cur cmd ctx" and ?oper = "command_operation cmd"
  let ?cat = "advance_catalog cat ?oper (ctx_canonical_at ctx)"
  have pre: "catalog_validate U cat = Ok ()" "command_validate_for_submission U cmd = Ok ()"
      "\<not> ctx_canonical_at ctx \<le> cat_updated_at cat"
    using assms by (auto simp: admissible_def)
  have loaded: "(case cur of None \<Rightarrow> Ok () | Some c \<Rightarrow> then_r (current_document_validate U c)
      (if doc_document_id (cur_document c) \<noteq> command_document_id cmd then Err e else Ok ())) = Ok ()" for e
    using assms
    by (cases ?oper) (auto simp: admissible_def target_admissible_def live_target_def split: option.splits)
  have nxt: "next_revision (cmd_expected_document_revision cmd) =
      Ok (cmd_expected_document_revision cmd + 1)"
    using assms by (simp add: next_revision_Ok admissible_def)
  have row: "document_validate U (cur_document ?row) = Ok ()"
    using admissible_row [OF assms] by (simp add: current_document_validate_Ok)
  have arm: "reduce_request U cur cmd ctx (cmd_expected_document_revision cmd + 1) =
      Ok (cur_document ?row, cur_revision ?row)"
    using admissible_arm [OF assms] row by (simp add: reduce_request_Ok)
  have new: "current_document_new U (cur_document ?row) (cur_revision ?row) = Ok ?row"
    using admissible_row [OF assms] by (simp add: current_document_validate_Ok current_document_new_Ok)
  have cat: "next_catalog U cat ?oper (ctx_canonical_at ctx) = Ok ?cat"
    using assms admissible_catalog [OF assms]
    by (auto simp: next_catalog_Ok admissible_def target_admissible_def)
  have plan: "plan_for_transition U ?cat ?row (ctx_change_id ctx) =
      Ok (tr_projection_plan (commit_of cat cur cmd ctx))"
    using assms admissible_catalog [OF assms] admissible_row [OF assms]
      succ_safe [of "cat_catalog_revision cat"]
    by (auto simp: plan_for_transition_Ok commit_of_def Let_def admissible_def)
  show ?thesis
    unfolding reduce_document_def
    using admissible_commit_validate [OF assms]
    by (simp add: pre loaded nxt arm new cat plan Let_def commit_of_def receipt_of_def split del: if_split)
qed

lemma reduce_document_Ok_admissible:
  assumes "reduce_document U cat cur cmd ctx = Ok t"
  shows "admissible U cat cur cmd ctx"
proof -
  note inv = assms [unfolded reduce_document_def Let_def, simplified then_r_Ok_iff bind_r_Ok_iff
      if_Err_Ok_iff next_revision_Ok, simplified]
  have pre: "catalog_validate U cat = Ok ()" "command_validate_for_submission U cmd = Ok ()"
      "cat_updated_at cat < ctx_canonical_at ctx"
      "unat (cmd_expected_document_revision cmd) < 9007199254740991"
    using inv by auto
  have loaded: "cur = Some c \<Longrightarrow> current_document_validate U c = Ok ()
      \<and> doc_document_id (cur_document c) = command_document_id cmd" for c
    using inv by (auto simp: then_r_Ok_iff split: if_splits)
  have arm: "arm_admissible cur cmd ctx"
    using inv by (auto simp: reduce_request_Ok)
  have cat: "unat (cat_catalog_revision cat) < 9007199254740991"
      "command_operation cmd = Create \<Longrightarrow> unat (cat_active_document_count cat) < 9007199254740991"
      "command_operation cmd = Delete \<Longrightarrow> cat_active_document_count cat \<noteq> 0"
    using inv by (auto simp: bind_r_Ok_iff next_catalog_Ok split: prod.splits)
  have "target_admissible U cat cur cmd ctx"
    using arm loaded cat(2,3)
    by (cases "command_operation cmd")
      (auto simp: target_admissible_def arm_admissible_def live_target_def)
  with pre cat(1) show ?thesis by (simp add: admissible_def)
qed

subsection \<open>Every outcome\<close>

text \<open>
  Against a valid catalog and a valid row of the command's target, a command
  that passes submission is either committed or refused for one of the reasons
  below, in the order in which the reducer looks for them.
\<close>

definition rejection ::
  "document_catalog \<Rightarrow> current_document option \<Rightarrow> project_document_command
   \<Rightarrow> document_change_context \<Rightarrow> document_error option" where
  "rejection catalog current command context =
     (let expected = cmd_expected_document_revision command; i = command_document_id command;
          exhausted = (if cat_catalog_revision catalog = MAX_SAFE_REVISION then Some RevisionExhausted else None) in
      if expected = MAX_SAFE_REVISION then Some RevisionExhausted
      else if command_operation command = Create
      then (if current \<noteq> None then Some (DocumentIdAlreadyExists i)
            else if cat_active_document_count catalog = MAX_SAFE_REVISION then Some RevisionExhausted
            else exhausted)
      else (case current of
          None \<Rightarrow> Some (DocumentNotFound i)
        | Some c \<Rightarrow>
            if doc_current_revision (cur_document c) \<noteq> expected
            then Some (RevisionConflict expected (Some (doc_current_revision (cur_document c))))
            else if doc_state (cur_document c) = Deleted then Some (DocumentDeleted i)
            else if command_operation command = Update
              \<and> revision_snapshot (cur_revision c) = request_snapshot (cmd_request command)
            then Some NoChange
            else if command_operation command = Delete \<and> ctx_deletion_blocked context
            then Some (StillReferenced i)
            else exhausted))"

definition well_loaded ::
  "uuid_api \<Rightarrow> document_catalog \<Rightarrow> current_document option \<Rightarrow> project_document_command
   \<Rightarrow> document_change_context \<Rightarrow> bool" where
  "well_loaded U catalog current command context \<longleftrightarrow>
     catalog_validate U catalog = Ok () \<and> command_validate_for_submission U command = Ok ()
     \<and> cat_updated_at catalog < ctx_canonical_at context
     \<and> (\<forall>c. current = Some c \<longrightarrow> current_document_validate U c = Ok ()
           \<and> doc_document_id (cur_document c) = command_document_id command
           \<and> attr_at (doc_updated (cur_document c)) \<le> cat_updated_at catalog
           \<and> (doc_state (cur_document c) = Active \<longrightarrow> cat_active_document_count catalog \<noteq> 0))"

lemma safe_max_iff: "r \<le> MAX_SAFE_REVISION \<Longrightarrow> unat r < 9007199254740991 \<longleftrightarrow> r \<noteq> MAX_SAFE_REVISION"
  by (auto simp: word_unat_eq_iff safe_range)

lemma rejection_None:
  assumes "well_loaded U cat cur cmd ctx"
  shows "rejection cat cur cmd ctx = None \<longleftrightarrow> admissible U cat cur cmd ctx"
proof -
  have le: "cat_catalog_revision cat \<le> MAX_SAFE_REVISION" "cat_active_document_count cat \<le> MAX_SAFE_REVISION"
      "cmd_expected_document_revision cmd \<le> MAX_SAFE_REVISION"
    using assms by (auto simp: well_loaded_def catalog_validate_Ok command_validate_Ok)
  show ?thesis
    using assms
    by (cases "command_operation cmd"; cases cur; cases "doc_state (cur_document (the cur))")
      (auto simp: rejection_def Let_def admissible_def target_admissible_def live_target_def
        well_loaded_def safe_max_iff [OF le(1)] safe_max_iff [OF le(2)] safe_max_iff [OF le(3)]
        split: if_splits)
qed

lemma next_revision_Err: "next_revision MAX_SAFE_REVISION = Err RevisionExhausted"
  using next_revision_Ok [of MAX_SAFE_REVISION]
  by (cases "next_revision MAX_SAFE_REVISION") (auto simp: next_revision_def ok_or_def split: option.splits)

lemma reduce_request_rejected:
  assumes wl: "well_loaded U cat cur cmd ctx" and rej: "rejection cat cur cmd ctx = Some e"
    and arm: "\<not> arm_admissible cur cmd ctx"
    and fresh: "cmd_expected_document_revision cmd \<noteq> MAX_SAFE_REVISION"
  shows "reduce_request U cur cmd ctx n = Err e"
proof (cases cur)
  case None
  with rej arm fresh show ?thesis
    by (cases "cmd_request cmd")
      (auto simp: rejection_def arm_admissible_def Let_def reduce_request_def command_operation_def
        command_document_id_def require_active_current_def)
next
  case (Some c)
  then have "attr_at (doc_updated (cur_document c)) < ctx_canonical_at ctx"
    using wl by (auto simp: well_loaded_def)
  with Some rej arm fresh show ?thesis
    by (cases "cmd_request cmd"; cases "doc_state (cur_document c)")
      (auto simp: rejection_def arm_admissible_def Let_def reduce_request_def command_operation_def
        command_document_id_def require_active_current_def split: if_splits)
qed

lemma next_catalog_exhausted:
  assumes wl: "well_loaded U cat cur cmd ctx" and rej: "rejection cat cur cmd ctx = Some e"
    and arm: "arm_admissible cur cmd ctx"
    and fresh: "cmd_expected_document_revision cmd \<noteq> MAX_SAFE_REVISION"
  shows "next_catalog U cat (command_operation cmd) at = Err RevisionExhausted \<and> e = RevisionExhausted"
proof (cases "cat_catalog_revision cat = MAX_SAFE_REVISION")
  case True
  with rej arm fresh show ?thesis
    by (auto simp: next_catalog_def next_revision_Err rejection_def arm_admissible_def Let_def split: if_splits)
next
  case False
  then have "command_operation cmd = Create" "cat_active_document_count cat = MAX_SAFE_REVISION"
      "e = RevisionExhausted"
    using rej arm fresh
    by (auto simp: rejection_def arm_admissible_def Let_def split: if_splits option.splits)
  moreover have "next_revision (cat_catalog_revision cat) = Ok (cat_catalog_revision cat + 1)"
    using wl False by (simp add: next_revision_Ok well_loaded_def catalog_validate_Ok safe_max_iff)
  ultimately show ?thesis
    using next_revision_Err [unfolded next_revision_def] by (simp add: next_catalog_def)
qed

lemma reduce_document_rejected:
  assumes wl: "well_loaded U cat cur cmd ctx" and rej: "rejection cat cur cmd ctx = Some e"
  shows "reduce_document U cat cur cmd ctx = Err e"
proof -
  let ?exp = "cmd_expected_document_revision cmd" and ?row = "next_row cur cmd ctx"
  have pre: "catalog_validate U cat = Ok ()" "command_validate_for_submission U cmd = Ok ()"
      "\<not> ctx_canonical_at ctx \<le> cat_updated_at cat"
    using wl by (auto simp: well_loaded_def)
  have loaded: "(case cur of None \<Rightarrow> Ok () | Some c \<Rightarrow> then_r (current_document_validate U c)
      (if doc_document_id (cur_document c) \<noteq> command_document_id cmd then Err e' else Ok ())) = Ok ()" for e'
    using wl by (auto simp: well_loaded_def split: option.splits)
  consider (exhausted) "?exp = MAX_SAFE_REVISION"
    | (arm) "?exp \<noteq> MAX_SAFE_REVISION" "\<not> arm_admissible cur cmd ctx"
    | (catalog) "?exp \<noteq> MAX_SAFE_REVISION" "arm_admissible cur cmd ctx" by blast
  then show ?thesis
  proof cases
    case exhausted
    then have "e = RevisionExhausted" using rej by (simp add: rejection_def)
    with exhausted show ?thesis
      by (simp add: reduce_document_def pre loaded next_revision_Err Let_def)
  next
    case arm
    have exp: "unat ?exp < 9007199254740991"
      using wl arm(1) by (simp add: well_loaded_def command_validate_Ok safe_max_iff)
    then have "next_revision ?exp = Ok (?exp + 1)" by (simp add: next_revision_Ok)
    with arm show ?thesis
      by (simp add: reduce_document_def pre loaded Let_def reduce_request_rejected [OF wl rej])
  next
    case catalog
    have exp: "unat ?exp < 9007199254740991"
      using wl catalog(1) by (simp add: well_loaded_def command_validate_Ok safe_max_iff)
    then have nxt: "next_revision ?exp = Ok (?exp + 1)" by (simp add: next_revision_Ok)
    have row: "current_document_validate U ?row = Ok ()"
      using wl by (intro arm_admissible_row [OF pre(2) exp catalog(2)]) (auto simp: well_loaded_def)
    have arm: "reduce_request U cur cmd ctx (?exp + 1) = Ok (cur_document ?row, cur_revision ?row)"
      using catalog row by (simp add: reduce_request_Ok current_document_validate_Ok)
    have new: "current_document_new U (cur_document ?row) (cur_revision ?row) = Ok ?row"
      using row by (simp add: current_document_validate_Ok current_document_new_Ok)
    show ?thesis
      using next_catalog_exhausted [OF wl rej catalog(2,1)]
      by (simp add: reduce_document_def pre loaded Let_def nxt arm new)
  qed
qed

text \<open>
  C1.  The reducer commits exactly the admissible commands, and the transition
  it returns is the abstract commit: the catalog advanced by one revision with
  its active count adjusted, the next row and immutable revision of the target,
  the receipt, and the projection plan, all re-validated without loss.
\<close>

theorem reduce_document_refines:
  "reduce_document U catalog current command context = Ok transition \<longleftrightarrow>
     admissible U catalog current command context
     \<and> transition = commit_of catalog current command context"
  using reduce_document_admissible reduce_document_Ok_admissible by fastforce

end
