(* ===== verification/Uuid_Layout.thy ===== *)
theory Uuid_Layout
  imports CF_Prelude
begin

unbundle bit_operations_syntax

text \<open>
  A concrete instance of the \<open>uuid\<close> parameter with the RFC 4122 layout: sixteen
  big-endian bytes, the version in the high half of byte 6, the variant in the
  leading bits of byte 8, and the lower-case hyphenated text.  The witnesses
  evaluate the model with it; no property depends on it.
\<close>

definition layout_version :: "uuid \<Rightarrow> nat" where
  "layout_version u = unat (drop_bit 76 u AND 15)"

definition layout_variant :: "uuid \<Rightarrow> uuid_variant" where
  "layout_variant u =
     (let v = drop_bit 61 u AND 7 in
      if v < 4 then NCS else if v < 6 then RFC4122 else if v = 6 then Microsoft else Future)"

definition layout_bytes :: "uuid \<Rightarrow> u8 list" where
  "layout_bytes u = map (\<lambda>i. ucast (drop_bit (8 * i) u)) (rev [0..<16])"

definition hex_digit :: "nat \<Rightarrow> char" where
  "hex_digit n = char_of (if n < 10 then 48 + n else 87 + n)"

definition hex_byte :: "u8 \<Rightarrow> string" where
  "hex_byte b = [hex_digit (unat b div 16), hex_digit (unat b mod 16)]"

definition layout_display :: "uuid \<Rightarrow> string" where
  "layout_display u =
     (let h = (\<lambda>i n. concat (map hex_byte (take n (drop i (layout_bytes u))))) in
      h 0 4 @ ''-'' @ h 4 2 @ ''-'' @ h 6 2 @ ''-'' @ h 8 2 @ ''-'' @ h 10 6)"

definition rfc4122 :: uuid_api where
  "rfc4122 = \<lparr>is_nil = (\<lambda>u. u = 0), get_version_num = layout_version, get_variant = layout_variant,
     as_bytes = layout_bytes, uuid_display = layout_display\<rparr>"

lemma rfc4122_sel [simp]:
  "is_nil rfc4122 = (\<lambda>u. u = 0)" "get_version_num rfc4122 = layout_version"
  "get_variant rfc4122 = layout_variant" "as_bytes rfc4122 = layout_bytes"
  "uuid_display rfc4122 = layout_display"
  by (simp_all add: rfc4122_def)

lemma length_layout_bytes [simp]: "length (layout_bytes u) = 16"
  by (simp add: layout_bytes_def)

lemma layout_bytes_nth: "i < 16 \<Longrightarrow> layout_bytes u ! i = ucast (drop_bit (8 * (15 - i)) u)"
  by (simp add: layout_bytes_def rev_nth)

lemma layout_bytes_inj: "inj layout_bytes"
proof (rule injI)
  fix u v :: uuid
  assume eq: "layout_bytes u = layout_bytes v"
  show "u = v"
  proof (rule bit_word_eqI)
    fix n assume n: "n < LENGTH(128)"
    let ?i = "15 - n div 8"
    have "?i < 16" "8 * (15 - ?i) + n mod 8 = n" "n mod 8 < 8" using n by auto
    moreover have "bit (layout_bytes u ! ?i) (n mod 8) = bit (layout_bytes v ! ?i) (n mod 8)"
      using eq by simp
    ultimately show "bit u n = bit v n"
      by (simp only: layout_bytes_nth) (simp add: bit_unsigned_iff bit_drop_bit_eq)
  qed
qed

lemma rfc4122_bytes_ok: "uuid_bytes_ok rfc4122"
  by (simp add: uuid_bytes_ok_def layout_bytes_inj)

text \<open>Two version-4 identifiers the witnesses use.\<close>

definition id_a :: uuid where "id_a = 0x11111111111141118111111111111111"
definition id_b :: uuid where "id_b = 0x22222222222242228222222222222222"

lemma id_ab_simps [simp]: "id_a \<noteq> 0" "id_b \<noteq> 0" "id_a \<noteq> id_b" "id_b \<noteq> id_a"
  by (simp_all add: id_a_def id_b_def)

lemma is_uuid_v4_ab [simp]: "is_uuid_v4 rfc4122 id_a" "is_uuid_v4 rfc4122 id_b"
  by (simp_all add: is_uuid_v4_def layout_version_def layout_variant_def id_a_def id_b_def)

end
