(* ===== verification/Document_Store.thy ===== *)
theory Document_Store
  imports Document_Reducer Uuid_Layout
begin

text \<open>
  A community's documents under the reducer's calling convention
  (\<open>reducer.rs\<close>: the caller loads the catalog and the exact current revision of
  the command's target under one lock, and commits the whole transition).  The
  store is the catalog, the current row of every identity ever allocated, and
  the append-only list of immutable revisions.
\<close>

record document_store =
  st_catalog :: document_catalog
  st_rows :: "uuid \<rightharpoonup> current_document"
  st_history :: "document_revision list"

type_synonym document_event = "project_document_command \<times> document_change_context"

definition store_commit :: "document_store \<Rightarrow> document_transition \<Rightarrow> document_store" where
  "store_commit s t =
     \<lparr>st_catalog = tr_catalog t,
      st_rows = (st_rows s)(doc_document_id (cur_document (tr_current t)) \<mapsto> tr_current t),
      st_history = st_history s @ [cur_revision (tr_current t)]\<rparr>"

definition document_step ::
  "uuid_api \<Rightarrow> document_store \<Rightarrow> document_event \<Rightarrow> document_store \<Rightarrow> bool" where
  "document_step U s e s' \<longleftrightarrow>
     (\<exists>t. reduce_document U (st_catalog s) (st_rows s (command_document_id (fst e))) (fst e) (snd e) = Ok t
        \<and> s' = store_commit s t)"

definition empty_store :: "document_catalog \<Rightarrow> document_store" where
  "empty_store cat = \<lparr>st_catalog = cat, st_rows = Map.empty, st_history = []\<rparr>"

text \<open>The reachable stores of a community bootstrapped with an empty catalog.\<close>

definition reachable_store :: "uuid_api \<Rightarrow> document_store \<Rightarrow> bool" where
  "reachable_store U s \<longleftrightarrow>
     (\<exists>p g i cat es. catalog_empty U p g i = Ok cat \<and> steps (document_step U) (empty_store cat) es s)"

definition active_ids :: "document_store \<Rightarrow> uuid set" where
  "active_ids s = {i. \<exists>c. st_rows s i = Some c \<and> doc_state (cur_document c) = Active}"

definition revisions_of :: "document_store \<Rightarrow> uuid \<Rightarrow> document_revision list" where
  "revisions_of s i = filter (\<lambda>r. rev_document_id r = i) (st_history s)"

text \<open>The store invariant.\<close>

definition row_inv :: "uuid_api \<Rightarrow> document_store \<Rightarrow> uuid \<Rightarrow> bool" where
  "row_inv U s i \<longleftrightarrow>
     (case st_rows s i of
        None \<Rightarrow> revisions_of s i = []
      | Some c \<Rightarrow> current_document_validate U c = Ok () \<and> doc_document_id (cur_document c) = i
          \<and> attr_at (doc_updated (cur_document c)) \<le> cat_updated_at (st_catalog s)
          \<and> map (unat \<circ> rev_document_revision) (revisions_of s i)
              = [1..<Suc (unat (doc_current_revision (cur_document c)))]
          \<and> last (revisions_of s i) = cur_revision c)"

definition store_inv :: "uuid_api \<Rightarrow> document_store \<Rightarrow> bool" where
  "store_inv U s \<longleftrightarrow>
     catalog_validate U (st_catalog s) = Ok () \<and> (\<forall>i. row_inv U s i)
     \<and> finite (dom (st_rows s))
     \<and> unat (cat_active_document_count (st_catalog s)) = card (active_ids s)"


subsection \<open>One step\<close>

lemma document_step_iff:
  "document_step U s (cmd, ctx) s' \<longleftrightarrow>
     admissible U (st_catalog s) (st_rows s (command_document_id cmd)) cmd ctx
     \<and> s' = store_commit s (commit_of (st_catalog s) (st_rows s (command_document_id cmd)) cmd ctx)"
  unfolding document_step_def
  using reduce_document_admissible reduce_document_Ok_admissible by fastforce

lemma commit_of_simps [simp]:
  "tr_catalog (commit_of cat cur cmd ctx) =
     advance_catalog cat (command_operation cmd) (ctx_canonical_at ctx)"
  "tr_current (commit_of cat cur cmd ctx) = next_row cur cmd ctx"
  "tr_receipt (commit_of cat cur cmd ctx) =
     receipt_of (advance_catalog cat (command_operation cmd) (ctx_canonical_at ctx)) cmd ctx"
  by (simp_all add: commit_of_def Let_def)

lemma store_commit_simps [simp]:
  "st_catalog (store_commit s t) = tr_catalog t"
  "st_rows (store_commit s t) = (st_rows s)(doc_document_id (cur_document (tr_current t)) \<mapsto> tr_current t)"
  "st_history (store_commit s t) = st_history s @ [cur_revision (tr_current t)]"
  by (simp_all add: store_commit_def)

lemma revisions_of_commit:
  "revisions_of (store_commit s (commit_of cat cur cmd ctx)) i =
     (if i = command_document_id cmd then revisions_of s i @ [cur_revision (next_row cur cmd ctx)]
      else revisions_of s i)"
  by (simp add: revisions_of_def)

lemma active_ids_commit:
  "active_ids (store_commit s (commit_of cat cur cmd ctx)) =
     (if command_operation cmd = Delete then active_ids s - {command_document_id cmd}
      else insert (command_document_id cmd) (active_ids s))"
  by (auto simp: active_ids_def)

lemma row_inv_step:
  assumes inv: "store_inv U s" and step: "document_step U s (cmd, ctx) s'"
  shows "row_inv U s' i"
proof (cases "i = command_document_id cmd")
  case False
  have "row_inv U s i" using inv by (simp add: store_inv_def)
  moreover have "cat_updated_at (st_catalog s) < ctx_canonical_at ctx"
    using step by (auto simp: document_step_iff admissible_def)
  ultimately show ?thesis
    using False step by (auto simp: document_step_iff row_inv_def revisions_of_commit split: option.splits)
next
  case True
  let ?cur = "st_rows s i" and ?n = "cmd_expected_document_revision cmd"
  have adm: "admissible U (st_catalog s) ?cur cmd ctx"
    and s': "s' = store_commit s (commit_of (st_catalog s) ?cur cmd ctx)"
    using step True by (auto simp: document_step_iff)
  have row: "row_inv U s i" using inv by (simp add: store_inv_def)
  have "map (unat \<circ> rev_document_revision) (revisions_of s i) = [1..<Suc (unat ?n)]"
  proof (cases ?cur)
    case None
    then have "command_operation cmd = Create"
      using adm by (cases "command_operation cmd") (auto simp: admissible_def target_admissible_def)
    then have "?n = 0" using adm by (simp add: admissible_def command_validate_Ok)
    with None row show ?thesis by (simp add: row_inv_def)
  next
    case (Some c)
    then have "doc_current_revision (cur_document c) = ?n"
      using adm by (cases "command_operation cmd") (auto simp: admissible_def target_admissible_def live_target_def)
    with Some row show ?thesis by (simp add: row_inv_def)
  qed
  moreover have "unat (?n + 1) = Suc (unat ?n)"
    using adm by (simp add: admissible_def unat_succ_safe)
  ultimately show ?thesis
    using True admissible_row [OF adm] s' by (simp add: row_inv_def revisions_of_commit)
qed

lemma count_step:
  assumes inv: "store_inv U s" and step: "document_step U s (cmd, ctx) s'"
  shows "unat (cat_active_document_count (st_catalog s')) = card (active_ids s')"
proof -
  let ?i = "command_document_id cmd" and ?oper = "command_operation cmd"
  let ?n = "cat_active_document_count (st_catalog s)"
  have adm: "admissible U (st_catalog s) (st_rows s ?i) cmd ctx"
    and s': "s' = store_commit s (commit_of (st_catalog s) (st_rows s ?i) cmd ctx)"
    using step by (auto simp: document_step_iff)
  have fin: "finite (active_ids s)"
    by (rule finite_subset [of _ "dom (st_rows s)"]) (use inv in \<open>auto simp: active_ids_def store_inv_def\<close>)
  have n: "unat ?n = card (active_ids s)" using inv by (simp add: store_inv_def)
  have pre: "?oper = Create \<longrightarrow> unat ?n < 9007199254740991" "?oper = Delete \<longrightarrow> ?n \<noteq> 0"
    using adm by (auto simp: admissible_def target_admissible_def)
  have mem: "?i \<in> active_ids s \<longleftrightarrow> ?oper \<noteq> Create"
    using adm
    by (cases ?oper) (auto simp: active_ids_def admissible_def target_admissible_def live_target_def)
  have "card (active_ids s') + (if ?oper = Delete then 1 else 0)
      = card (active_ids s) + (if ?oper = Create then 1 else 0)"
    using mem fin card_Suc_Diff1 [OF fin, of ?i]
    by (cases ?oper) (auto simp: s' active_ids_commit insert_absorb)
  then show ?thesis
    using unat_next_count [OF pre] n by (simp add: s' split: if_splits)
qed

lemma store_inv_step:
  assumes "store_inv U s" and "document_step U s e s'"
  shows "store_inv U s'"
proof -
  obtain cmd ctx where e: "e = (cmd, ctx)" by (cases e)
  show ?thesis
    using assms row_inv_step [OF assms(1)] count_step [OF assms(1)] unfolding e
    by (auto simp: store_inv_def document_step_iff admissible_catalog)
qed

lemma store_inv_empty: "catalog_empty U p g i = Ok cat \<Longrightarrow> store_inv U (empty_store cat)"
  by (auto simp: catalog_empty_def catalog_from_snapshot_Ok store_inv_def empty_store_def
      row_inv_def revisions_of_def active_ids_def)

lemma reachable_store_inv: "reachable_store U s \<Longrightarrow> store_inv U s"
  unfolding reachable_store_def
  by (auto intro: steps_invariant [where I = "store_inv U"] store_inv_empty store_inv_step)

subsection \<open>Runs\<close>

lemma store_revision_step:
  assumes "document_step U s e t"
  shows "checked_succ (cat_catalog_revision (st_catalog s)) = Some (cat_catalog_revision (st_catalog t))"
proof -
  obtain cmd ctx where e: "e = (cmd, ctx)" by (cases e)
  show ?thesis
    using assms unfolding e by (auto simp: document_step_iff admissible_def checked_succ_plus_one)
qed

lemma store_time_step:
  assumes "document_step U s e t"
  shows "cat_updated_at (st_catalog s) < cat_updated_at (st_catalog t)"
proof -
  obtain cmd ctx where e: "e = (cmd, ctx)" by (cases e)
  show ?thesis using assms unfolding e by (auto simp: document_step_iff admissible_def)
qed

lemma store_catalog_step: "document_step U s e t \<Longrightarrow> catalog_validate U (st_catalog t) = Ok ()"
  by (cases e) (auto simp: document_step_iff admissible_catalog)

interpretation doc: revisioned "document_step U" "\<lambda>s. cat_catalog_revision (st_catalog s)"
  "\<lambda>s. cat_updated_at (st_catalog s)" "\<lambda>s. catalog_validate U (st_catalog s) = Ok ()" for U
  by unfold_locales (fact store_catalog_step store_revision_step store_time_step)+

text \<open>The events of a run that target one document.\<close>

definition events_on :: "uuid \<Rightarrow> document_event list \<Rightarrow> document_event list" where
  "events_on i es = filter (\<lambda>e. command_document_id (fst e) = i) es"

lemma events_on_simps [simp]:
  "events_on i [] = []"
  "events_on i (es @ [e]) = events_on i es @ (if command_document_id (fst e) = i then [e] else [])"
  by (simp_all add: events_on_def)

lemma document_step_row:
  assumes "document_step U s e t" and "st_rows s i = Some c"
  shows "if command_document_id (fst e) = i
         then doc_state (cur_document c) = Active
           \<and> (\<exists>c'. st_rows t i = Some c' \<and> doc_created (cur_document c') = doc_created (cur_document c)
             \<and> unat (doc_current_revision (cur_document c')) = unat (doc_current_revision (cur_document c)) + 1)
         else st_rows t i = Some c"
proof -
  obtain cmd ctx where e: "e = (cmd, ctx)" by (cases e)
  show ?thesis
    using assms unfolding e
    by (cases "command_operation cmd")
      (auto simp: document_step_iff admissible_def target_admissible_def live_target_def unat_succ_safe)
qed

lemma run_row:
  assumes "steps (document_step U) s es t" and "st_rows s i = Some c"
  shows "\<exists>c'. st_rows t i = Some c' \<and> doc_created (cur_document c') = doc_created (cur_document c)
     \<and> unat (doc_current_revision (cur_document c'))
         = unat (doc_current_revision (cur_document c)) + length (events_on i es)"
  using assms
proof (induction rule: steps.induct)
  case (steps_snoc s es t e u)
  then obtain c' where c': "st_rows t i = Some c'"
      "doc_created (cur_document c') = doc_created (cur_document c)"
      "unat (doc_current_revision (cur_document c'))
         = unat (doc_current_revision (cur_document c)) + length (events_on i es)"
    by blast
  with document_step_row [OF steps_snoc.hyps(2) c'(1)] show ?case by (auto split: if_splits)
qed simp

lemma run_deleted:
  assumes "steps (document_step U) s es t" and "st_rows s i = Some c"
    and "doc_state (cur_document c) = Deleted"
  shows "st_rows t i = Some c \<and> events_on i es = [] \<and> revisions_of t i = revisions_of s i"
  using assms
proof (induction rule: steps.induct)
  case (steps_snoc s es t e u)
  then have t: "st_rows t i = Some c" "events_on i es = []" "revisions_of t i = revisions_of s i" by auto
  obtain cmd ctx where e: "e = (cmd, ctx)" by (cases e)
  have "command_document_id (fst e) \<noteq> i"
    using document_step_row [OF steps_snoc.hyps(2) t(1)] steps_snoc.prems by (auto split: if_splits)
  with document_step_row [OF steps_snoc.hyps(2) t(1)] t steps_snoc.hyps(2) show ?case
    unfolding e by (auto simp: document_step_iff revisions_of_commit)
qed simp

lemma reachable_steps: "reachable_store U s \<Longrightarrow> steps (document_step U) s es t \<Longrightarrow> reachable_store U t"
  unfolding reachable_store_def by (meson steps_trans)

lemma document_run_single: "document_step U s e t \<Longrightarrow> steps (document_step U) s [e] t"
  by (rule steps_single)

lemma reachable_well_loaded:
  assumes "reachable_store U s" and "command_validate_for_submission U cmd = Ok ()"
    and "cat_updated_at (st_catalog s) < ctx_canonical_at ctx"
  shows "well_loaded U (st_catalog s) (st_rows s (command_document_id cmd)) cmd ctx"
proof -
  let ?i = "command_document_id cmd"
  have inv: "store_inv U s" using assms(1) by (rule reachable_store_inv)
  then have fin: "finite (active_ids s)"
    by (auto simp: store_inv_def active_ids_def intro: finite_subset [of _ "dom (st_rows s)"])
  have "cat_active_document_count (st_catalog s) \<noteq> 0"
    if "st_rows s ?i = Some c" "doc_state (cur_document c) = Active" for c
  proof -
    have "?i \<in> active_ids s" using that by (simp add: active_ids_def)
    with fin have "card (active_ids s) \<noteq> 0" by auto
    with inv show ?thesis by (auto simp: store_inv_def)
  qed
  moreover have "row_inv U s ?i" "catalog_validate U (st_catalog s) = Ok ()"
    using inv by (simp_all add: store_inv_def)
  ultimately show ?thesis
    using assms(2,3) by (auto simp: well_loaded_def row_inv_def)
qed

lemma reachable_outcome:
  assumes "reachable_store U s" and "command_validate_for_submission U cmd = Ok ()"
    and "cat_updated_at (st_catalog s) < ctx_canonical_at ctx"
    and cur: "cur = st_rows s (command_document_id cmd)"
  shows "reduce_document U (st_catalog s) cur cmd ctx =
    (case rejection (st_catalog s) cur cmd ctx of
       Some e \<Rightarrow> Err e | None \<Rightarrow> Ok (commit_of (st_catalog s) cur cmd ctx))"
proof -
  have wl: "well_loaded U (st_catalog s) cur cmd ctx"
    using reachable_well_loaded [OF assms(1-3)] cur by simp
  show ?thesis
    using rejection_None [OF wl] reduce_document_rejected [OF wl] reduce_document_admissible
    by (auto split: option.splits)
qed

lemma run_stale:
  assumes "document_step U s (cmd, ctx) s'" and "steps (document_step U) s' es t"
  shows "\<exists>c. st_rows t (command_document_id cmd) = Some c
    \<and> unat (cmd_expected_document_revision cmd) < unat (doc_current_revision (cur_document c))"
proof -
  have "st_rows s' (command_document_id cmd) = Some (next_row (st_rows s (command_document_id cmd)) cmd ctx)"
      "unat (cmd_expected_document_revision cmd) < 9007199254740991"
    using assms(1) by (auto simp: document_step_iff admissible_def)
  with run_row [OF assms(2)] show ?thesis by (fastforce simp: unat_succ_safe)
qed

definition commit_event :: "document_store \<Rightarrow> document_event \<Rightarrow> document_store" where
  "commit_event s e = store_commit s
     (commit_of (st_catalog s) (st_rows s (command_document_id (fst e))) (fst e) (snd e))"

lemma reachable_commit_event:
  assumes "reachable_store U s" and "command_validate_for_submission U (fst e) = Ok ()"
    and "cat_updated_at (st_catalog s) < ctx_canonical_at (snd e)"
    and "rejection (st_catalog s) (st_rows s (command_document_id (fst e))) (fst e) (snd e) = None"
  shows "document_step U s e (commit_event s e)"
  using reachable_outcome [OF assms(1-3) refl] assms(4)
  by (simp add: document_step_def commit_event_def)


subsection \<open>A concrete run\<close>

definition demo_catalog :: document_catalog where
  "demo_catalog = \<lparr>cat_project_id = id_b, cat_catalog_revision = 0, cat_active_document_count = 0,
     cat_projection_generation = 1, cat_initialized_at = 0, cat_updated_at = 0\<rparr>"

definition demo_context :: "timestamp \<Rightarrow> document_change_context" where
  "demo_context at = \<lparr>ctx_actor = 7, ctx_change_id = 11, ctx_canonical_at = at, ctx_deletion_blocked = False\<rparr>"

definition demo_create :: document_event where
  "demo_create = (command_new 0 (CreateRequest id_a [65] None [66]), demo_context 1)"

definition demo_update :: document_event where
  "demo_update = (command_new 1 (UpdateRequest id_a [65] (Some [67]) [68]), demo_context 2)"

definition demo_delete :: document_event where
  "demo_delete = (command_new 2 (DeleteRequest id_a), demo_context 3)"

definition demo_created :: document_store where
  "demo_created = commit_event (empty_store demo_catalog) demo_create"

definition demo_updated :: document_store where
  "demo_updated = commit_event demo_created demo_update"

definition demo_deleted :: document_store where
  "demo_deleted = commit_event demo_updated demo_delete"

lemmas demo_defs = commit_event_def demo_catalog_def demo_context_def demo_create_def demo_update_def
  demo_delete_def empty_store_def command_new_def

lemma demo_ids [simp]:
  "command_document_id (fst demo_create) = id_a" "command_document_id (fst demo_update) = id_a"
  "command_document_id (fst demo_delete) = id_a"
  by (simp_all add: demo_create_def demo_update_def demo_delete_def command_new_def command_document_id_def)

lemma demo_commands_valid [simp]:
  "command_validate_for_submission rfc4122 (fst demo_create) = Ok ()"
  "command_validate_for_submission rfc4122 (fst demo_update) = Ok ()"
  "command_validate_for_submission rfc4122 (fst demo_delete) = Ok ()"
  by (simp_all add: command_validate_Ok demo_defs request_validate_Ok snapshot_validate_Ok
      snapshot_ok_def trim_eq_self_iff is_whitespace_def utf8_len_def utf8_char_len_def
      managed_claim_ok_def command_operation_def PROJECT_DOCUMENT_SCHEMA_VERSION_def safe_range)

lemma demo_catalog_empty: "catalog_empty rfc4122 id_b 1 0 = Ok demo_catalog"
  by (simp add: catalog_empty_def catalog_from_snapshot_Ok demo_catalog_def catalog_validate_Ok safe_range)

lemma demo_reachable_empty: "reachable_store rfc4122 (empty_store demo_catalog)"
  unfolding reachable_store_def by (intro exI conjI, rule demo_catalog_empty, rule steps_Nil)

lemma demo_step_create: "document_step rfc4122 (empty_store demo_catalog) demo_create demo_created"
  unfolding demo_created_def
  by (rule reachable_commit_event [OF demo_reachable_empty demo_commands_valid(1)])
    (simp_all add: demo_defs rejection_def Let_def command_operation_def MAX_SAFE_REVISION_def)

lemma demo_reachable_created: "reachable_store rfc4122 demo_created"
  by (rule reachable_steps [OF demo_reachable_empty document_run_single [OF demo_step_create]])

lemma demo_step_update: "document_step rfc4122 demo_created demo_update demo_updated"
  unfolding demo_updated_def
  by (rule reachable_commit_event [OF demo_reachable_created demo_commands_valid(2)])
    (simp_all add: demo_defs demo_created_def rejection_def Let_def command_operation_def
      MAX_SAFE_REVISION_def command_document_id_def)

lemma demo_reachable_updated: "reachable_store rfc4122 demo_updated"
  by (rule reachable_steps [OF demo_reachable_created document_run_single [OF demo_step_update]])

lemma demo_step_delete: "document_step rfc4122 demo_updated demo_delete demo_deleted"
  unfolding demo_deleted_def
  by (rule reachable_commit_event [OF demo_reachable_updated demo_commands_valid(3)])
    (simp_all add: demo_defs demo_created_def demo_updated_def rejection_def Let_def command_operation_def
      MAX_SAFE_REVISION_def command_document_id_def)

lemma demo_run: "steps (document_step rfc4122) (empty_store demo_catalog) [demo_create, demo_update, demo_delete] demo_deleted"
  using steps_trans [OF steps_trans [OF document_run_single [OF demo_step_create] document_run_single [OF demo_step_update]]
      document_run_single [OF demo_step_delete]] by simp


subsection \<open>Properties\<close>

text \<open>
  C3.  Every outcome of a submitted command is known in advance.  On a store
  reached from an empty catalog, a command that passes submission and whose
  canonical time is later than the catalog is either refused for the first
  applicable reason of \<open>rejection\<close> or committed; the internal errors of the
  reducer (an invalid canonical state, an invalid projection) never occur.
\<close>

theorem document_outcome:
  assumes "reachable_store U s" and "command_validate_for_submission U cmd = Ok ()"
    and "cat_updated_at (st_catalog s) < ctx_canonical_at ctx"
  shows "reduce_document U (st_catalog s) (st_rows s (command_document_id cmd)) cmd ctx =
    (case rejection (st_catalog s) (st_rows s (command_document_id cmd)) cmd ctx of
       Some e \<Rightarrow> Err e
     | None \<Rightarrow> Ok (commit_of (st_catalog s) (st_rows s (command_document_id cmd)) cmd ctx))"
  using assms by (intro reachable_outcome) simp_all

text \<open>The second update of the same base revision is refused as a conflict.\<close>

theorem document_outcome_witness:
  "reduce_document rfc4122 (st_catalog demo_updated) (st_rows demo_updated id_a) (fst demo_update)
     (demo_context 9) = Err (RevisionConflict 1 (Some 2))"
  using document_outcome [OF demo_reachable_updated demo_commands_valid(2), of "demo_context 9"]
  by (simp add: demo_updated_def demo_created_def demo_defs rejection_def Let_def
      command_operation_def command_document_id_def MAX_SAFE_REVISION_def)

text \<open>
  C5.  On every reachable store the catalog is valid and counts exactly the
  active documents; each row is valid, sits under its own identity, and names
  the last of its immutable revisions, which are numbered 1, 2, ... without a
  gap; and an identity without a row has no revision.
\<close>

theorem reachable_store_consistent:
  assumes "reachable_store U s"
  shows "catalog_validate U (st_catalog s) = Ok ()
    \<and> unat (cat_active_document_count (st_catalog s)) = card (active_ids s)
    \<and> (\<forall>i. case st_rows s i of
          None \<Rightarrow> revisions_of s i = []
        | Some c \<Rightarrow> current_document_validate U c = Ok () \<and> doc_document_id (cur_document c) = i
            \<and> map (unat \<circ> rev_document_revision) (revisions_of s i)
                = [1..<Suc (unat (doc_current_revision (cur_document c)))]
            \<and> last (revisions_of s i) = cur_revision c)"
proof (intro conjI allI)
  fix i
  have "row_inv U s i" using reachable_store_inv [OF assms] by (simp add: store_inv_def)
  then show "case st_rows s i of
      None \<Rightarrow> revisions_of s i = []
    | Some c \<Rightarrow> current_document_validate U c = Ok () \<and> doc_document_id (cur_document c) = i
        \<and> map (unat \<circ> rev_document_revision) (revisions_of s i)
            = [1..<Suc (unat (doc_current_revision (cur_document c)))]
        \<and> last (revisions_of s i) = cur_revision c"
    by (cases "st_rows s i") (simp_all add: row_inv_def del: upt_Suc)
qed (use reachable_store_inv [OF assms] in \<open>simp_all add: store_inv_def\<close>)

theorem reachable_store_consistent_witness:
  "unat (cat_active_document_count (st_catalog demo_updated)) = card (active_ids demo_updated)
   \<and> cat_active_document_count (st_catalog demo_updated) = 1"
  using reachable_store_consistent [OF demo_reachable_updated]
  by (simp add: demo_updated_def demo_created_def demo_defs next_count_def command_operation_def)

text \<open>
  Along a run a document keeps its creation attribution, and its current
  revision advances by exactly the number of accepted commands that target it.
\<close>

theorem document_revision_counts_commands:
  assumes "steps (document_step U) s es t" and "st_rows s i = Some c"
  shows "\<exists>c'. st_rows t i = Some c' \<and> doc_created (cur_document c') = doc_created (cur_document c)
     \<and> unat (doc_current_revision (cur_document c'))
         = unat (doc_current_revision (cur_document c)) + length (events_on i es)"
  using assms by (rule run_row)

theorem document_revision_counts_commands_witness:
  "\<exists>c'. st_rows demo_updated id_a = Some c' \<and> unat (doc_current_revision (cur_document c')) = 2"
proof -
  have "st_rows demo_created id_a = Some (next_row None (fst demo_create) (demo_context 1))"
    by (simp add: demo_created_def commit_event_def) (simp add: demo_defs)
  from document_revision_counts_commands [OF document_run_single [OF demo_step_update] this]
  show ?thesis by (auto simp: events_on_def demo_create_def command_new_def)
qed

text \<open>
  C10.  A deleted document is a permanent tombstone: no later command of any run
  touches its row or its history, and its identity is never allocated again.
\<close>

theorem tombstone_permanent:
  assumes "steps (document_step U) s es t" and "st_rows s i = Some c"
    and "doc_state (cur_document c) = Deleted"
  shows "st_rows t i = Some c \<and> events_on i es = [] \<and> revisions_of t i = revisions_of s i"
  using assms by (rule run_deleted)

theorem tombstone_permanent_witness:
  "\<exists>c. st_rows demo_deleted id_a = Some c \<and> doc_state (cur_document c) = Deleted
     \<and> (\<forall>es t. steps (document_step rfc4122) demo_deleted es t \<longrightarrow> st_rows t id_a = Some c)"
proof -
  let ?c = "next_row (st_rows demo_updated id_a) (fst demo_delete) (snd demo_delete)"
  have "st_rows demo_deleted id_a = Some ?c" "doc_state (cur_document ?c) = Deleted"
    by (simp_all add: demo_deleted_def commit_event_def)
      (simp add: demo_delete_def command_new_def command_operation_def)
  with tombstone_permanent [where U = rfc4122 and s = demo_deleted] show ?thesis by blast
qed

text \<open>
  C8.  No update is lost.  Once a command has committed a revision of a
  document, every update or delete submitted later on the same or an older base
  revision is refused as a conflict that reports the current revision.
\<close>

theorem no_lost_update:
  assumes "reachable_store U s" and "document_step U s (cmd, ctx) s'"
    and "steps (document_step U) s' es t"
    and "command_document_id cmd2 = command_document_id cmd" and "command_operation cmd2 \<noteq> Create"
    and "cmd_expected_document_revision cmd2 \<le> cmd_expected_document_revision cmd"
    and "command_validate_for_submission U cmd2 = Ok ()"
    and "cat_updated_at (st_catalog t) < ctx_canonical_at ctx2"
  shows "\<exists>actual. cmd_expected_document_revision cmd2 < actual
    \<and> reduce_document U (st_catalog t) (st_rows t (command_document_id cmd2)) cmd2 ctx2
        = Err (RevisionConflict (cmd_expected_document_revision cmd2) (Some actual))"
proof -
  obtain c where c: "st_rows t (command_document_id cmd2) = Some c"
      "cmd_expected_document_revision cmd2 < doc_current_revision (cur_document c)"
    using run_stale [OF assms(2,3)] assms(4,6) by (force simp: word_less_nat_alt word_le_nat_alt)
  have "reachable_store U t"
    using assms(1-3) by (blast intro: reachable_steps document_run_single)
  note outcome = reachable_outcome [OF this assms(7,8) c(1) [symmetric]]
  have "cmd_expected_document_revision cmd2 \<noteq> MAX_SAFE_REVISION"
    using assms(2,6) by (auto simp: document_step_iff admissible_def word_le_nat_alt)
  with c assms(5) outcome show ?thesis by (auto simp: rejection_def Let_def)
qed

theorem no_lost_update_witness:
  "\<exists>actual. 1 < actual \<and> reduce_document rfc4122 (st_catalog demo_updated) (st_rows demo_updated id_a)
     (fst demo_update) (demo_context 9) = Err (RevisionConflict 1 (Some actual))"
proof -
  have "cat_updated_at (st_catalog demo_updated) = 2"
    by (simp add: demo_updated_def demo_defs)
  then show ?thesis
    using no_lost_update [OF demo_reachable_created demo_step_update [unfolded demo_update_def] steps_Nil,
        of "fst demo_update" "demo_context 9"]
    by (simp add: demo_update_def command_new_def command_operation_def command_document_id_def
        demo_context_def demo_commands_valid(2) [unfolded demo_update_def command_new_def fst_conv])
qed

text \<open>
  The catalog revision is the number of accepted commands since bootstrap,
  so it never wraps and no run is longer than the safe range; canonical time
  moves forward at every command; and every intermediate catalog is valid.
\<close>

theorem catalog_revision_counts_commands:
  assumes "catalog_empty U p g i = Ok cat" and "steps (document_step U) (empty_store cat) es s"
  shows "unat (cat_catalog_revision (st_catalog s)) = length es \<and> length es \<le> 9007199254740991
    \<and> i + int (length es) \<le> cat_updated_at (st_catalog s) \<and> catalog_validate U (st_catalog s) = Ok ()"
  using doc.steps_revision [OF assms(2)] doc.steps_length [OF assms(2)] doc.steps_time [OF assms(2)]
    doc.steps_wf [OF assms(2)] assms(1)
  by (auto simp: empty_store_def catalog_empty_def catalog_from_snapshot_Ok)

theorem catalog_revision_counts_commands_witness:
  "unat (cat_catalog_revision (st_catalog demo_deleted)) = 3"
  using catalog_revision_counts_commands [OF demo_catalog_empty demo_run] by simp

end
