(* ===== verification/Ordered_Map.thy ===== *)
theory Ordered_Map
  imports CF_Prelude
begin

text \<open>
  Ordered maps as the sources use them.  A \<open>BTreeMap\<close> is its entries in key order;
  the order is a comparison function, and the laws of the map are proved for every
  total order.  UUIDs are ordered by their bytes.
\<close>

section \<open>Maps in key order\<close>

fun om_insert :: "('k \<Rightarrow> 'k \<Rightarrow> ordering) \<Rightarrow> 'k \<Rightarrow> 'v \<Rightarrow> ('k \<times> 'v) list \<Rightarrow> ('k \<times> 'v) list" where
  "om_insert cmp k v [] = [(k, v)]"
| "om_insert cmp k v ((k', v') # m) =
     (case cmp k k' of
        Less \<Rightarrow> (k, v) # (k', v') # m
      | Equal \<Rightarrow> (k, v) # m
      | Greater \<Rightarrow> (k', v') # om_insert cmp k v m)"

definition om_ok :: "('k \<Rightarrow> 'k \<Rightarrow> ordering) \<Rightarrow> ('k \<times> 'v) list \<Rightarrow> bool" where
  "om_ok cmp m \<longleftrightarrow> sorted_wrt (\<lambda>a b. cmp a b = Less) (map fst m)"

lemma om_ok_Nil [simp]: "om_ok cmp []"
  by (simp add: om_ok_def)

lemma om_ok_Cons: "om_ok cmp ((k, v) # m) \<longleftrightarrow> (\<forall>a\<in>fst ` set m. cmp k a = Less) \<and> om_ok cmp m"
  by (auto simp: om_ok_def)

context total_comparison
begin

lemma Less_irrefl: "cmp x x \<noteq> Less"
  by (simp add: refl)

lemma Less_trans: "cmp x y = Less \<Longrightarrow> cmp y z = Less \<Longrightarrow> cmp x z = Less"
proof -
  assume xy: "cmp x y = Less" and yz: "cmp y z = Less"
  have "cmp x z \<noteq> Greater" using trans [of x y z] xy yz by simp
  moreover have "cmp x z \<noteq> Equal"
  proof
    assume "cmp x z = Equal"
    then have "cmp y x = Less" using eq yz by blast
    then have "cmp x y = Greater" using sym [of y x] by simp
    with xy show False by simp
  qed
  ultimately show ?thesis by (cases "cmp x z") simp_all
qed

lemma om_distinct: "om_ok cmp m \<Longrightarrow> distinct (map fst m)"
proof (induction m)
  case (Cons e m)
  then show ?case by (cases e) (auto simp: om_ok_Cons refl)
qed simp

lemma fst_om_insert: "fst ` set (om_insert cmp k v m) = insert k (fst ` set m)"
proof (induction m)
  case (Cons e m)
  obtain k' v' where "e = (k', v')" by (cases e)
  then show ?case using Cons eq [of k k'] by (cases "cmp k k'") auto
qed simp

lemma om_ok_insert: "om_ok cmp m \<Longrightarrow> om_ok cmp (om_insert cmp k v m)"
proof (induction m)
  case (Cons e m)
  obtain k' v' where e: "e = (k', v')" by (cases e)
  show ?case
  proof (cases "cmp k k'")
    case Less
    then show ?thesis using Cons.prems by (auto simp: e om_ok_Cons intro: Less_trans)
  next
    case Equal
    then show ?thesis using Cons.prems eq [of k k'] by (auto simp: e om_ok_Cons)
  next
    case Greater
    then have "cmp k' k = Less" using sym by simp
    then show ?thesis using Cons Greater by (auto simp: e om_ok_Cons fst_om_insert)
  qed
qed (simp add: om_ok_Cons)

lemma map_of_om_insert: "om_ok cmp m \<Longrightarrow> map_of (om_insert cmp k v m) = (map_of m)(k \<mapsto> v)"
proof (induction m)
  case (Cons e m)
  obtain k' v' where e: "e = (k', v')" by (cases e)
  show ?case
  proof (cases "cmp k k'")
    case Greater
    then have "k \<noteq> k'" using refl by auto
    then show ?thesis using Cons Greater by (auto simp: e om_ok_Cons)
  qed (use eq [of k k'] in \<open>auto simp: e fun_eq_iff\<close>)
qed simp

text \<open>A map in key order is determined by what it contains.\<close>

lemma om_ok_unique: "om_ok cmp m \<Longrightarrow> om_ok cmp n \<Longrightarrow> map_of m = map_of n \<Longrightarrow> m = n"
proof (induction m arbitrary: n)
  case Nil
  then show ?case by simp
next
  case (Cons e m)
  obtain k v where e: "e = (k, v)" by (cases e)
  have "n \<noteq> []" using fun_cong [OF Cons.prems(3), of k] by (auto simp: e)
  then obtain k' v' n' where n: "n = (k', v') # n'" by (cases n) auto
  have keys: "insert k (fst ` set m) = insert k' (fst ` set n')"
    using arg_cong [OF Cons.prems(3), of dom] unfolding dom_map_of_conv_image_fst by (simp add: e n)
  have "k = k'"
  proof (rule ccontr)
    assume "k \<noteq> k'"
    then have "k' \<in> fst ` set m" "k \<in> fst ` set n'" using keys by (metis insertE insertI1)+
    then have "cmp k k' = Less" "cmp k' k = Less" using Cons.prems(1,2) by (auto simp: e n om_ok_Cons)
    then show False using sym [of k k'] by simp
  qed
  moreover from this have "v = v'" using fun_cong [OF Cons.prems(3), of k] by (simp add: e n)
  moreover have "k \<notin> fst ` set m" "k' \<notin> fst ` set n'" using Cons.prems(1,2) by (auto simp: e n om_ok_Cons refl)
  then have "map_of m k = None" "map_of n' k = None" using \<open>k = k'\<close> by (simp_all add: map_of_eq_None_iff)
  then have "map_of m a = map_of n' a" for a
    using fun_cong [OF Cons.prems(3), of a] \<open>k = k'\<close> by (cases "a = k") (simp_all add: e n)
  then have "map_of m = map_of n'" by (rule ext)
  then have "m = n'" using Cons.IH [of n'] Cons.prems(1,2) unfolding e n om_ok_Cons by blast
  ultimately show ?case by (simp add: e n)
qed

end


section \<open>The order of UUIDs\<close>

definition uuid_cmp :: "uuid_api \<Rightarrow> uuid \<Rightarrow> uuid \<Rightarrow> ordering" where
  "uuid_cmp U a b = cmp_of (as_bytes U a) (as_bytes U b)"

lemma uuid_comparison: "comparison (uuid_cmp U)"
  using comparison_key [of "as_bytes U"] by (simp add: uuid_cmp_def [abs_def])

interpretation ids: comparison "uuid_cmp U" for U
  by (rule uuid_comparison)

lemma uuid_total: "uuid_bytes_ok U \<Longrightarrow> total_comparison (uuid_cmp U)"
  using total_comparison_key [of "as_bytes U"] by (simp add: uuid_cmp_def [abs_def] uuid_bytes_ok_def)

end
