(* ===== verification/View_Vocabulary.thy ===== *)
theory View_Vocabulary
  imports Ordered_Map
begin

text \<open>
  The closed vocabularies of Project View, from \<open>buzz-project-view/src/model.rs\<close>, with
  their wire spellings.
\<close>

datatype project_view_object_type =
  ProjectProfile | Goal | Role | Plan | Stage | Requirement | Issue | Work | Resource

fun object_type_str :: "project_view_object_type \<Rightarrow> string" where
  "object_type_str ProjectProfile = ''project_profile''"
| "object_type_str Goal = ''goal''"
| "object_type_str Role = ''role''"
| "object_type_str Plan = ''plan''"
| "object_type_str Stage = ''stage''"
| "object_type_str Requirement = ''requirement''"
| "object_type_str Issue = ''issue''"
| "object_type_str Work = ''work''"
| "object_type_str Resource = ''resource''"

datatype priority = LowPriority | NormalPriority | HighPriority | UrgentPriority

fun priority_str :: "priority \<Rightarrow> string" where
  "priority_str LowPriority = ''low''"
| "priority_str NormalPriority = ''normal''"
| "priority_str HighPriority = ''high''"
| "priority_str UrgentPriority = ''urgent''"

datatype plan_status = PlanDraft | PlanActive | PlanPaused | PlanCompleted | PlanCancelled

fun plan_status_str :: "plan_status \<Rightarrow> string" where
  "plan_status_str PlanDraft = ''draft''"
| "plan_status_str PlanActive = ''active''"
| "plan_status_str PlanPaused = ''paused''"
| "plan_status_str PlanCompleted = ''completed''"
| "plan_status_str PlanCancelled = ''cancelled''"

datatype stage_status = StagePlanned | StageActive | StagePaused | StageCompleted | StageCancelled

fun stage_status_str :: "stage_status \<Rightarrow> string" where
  "stage_status_str StagePlanned = ''planned''"
| "stage_status_str StageActive = ''active''"
| "stage_status_str StagePaused = ''paused''"
| "stage_status_str StageCompleted = ''completed''"
| "stage_status_str StageCancelled = ''cancelled''"

datatype requirement_status = RequirementProposed | RequirementReady | RequirementInProgress | RequirementSatisfied | RequirementWithdrawn

fun requirement_status_str :: "requirement_status \<Rightarrow> string" where
  "requirement_status_str RequirementProposed = ''proposed''"
| "requirement_status_str RequirementReady = ''ready''"
| "requirement_status_str RequirementInProgress = ''in_progress''"
| "requirement_status_str RequirementSatisfied = ''satisfied''"
| "requirement_status_str RequirementWithdrawn = ''withdrawn''"

datatype issue_status = IssueOpen | IssueInProgress | IssueResolved | IssueClosed

fun issue_status_str :: "issue_status \<Rightarrow> string" where
  "issue_status_str IssueOpen = ''open''"
| "issue_status_str IssueInProgress = ''in_progress''"
| "issue_status_str IssueResolved = ''resolved''"
| "issue_status_str IssueClosed = ''closed''"

datatype work_status = WorkPending | WorkInProgress | WorkPaused | WorkSubmitted | WorkCompleted | WorkCancelled

fun work_status_str :: "work_status \<Rightarrow> string" where
  "work_status_str WorkPending = ''pending''"
| "work_status_str WorkInProgress = ''in_progress''"
| "work_status_str WorkPaused = ''paused''"
| "work_status_str WorkSubmitted = ''submitted''"
| "work_status_str WorkCompleted = ''completed''"
| "work_status_str WorkCancelled = ''cancelled''"

datatype resource_type = RepositoryResource | DocumentResource | DesignResource | ServiceResource | EnvironmentResource | ArtifactResource | UrlResource

fun resource_type_str :: "resource_type \<Rightarrow> string" where
  "resource_type_str RepositoryResource = ''repository''"
| "resource_type_str DocumentResource = ''document''"
| "resource_type_str DesignResource = ''design''"
| "resource_type_str ServiceResource = ''service''"
| "resource_type_str EnvironmentResource = ''environment''"
| "resource_type_str ArtifactResource = ''artifact''"
| "resource_type_str UrlResource = ''url''"

datatype locator_type = UrlLocator | NostrAddressLocator | NostrEventLocator | BuzzDeepLinkLocator

fun locator_type_str :: "locator_type \<Rightarrow> string" where
  "locator_type_str UrlLocator = ''url''"
| "locator_type_str NostrAddressLocator = ''nostr_address''"
| "locator_type_str NostrEventLocator = ''nostr_event''"
| "locator_type_str BuzzDeepLinkLocator = ''buzz_deep_link''"

end
