(* ===== verification/Context_Coordinate.thy ===== *)
theory Context_Coordinate
  imports Runtime_Fence Uuid_Layout View_Vocabulary
begin

unbundle bit_operations_syntax

text \<open>
  The endpoints of a Project Context hyperedge and their canonical identity:
  \<open>error.rs\<close>, \<open>validation.rs\<close>, \<open>coordinate.rs\<close> and the edge key of \<open>model.rs\<close> in
  \<open>crates/buzz-project-context/src\<close>.  SHA-256 and the hexadecimal codec belong to
  other crates; the digest is the parameter \<open>sha256\<close> of every definition that
  hashes, and \<open>hex_encode\<close>, \<open>hex_decode\<close> are parameters of the codec functions.
\<close>

subsection \<open>Errors\<close>

type_synonym edge_key = "u8 list"

datatype context_error =
    InvalidJson string
  | ContentTooLarge nat nat
  | JsonTooDeep nat nat
  | UnsupportedSchemaVersion u16 u16
  | InvalidCoordinate string
  | DuplicateCoordinate
  | TooFewCoordinates nat nat
  | NonCanonicalCoordinates
  | InvalidDocumentId uuid
  | InvalidEdgeKey string
  | InvalidRevision string
  | InvalidRuntimeFence string
  | InvalidProjection string
  | ProjectionTooLarge nat nat
  | RevisionConflict u64 u64
  | InactiveCoordinate
  | InactiveContextDocument uuid
  | DocumentAlreadyBound uuid edge_key
  | NoChange
  | BindingNotFound uuid
  | BindingEdgeMismatch uuid edge_key
  | RevisionExhausted
  | InvalidCanonicalState string

fun context_error_code :: "context_error \<Rightarrow> string" where
  "context_error_code (InvalidJson _) = ''invalid_json''"
| "context_error_code (JsonTooDeep _ _) = ''invalid_json''"
| "context_error_code (ContentTooLarge _ _) = ''content_too_large''"
| "context_error_code (UnsupportedSchemaVersion _ _) = ''schema''"
| "context_error_code (InvalidCoordinate _) = ''coordinates''"
| "context_error_code DuplicateCoordinate = ''coordinates''"
| "context_error_code (TooFewCoordinates _ _) = ''coordinates''"
| "context_error_code NonCanonicalCoordinates = ''coordinates''"
| "context_error_code (InvalidDocumentId _) = ''invalid_document_id''"
| "context_error_code (InvalidEdgeKey _) = ''edge_key''"
| "context_error_code (InvalidRevision _) = ''revision''"
| "context_error_code RevisionExhausted = ''revision''"
| "context_error_code (InvalidRuntimeFence _) = ''runtime_fence''"
| "context_error_code (InvalidProjection _) = ''projection''"
| "context_error_code (ProjectionTooLarge _ _) = ''projection''"
| "context_error_code (RevisionConflict _ _) = ''revision''"
| "context_error_code InactiveCoordinate = ''inactive_coordinate''"
| "context_error_code (InactiveContextDocument _) = ''inactive_document''"
| "context_error_code (DocumentAlreadyBound _ _) = ''already_bound''"
| "context_error_code NoChange = ''no_change''"
| "context_error_code (BindingNotFound _) = ''binding_not_found''"
| "context_error_code (BindingEdgeMismatch _ _) = ''edge_mismatch''"
| "context_error_code (InvalidCanonicalState _) = ''canonical_state''"

type_synonym 'a context_result = "('a, context_error) result"


subsection \<open>Value checks\<close>

definition PROJECT_CONTEXT_SCHEMA_VERSION :: u16 where
  "PROJECT_CONTEXT_SCHEMA_VERSION = 2"

definition MIN_EDGE_COORDINATES :: nat where "MIN_EDGE_COORDINATES = 2"
definition MAX_CONTEXT_COMMAND_BYTES :: nat where "MAX_CONTEXT_COMMAND_BYTES = 65536"
definition MAX_PROJECTION_CONTENT_BYTES :: nat where "MAX_PROJECTION_CONTENT_BYTES = 65536"
definition MAX_CONTEXT_JSON_DEPTH :: nat where "MAX_CONTEXT_JSON_DEPTH = 16"

definition validate_uuid_v4 :: "uuid_api \<Rightarrow> uuid \<Rightarrow> string \<Rightarrow> unit context_result" where
  "validate_uuid_v4 U i field =
     (if is_nil U i \<or> get_version_num U i \<noteq> 4 \<or> get_variant U i \<noteq> RFC4122
      then Err (InvalidCoordinate (field @ '' must be an RFC 4122 UUID v4'')) else Ok ())"

definition validate_context_document_id :: "uuid_api \<Rightarrow> uuid \<Rightarrow> unit context_result" where
  "validate_context_document_id U document_id =
     (if is_nil U document_id \<or> get_version_num U document_id \<noteq> 4
         \<or> get_variant U document_id \<noteq> RFC4122
      then Err (InvalidDocumentId document_id) else Ok ())"

definition validate_nonnegative :: "u64 \<Rightarrow> string \<Rightarrow> unit context_result" where
  "validate_nonnegative value field =
     (if MAX_SAFE_REVISION < value
      then Err (InvalidRevision (field @ '' must be in 0..='' @ show_nat (unat MAX_SAFE_REVISION)))
      else Ok ())"

definition validate_positive :: "u64 \<Rightarrow> string \<Rightarrow> unit context_result" where
  "validate_positive value field =
     (if \<not> (1 \<le> value \<and> value \<le> MAX_SAFE_REVISION)
      then Err (InvalidRevision (field @ '' must be in 1..='' @ show_nat (unat MAX_SAFE_REVISION)))
      else Ok ())"

text \<open>\<open>to_vec\<close> is \<open>serde_json::to_vec\<close> on the projection's type.\<close>

definition validate_projection_size ::
  "('a \<Rightarrow> (u8 list, string) result) \<Rightarrow> 'a \<Rightarrow> unit context_result" where
  "validate_projection_size to_vec value =
     bind_r (map_err InvalidProjection (to_vec value)) (\<lambda>bytes.
       if MAX_PROJECTION_CONTENT_BYTES < length bytes
       then Err (ProjectionTooLarge MAX_PROJECTION_CONTENT_BYTES (length bytes))
       else Ok ())"

lemma validate_uuid_v4_Ok [result_inv]: "validate_uuid_v4 U i f = Ok () \<longleftrightarrow> is_uuid_v4 U i"
  by (auto simp: validate_uuid_v4_def is_uuid_v4_def)

lemma validate_context_document_id_Ok [result_inv]:
  "validate_context_document_id U i = Ok () \<longleftrightarrow> is_uuid_v4 U i"
  by (auto simp: validate_context_document_id_def is_uuid_v4_def)

lemma validate_nonnegative_Ok [result_inv]: "validate_nonnegative v f = Ok () \<longleftrightarrow> v \<le> MAX_SAFE_REVISION"
  by (auto simp: validate_nonnegative_def)

lemma validate_positive_Ok [result_inv]:
  "validate_positive v f = Ok () \<longleftrightarrow> 1 \<le> v \<and> v \<le> MAX_SAFE_REVISION"
  by (auto simp: validate_positive_def)


subsection \<open>Coordinates and their order\<close>

datatype context_coordinate =
    ProjectViewObject project_view_object_type uuid
  | Document uuid
  | Meeting uuid

fun coordinate_validate :: "uuid_api \<Rightarrow> context_coordinate \<Rightarrow> unit context_result" where
  "coordinate_validate U (ProjectViewObject _ object_id) = validate_uuid_v4 U object_id ''object_id''"
| "coordinate_validate U (Document document_id) = validate_uuid_v4 U document_id ''document_id''"
| "coordinate_validate U (Meeting meeting_id) = validate_uuid_v4 U meeting_id ''meeting_id''"

definition coordinate_validate_for_project ::
  "uuid_api \<Rightarrow> uuid \<Rightarrow> context_coordinate \<Rightarrow> unit context_result" where
  "coordinate_validate_for_project U project_id c =
     then_r (coordinate_validate U c)
     (case c of
        ProjectViewObject ProjectProfile object_id \<Rightarrow>
          if object_id \<noteq> project_id
          then Err (InvalidCoordinate ''project_profile object_id must equal the host-derived project_id'')
          else Ok ()
      | _ \<Rightarrow> Ok ())"

fun tag_value :: "uuid_api \<Rightarrow> uuid \<Rightarrow> context_coordinate \<Rightarrow> string" where
  "tag_value U project_id (ProjectViewObject object_type object_id) =
     ''pv:'' @ uuid_display U project_id @ '':'' @ object_type_str object_type @ '':''
       @ uuid_display U object_id"
| "tag_value U project_id (Document document_id) =
     ''document:'' @ uuid_display U project_id @ '':'' @ uuid_display U document_id"
| "tag_value U project_id (Meeting meeting_id) =
     ''meeting:'' @ uuid_display U project_id @ '':'' @ uuid_display U meeting_id"

fun family_rank :: "context_coordinate \<Rightarrow> u8" where
  "family_rank (ProjectViewObject _ _) = 0"
| "family_rank (Document _) = 1"
| "family_rank (Meeting _) = 2"

fun object_type_rank :: "project_view_object_type \<Rightarrow> u8" where
  "object_type_rank ProjectProfile = 0"
| "object_type_rank Goal = 1"
| "object_type_rank Role = 2"
| "object_type_rank Plan = 3"
| "object_type_rank Stage = 4"
| "object_type_rank Requirement = 5"
| "object_type_rank Issue = 6"
| "object_type_rank Work = 7"
| "object_type_rank Resource = 8"

fun identity_bytes :: "uuid_api \<Rightarrow> context_coordinate \<Rightarrow> u8 list" where
  "identity_bytes U (ProjectViewObject object_type object_id) =
     family_rank (ProjectViewObject object_type object_id) # object_type_rank object_type # as_bytes U object_id"
| "identity_bytes U (Document document_id) = family_rank (Document document_id) # as_bytes U document_id"
| "identity_bytes U (Meeting meeting_id) = family_rank (Meeting meeting_id) # as_bytes U meeting_id"

definition coordinate_cmp :: "uuid_api \<Rightarrow> context_coordinate \<Rightarrow> context_coordinate \<Rightarrow> ordering" where
  "coordinate_cmp U a b =
     then_with (cmp_of (family_rank a) (family_rank b))
     (case (a, b) of
        (ProjectViewObject left_type left_id, ProjectViewObject right_type right_id) \<Rightarrow>
          then_with (cmp_of (object_type_rank left_type) (object_type_rank right_type))
            (uuid_cmp U left_id right_id)
      | (Document left, Document right) \<Rightarrow> uuid_cmp U left right
      | (Meeting left, Meeting right) \<Rightarrow> uuid_cmp U left right
      | _ \<Rightarrow> Equal)"

definition canonicalize_coordinates ::
  "uuid_api \<Rightarrow> context_coordinate list \<Rightarrow> context_coordinate list context_result" where
  "canonicalize_coordinates U coordinates =
     (if length coordinates < MIN_EDGE_COORDINATES
      then Err (TooFewCoordinates MIN_EDGE_COORDINATES (length coordinates))
      else then_r (for_each (coordinate_validate U) coordinates)
        (let sorted = sort_by (coordinate_cmp U) coordinates in
         if any_window2 (=) sorted then Err DuplicateCoordinate else Ok sorted))"

definition validate_canonical_coordinates ::
  "uuid_api \<Rightarrow> context_coordinate list \<Rightarrow> unit context_result" where
  "validate_canonical_coordinates U coordinates =
     bind_r (canonicalize_coordinates U coordinates) (\<lambda>canonical.
       if canonical \<noteq> coordinates then Err NonCanonicalCoordinates else Ok ())"


subsection \<open>Edge keys\<close>

definition EDGE_KEY_DOMAIN :: "u8 list" where
  "EDGE_KEY_DOMAIN = map (\<lambda>c. of_char c) ''buzz-project-context-edge-v1'' @ [0]"

definition u32_try_from :: "nat \<Rightarrow> u32 option" where
  "u32_try_from n = (if n < 2 ^ 32 then Some (of_nat n) else None)"

definition to_be_bytes :: "u32 \<Rightarrow> u8 list" where
  "to_be_bytes n = [ucast (drop_bit 24 n), ucast (drop_bit 16 n), ucast (drop_bit 8 n), ucast n]"

text \<open>The byte string the hasher is fed, and the key it yields.\<close>

definition edge_preimage :: "uuid_api \<Rightarrow> uuid \<Rightarrow> u32 \<Rightarrow> context_coordinate list \<Rightarrow> u8 list" where
  "edge_preimage U project_id count coordinates =
     EDGE_KEY_DOMAIN @ as_bytes U project_id @ to_be_bytes count
       @ concat (map (identity_bytes U) coordinates)"

definition edge_key_derive ::
  "uuid_api \<Rightarrow> (u8 list \<Rightarrow> u8 list) \<Rightarrow> uuid \<Rightarrow> context_coordinate list \<Rightarrow> edge_key context_result" where
  "edge_key_derive U sha256 project_id coordinates =
     then_r (validate_uuid_v4 U project_id ''project_id'')
     (then_r (validate_canonical_coordinates U coordinates)
      (bind_r (ok_or (InvalidCoordinate ''coordinate count exceeds the edge-key-v1 u32 identity encoding'')
          (u32_try_from (length coordinates)))
        (\<lambda>count. Ok (sha256 (edge_preimage U project_id count coordinates)))))"

text \<open>The wire form of a key; \<open>hex_decode\<close> and \<open>hex_encode\<close> are the \<open>hex\<close> crate's.\<close>

definition is_ascii_hexdigit :: "char \<Rightarrow> bool" where
  "is_ascii_hexdigit c \<longleftrightarrow>
     (let n = of_char c :: nat in (48 \<le> n \<and> n \<le> 57) \<or> (65 \<le> n \<and> n \<le> 70) \<or> (97 \<le> n \<and> n \<le> 102))"

definition is_ascii_uppercase :: "char \<Rightarrow> bool" where
  "is_ascii_uppercase c \<longleftrightarrow> (let n = of_char c :: nat in 65 \<le> n \<and> n \<le> 90)"

definition edge_key_from_hex ::
  "(string \<Rightarrow> (u8 list, string) result) \<Rightarrow> string \<Rightarrow> edge_key context_result" where
  "edge_key_from_hex hex_decode value =
     (if length value \<noteq> 64 \<or> (\<exists>c\<in>set value. \<not> is_ascii_hexdigit c)
      then Err (InvalidEdgeKey ''edge key must contain exactly 64 hexadecimal characters'')
      else if \<exists>c\<in>set value. is_ascii_uppercase c
      then Err (InvalidEdgeKey ''edge key hexadecimal must be lowercase'')
      else bind_r (map_err InvalidEdgeKey (hex_decode value)) (\<lambda>decoded.
        if length decoded \<noteq> 32 then Err (InvalidEdgeKey ''edge key must decode to 32 bytes'')
        else Ok decoded))"

definition edge_key_to_hex :: "(u8 list \<Rightarrow> string) \<Rightarrow> edge_key \<Rightarrow> string" where
  "edge_key_to_hex hex_encode k = hex_encode k"


subsection \<open>The order is the order of the identity bytes\<close>

lemma object_type_rank_inject [simp]: "object_type_rank a = object_type_rank b \<longleftrightarrow> a = b"
  by (cases a; cases b) simp_all

lemma coordinate_cmp_identity:
  "coordinate_cmp U a b = cmp_of (identity_bytes U a) (identity_bytes U b)"
  by (cases a; cases b)
    (auto simp: coordinate_cmp_def uuid_cmp_def cmp_of_def then_with_def)

lemma coordinate_comparison: "comparison (coordinate_cmp U)"
  using comparison_key [of "identity_bytes U"] by (simp add: coordinate_cmp_identity [abs_def])

interpretation coord: comparison "coordinate_cmp U" for U
  by (rule coordinate_comparison)

text \<open>With the byte layout of a UUID both orders are total.\<close>

lemma as_bytes_append:
  "uuid_bytes_ok U \<Longrightarrow> as_bytes U a @ xs = as_bytes U b @ ys \<longleftrightarrow> a = b \<and> xs = ys"
  by (auto simp: uuid_bytes_ok_def inj_eq)

lemma identity_bytes_append:
  "uuid_bytes_ok U \<Longrightarrow> identity_bytes U a @ xs = identity_bytes U b @ ys \<longleftrightarrow> a = b \<and> xs = ys"
  by (cases a; cases b) (auto simp: as_bytes_append)

lemma identity_bytes_inj: "uuid_bytes_ok U \<Longrightarrow> inj (identity_bytes U)"
  using identity_bytes_append [of U _ "[]" _ "[]"] by (auto intro: injI)

lemma identity_bytes_nonempty [simp]: "identity_bytes U a \<noteq> []"
  by (cases a) simp_all

lemma identity_bytes_concat:
  "uuid_bytes_ok U \<Longrightarrow>
   concat (map (identity_bytes U) xs) = concat (map (identity_bytes U) ys) \<longleftrightarrow> xs = ys"
proof (induction xs arbitrary: ys)
  case Nil
  then show ?case by (cases ys) auto
next
  case (Cons x xs)
  then show ?case by (cases ys) (auto simp: identity_bytes_append)
qed

lemma coordinate_total: "uuid_bytes_ok U \<Longrightarrow> total_comparison (coordinate_cmp U)"
  using total_comparison_key [OF identity_bytes_inj] by (simp add: coordinate_cmp_identity [abs_def])

interpretation rfc_coord: total_comparison "coordinate_cmp rfc4122"
  by (rule coordinate_total [OF rfc4122_bytes_ok])


subsection \<open>Canonical coordinate sets\<close>

lemma coordinate_validate_for_project_Ok [result_inv]:
  "coordinate_validate_for_project U p c = Ok () \<longleftrightarrow>
     coordinate_validate U c = Ok () \<and> (\<forall>i. c = ProjectViewObject ProjectProfile i \<longrightarrow> i = p)"
  by (auto simp: coordinate_validate_for_project_def then_r_Ok_iff
      split: context_coordinate.splits project_view_object_type.splits)

lemma canonicalize_Ok:
  assumes "uuid_bytes_ok U"
  shows "canonicalize_coordinates U cs = Ok ks \<longleftrightarrow>
    2 \<le> length cs \<and> (\<forall>c\<in>set cs. coordinate_validate U c = Ok ()) \<and> distinct cs
    \<and> ks = sort_by (coordinate_cmp U) cs"
  using total_comparison.sorted_any_window2_eq [OF coordinate_total [OF assms] coord.sorted_sort_by, of cs]
    total_comparison.distinct_sort_by [OF coordinate_total [OF assms], of cs]
  by (auto simp: canonicalize_coordinates_def Let_def MIN_EDGE_COORDINATES_def then_r_Ok_iff
      for_each_Ok_iff if_Err_Ok_iff)

text \<open>The canonical form: at least two valid coordinates in strictly ascending order.\<close>

definition canonical_coordinates :: "uuid_api \<Rightarrow> context_coordinate list \<Rightarrow> bool" where
  "canonical_coordinates U cs \<longleftrightarrow>
     2 \<le> length cs \<and> (\<forall>c\<in>set cs. coordinate_validate U c = Ok ()) \<and> distinct cs
     \<and> sorted_wrt (\<lambda>a b. coordinate_cmp U a b \<noteq> Greater) cs"

lemma validate_canonical_Ok:
  assumes "uuid_bytes_ok U"
  shows "validate_canonical_coordinates U cs = Ok () \<longleftrightarrow> canonical_coordinates U cs"
proof -
  have "sort_by (coordinate_cmp U) cs = cs \<longleftrightarrow>
      sorted_wrt (\<lambda>a b. coordinate_cmp U a b \<noteq> Greater) cs"
    using coord.sort_by_sorted [of U cs] coord.sorted_sort_by [of U cs] by auto
  then show ?thesis
    by (auto simp: validate_canonical_coordinates_def canonical_coordinates_def bind_r_Ok_iff
        canonicalize_Ok [OF assms])
qed

lemma canonicalize_canonical:
  assumes "uuid_bytes_ok U" and "canonicalize_coordinates U cs = Ok ks"
  shows "canonical_coordinates U ks" "set ks = set cs"
  using assms(2) coord.sorted_sort_by [of U cs] total_comparison.distinct_sort_by [OF coordinate_total [OF assms(1)], of cs]
  by (auto simp: canonicalize_Ok [OF assms(1)] canonical_coordinates_def coord.set_sort_by coord.length_sort_by)

lemma canonical_unique:
  assumes "uuid_bytes_ok U" and "canonical_coordinates U xs" and "canonical_coordinates U ys"
  shows "xs = ys \<longleftrightarrow> set xs = set ys"
  using total_comparison.sorted_distinct_unique [OF coordinate_total [OF assms(1)], of xs ys] assms(2,3)
  by (auto simp: canonical_coordinates_def)

lemma to_be_bytes_length [simp]: "length (to_be_bytes n) = 4"
  by (simp add: to_be_bytes_def)

lemma edge_preimage_inject:
  assumes "uuid_bytes_ok U"
  shows "edge_preimage U p n xs = edge_preimage U q m ys \<Longrightarrow> p = q \<and> xs = ys"
  by (auto simp: edge_preimage_def as_bytes_append [OF assms] identity_bytes_concat [OF assms])

lemma edge_key_derive_Ok:
  assumes "uuid_bytes_ok U"
  shows "edge_key_derive U H p cs = Ok k \<longleftrightarrow>
    is_uuid_v4 U p \<and> canonical_coordinates U cs \<and> length cs < 2 ^ 32
    \<and> k = H (edge_preimage U p (of_nat (length cs)) cs)"
  by (auto simp: edge_key_derive_def result_inv validate_canonical_Ok [OF assms] u32_try_from_def)


subsection \<open>Properties\<close>

text \<open>
  C22.  Canonicalization depends on the coordinate set only.  If a list has a
  canonical form, the form passes the canonical check, holds the same
  coordinates, and every rearrangement of the list has the same form; a valid
  list that repeats a coordinate is refused, never collapsed.
\<close>

theorem canonicalize_set:
  assumes "uuid_bytes_ok U"
  shows "(canonicalize_coordinates U cs = Ok ks \<longrightarrow>
      validate_canonical_coordinates U ks = Ok () \<and> set ks = set cs
      \<and> (\<forall>ds. set ds = set cs \<and> length ds = length cs \<longrightarrow> canonicalize_coordinates U ds = Ok ks))
    \<and> (2 \<le> length cs \<and> (\<forall>c\<in>set cs. coordinate_validate U c = Ok ()) \<and> \<not> distinct cs \<longrightarrow>
      canonicalize_coordinates U cs = Err DuplicateCoordinate)"
proof (intro conjI impI allI)
  assume ok: "canonicalize_coordinates U cs = Ok ks"
  show "validate_canonical_coordinates U ks = Ok ()" "set ks = set cs"
    using canonicalize_canonical [OF assms ok] by (simp_all add: validate_canonical_Ok assms)
  fix ds assume ds: "set ds = set cs \<and> length ds = length cs"
  then have "distinct ds"
    using ok card_distinct [of ds] distinct_card [of cs] by (simp add: canonicalize_Ok [OF assms])
  with ds ok total_comparison.sort_by_cong_set [OF coordinate_total [OF assms], of cs ds]
  show "canonicalize_coordinates U ds = Ok ks"
    by (simp add: canonicalize_Ok [OF assms])
next
  assume *: "2 \<le> length cs \<and> (\<forall>c\<in>set cs. coordinate_validate U c = Ok ()) \<and> \<not> distinct cs"
  then have "any_window2 (=) (sort_by (coordinate_cmp U) cs)"
    using total_comparison.sorted_any_window2_eq [OF coordinate_total [OF assms] coord.sorted_sort_by, of cs]
      total_comparison.distinct_sort_by [OF coordinate_total [OF assms], of cs] by simp
  moreover have "for_each (coordinate_validate U) cs = Ok ()" using * by (simp add: for_each_Ok_iff)
  ultimately show "canonicalize_coordinates U cs = Err DuplicateCoordinate"
    using * by (simp add: canonicalize_coordinates_def MIN_EDGE_COORDINATES_def Let_def)
qed

definition demo_coordinates :: "context_coordinate list" where
  "demo_coordinates = [Document id_a, Meeting id_b]"

lemma demo_coordinates_canonical: "canonicalize_coordinates rfc4122 demo_coordinates = Ok demo_coordinates"
  by (simp add: canonicalize_Ok [OF rfc4122_bytes_ok] demo_coordinates_def validate_uuid_v4_Ok
      sort_by_def coordinate_cmp_def cmp_of_def)

theorem canonicalize_set_witness:
  "canonicalize_coordinates rfc4122 [Meeting id_b, Document id_a] = Ok [Document id_a, Meeting id_b]
   \<and> canonicalize_coordinates rfc4122 [Meeting id_b, Meeting id_b] = Err DuplicateCoordinate"
  using canonicalize_set [OF rfc4122_bytes_ok, of demo_coordinates demo_coordinates]
    canonicalize_set [OF rfc4122_bytes_ok, of "[Meeting id_b, Meeting id_b]"]
    demo_coordinates_canonical
  by (simp add: demo_coordinates_def validate_uuid_v4_Ok insert_commute)

text \<open>
  C23.  An edge key commits to its project and coordinate set.  Two accepted
  derivations hash the same bytes exactly when they are for the same project
  and the same set of coordinates, so different edges share a key only where
  SHA-256 itself collides on the two encodings.
\<close>

theorem edge_key_identity:
  assumes "uuid_bytes_ok U" and "edge_key_derive U sha256 p xs = Ok k" and "edge_key_derive U sha256 q ys = Ok l"
  shows "\<exists>a b. k = sha256 a \<and> l = sha256 b
    \<and> a = edge_preimage U p (of_nat (length xs)) xs \<and> b = edge_preimage U q (of_nat (length ys)) ys
    \<and> (a = b \<longleftrightarrow> p = q \<and> set xs = set ys)"
proof -
  have canon: "canonical_coordinates U xs" "canonical_coordinates U ys"
    using assms by (simp_all add: edge_key_derive_Ok)
  show ?thesis
    using edge_preimage_inject [OF assms(1)] canonical_unique [OF assms(1) canon] assms(2,3)
    by (auto simp: edge_key_derive_Ok [OF assms(1)])
qed

lemma demo_derive:
  "edge_key_derive rfc4122 H id_b demo_coordinates = Ok (H (edge_preimage rfc4122 id_b 2 demo_coordinates))"
  using canonicalize_canonical(1) [OF rfc4122_bytes_ok demo_coordinates_canonical]
  by (simp add: edge_key_derive_Ok [OF rfc4122_bytes_ok]) (simp add: demo_coordinates_def)

text \<open>With the identity in place of the digest, another project has another key.\<close>

theorem edge_key_identity_witness:
  "edge_key_derive rfc4122 id id_b demo_coordinates \<noteq> edge_key_derive rfc4122 id id_a demo_coordinates"
proof
  assume eq: "edge_key_derive rfc4122 id id_b demo_coordinates = edge_key_derive rfc4122 id id_a demo_coordinates"
  obtain k where k: "edge_key_derive rfc4122 id id_b demo_coordinates = Ok k" using demo_derive by blast
  from edge_key_identity [OF rfc4122_bytes_ok k, of id_a demo_coordinates k] eq k
  show False by simp
qed

end
