(* ===== verification/Context_Model.thy ===== *)
theory Context_Model
  imports Context_Coordinate
begin

text \<open>
  Canonical Project Context state and its wire forms: \<open>model.rs\<close>, \<open>command.rs\<close> and
  \<open>projection.rs\<close> of \<open>crates/buzz-project-context/src\<close>.  Every definition that
  derives an edge key takes the digest \<open>sha256\<close>; the size check of a projection
  takes the serializer of its type.
\<close>

subsection \<open>State\<close>

datatype context_operation = Attach | Detach

fun context_operation_str :: "context_operation \<Rightarrow> string" where
  "context_operation_str Attach = ''attach''"
| "context_operation_str Detach = ''detach''"

datatype binding_state = Active | Deleted

fun binding_state_str :: "binding_state \<Rightarrow> string" where
  "binding_state_str Active = ''active''"
| "binding_state_str Deleted = ''deleted''"

record context_edge =
  edge_key :: edge_key
  edge_coordinates :: "context_coordinate list"
  edge_document_ids :: "uuid list"

definition edge_validate ::
  "uuid_api \<Rightarrow> (u8 list \<Rightarrow> u8 list) \<Rightarrow> uuid \<Rightarrow> context_edge \<Rightarrow> unit context_result" where
  "edge_validate U sha256 project_id e =
     then_r (validate_canonical_coordinates U (edge_coordinates e))
     (then_r (for_each (coordinate_validate_for_project U project_id) (edge_coordinates e))
     (bind_r (edge_key_derive U sha256 project_id (edge_coordinates e)) (\<lambda>key.
      if edge_key e \<noteq> key
      then Err (InvalidCanonicalState ''edge key does not match project and coordinates'')
      else if edge_document_ids e = []
      then Err (InvalidCanonicalState ''an active edge must contain at least one Context Document'')
      else then_r (for_each (validate_context_document_id U) (edge_document_ids e))
       (if any_window2 (\<lambda>a b. as_bytes U b \<le> as_bytes U a) (edge_document_ids e)
        then Err (InvalidCanonicalState ''edge Context Document ids must be strictly sorted'')
        else Ok ()))))"

definition edge_from_snapshot ::
  "uuid_api \<Rightarrow> (u8 list \<Rightarrow> u8 list) \<Rightarrow> uuid \<Rightarrow> context_coordinate list \<Rightarrow> uuid list
   \<Rightarrow> context_edge context_result" where
  "edge_from_snapshot U sha256 project_id coordinates context_document_ids =
     bind_r (edge_key_derive U sha256 project_id coordinates) (\<lambda>key.
       let e = \<lparr>edge_key = key, edge_coordinates = coordinates,
                edge_document_ids = context_document_ids\<rparr> in
       then_r (edge_validate U sha256 project_id e) (Ok e))"

record context_catalog =
  cc_project_id :: uuid
  cc_context_revision :: u64
  cc_active_edge_count :: u64
  cc_bound_document_count :: u64
  cc_projection_generation :: u64
  cc_initialized_at :: timestamp
  cc_updated_at :: timestamp

definition invalid_catalog :: "string \<Rightarrow> unit context_result" where
  "invalid_catalog reason = Err (InvalidCanonicalState reason)"

definition context_catalog_validate :: "uuid_api \<Rightarrow> context_catalog \<Rightarrow> unit context_result" where
  "context_catalog_validate U c =
     then_r (validate_uuid_v4 U (cc_project_id c) ''project_id'')
     (then_r (validate_nonnegative (cc_context_revision c) ''context_revision'')
     (then_r (validate_nonnegative (cc_active_edge_count c) ''active_edge_count'')
     (then_r (validate_nonnegative (cc_bound_document_count c) ''bound_document_count'')
     (then_r (validate_positive (cc_projection_generation c) ''projection_generation'')
     (if cc_updated_at c < cc_initialized_at c
      then invalid_catalog ''updated_at precedes initialized_at''
      else if cc_context_revision c = 0
        \<and> (cc_active_edge_count c \<noteq> 0 \<or> cc_bound_document_count c \<noteq> 0
           \<or> cc_updated_at c \<noteq> cc_initialized_at c)
      then invalid_catalog ''revision zero is reserved for the untouched empty catalog''
      else if cc_bound_document_count c < cc_active_edge_count c
      then invalid_catalog ''active_edge_count exceeds bound_document_count''
      else if (cc_active_edge_count c = 0) \<noteq> (cc_bound_document_count c = 0)
      then invalid_catalog ''edge and binding emptiness must agree''
      else Ok ())))))"

definition context_catalog_from_snapshot ::
  "uuid_api \<Rightarrow> uuid \<Rightarrow> u64 \<Rightarrow> u64 \<Rightarrow> u64 \<Rightarrow> u64 \<Rightarrow> timestamp \<Rightarrow> timestamp
   \<Rightarrow> context_catalog context_result" where
  "context_catalog_from_snapshot U project_id context_revision active_edge_count
      bound_document_count projection_generation initialized_at updated_at =
     (let c = \<lparr>cc_project_id = project_id, cc_context_revision = context_revision,
               cc_active_edge_count = active_edge_count,
               cc_bound_document_count = bound_document_count,
               cc_projection_generation = projection_generation,
               cc_initialized_at = initialized_at, cc_updated_at = updated_at\<rparr>
      in then_r (context_catalog_validate U c) (Ok c))"

definition context_catalog_empty ::
  "uuid_api \<Rightarrow> uuid \<Rightarrow> u64 \<Rightarrow> timestamp \<Rightarrow> context_catalog context_result" where
  "context_catalog_empty U project_id projection_generation initialized_at =
     context_catalog_from_snapshot U project_id 0 0 0 projection_generation initialized_at initialized_at"

record context_binding =
  bd_edge_key :: edge_key
  bd_coordinates :: "context_coordinate list"
  bd_context_document_id :: uuid
  bd_state :: binding_state
  bd_context_revision :: u64
  bd_updated_at :: timestamp

definition binding_validate ::
  "uuid_api \<Rightarrow> (u8 list \<Rightarrow> u8 list) \<Rightarrow> uuid \<Rightarrow> context_binding \<Rightarrow> unit context_result" where
  "binding_validate U sha256 project_id b =
     then_r (validate_canonical_coordinates U (bd_coordinates b))
     (then_r (for_each (coordinate_validate_for_project U project_id) (bd_coordinates b))
     (then_r (validate_context_document_id U (bd_context_document_id b))
     (then_r (validate_positive (bd_context_revision b) ''context_revision'')
     (bind_r (edge_key_derive U sha256 project_id (bd_coordinates b)) (\<lambda>key.
      if bd_edge_key b \<noteq> key
      then Err (InvalidCanonicalState ''binding edge key does not match coordinates'')
      else Ok ())))))"

definition checked_next :: "u64 \<Rightarrow> u64 context_result" where
  "checked_next value =
     ok_or RevisionExhausted (opt_filter (\<lambda>next. next \<le> MAX_SAFE_REVISION) (checked_add value 1))"


subsection \<open>Commands\<close>

datatype context_command_request =
    AttachRequest (creq_coordinates: "context_coordinate list") (creq_context_document_id: uuid)
  | DetachRequest (creq_coordinates: "context_coordinate list") (creq_context_document_id: uuid)

fun context_request_operation :: "context_command_request \<Rightarrow> context_operation" where
  "context_request_operation (AttachRequest _ _) = Attach"
| "context_request_operation (DetachRequest _ _) = Detach"

definition context_request_validate ::
  "uuid_api \<Rightarrow> context_command_request \<Rightarrow> unit context_result" where
  "context_request_validate U r =
     then_r (validate_canonical_coordinates U (creq_coordinates r))
       (validate_context_document_id U (creq_context_document_id r))"

record context_command =
  ccmd_schema_version :: u16
  ccmd_expected_context_revision :: u64
  ccmd_acting_assignment_id :: "uuid option"
  ccmd_runtime_fence :: "runtime_fence option"
  ccmd_request :: context_command_request

definition context_command_validate_for_submission ::
  "uuid_api \<Rightarrow> context_command \<Rightarrow> unit context_result" where
  "context_command_validate_for_submission U c =
     (if ccmd_schema_version c \<noteq> PROJECT_CONTEXT_SCHEMA_VERSION
      then Err (UnsupportedSchemaVersion (ccmd_schema_version c) PROJECT_CONTEXT_SCHEMA_VERSION)
      else then_r
        (validate_nonnegative (ccmd_expected_context_revision c) ''expected_context_revision'')
       (then_r
         (case (ccmd_acting_assignment_id c, ccmd_runtime_fence c) of
            (None, None) \<Rightarrow> Ok ()
          | (Some assignment_id, Some fence) \<Rightarrow>
              if is_nil U assignment_id
              then Err (InvalidRuntimeFence ''acting_assignment_id cannot be nil'')
              else map_err InvalidRuntimeFence (runtime_fence_validate U fence)
          | _ \<Rightarrow> Err (InvalidRuntimeFence
              ''acting_assignment_id and runtime_fence must both be omitted or both be present''))
         (context_request_validate U (ccmd_request c))))"

definition context_command_new ::
  "uuid_api \<Rightarrow> u64 \<Rightarrow> context_operation \<Rightarrow> context_coordinate list \<Rightarrow> uuid
   \<Rightarrow> context_command context_result" where
  "context_command_new U expected operation coordinates context_document_id =
     bind_r (canonicalize_coordinates U coordinates) (\<lambda>coordinates.
       let request = (case operation of
             Attach \<Rightarrow> AttachRequest coordinates context_document_id
           | Detach \<Rightarrow> DetachRequest coordinates context_document_id);
           command = \<lparr>ccmd_schema_version = PROJECT_CONTEXT_SCHEMA_VERSION,
             ccmd_expected_context_revision = expected, ccmd_acting_assignment_id = None,
             ccmd_runtime_fence = None, ccmd_request = request\<rparr>
       in then_r (context_command_validate_for_submission U command) (Ok command))"

definition context_command_with_runtime_fence ::
  "context_command \<Rightarrow> uuid \<Rightarrow> runtime_fence \<Rightarrow> context_command" where
  "context_command_with_runtime_fence c assignment fence =
     c\<lparr>ccmd_acting_assignment_id := Some assignment, ccmd_runtime_fence := Some fence\<rparr>"

definition context_command_from_json ::
  "uuid_api \<Rightarrow> (ustring \<Rightarrow> (json_value, string) result)
   \<Rightarrow> (json_value \<Rightarrow> (context_command, string) result) \<Rightarrow> ustring \<Rightarrow> context_command context_result" where
  "context_command_from_json U parse decode content =
     (if MAX_CONTEXT_COMMAND_BYTES < utf8_len content
      then Err (ContentTooLarge MAX_CONTEXT_COMMAND_BYTES (utf8_len content))
      else bind_r (map_err InvalidJson (parse content)) (\<lambda>value.
        if MAX_CONTEXT_JSON_DEPTH < json_depth value
        then Err (JsonTooDeep MAX_CONTEXT_JSON_DEPTH (json_depth value))
        else bind_r (map_err InvalidJson (decode value)) (\<lambda>command.
          then_r (context_command_validate_for_submission U command) (Ok command))))"

definition context_command_operation :: "context_command \<Rightarrow> context_operation" where
  "context_command_operation c = context_request_operation (ccmd_request c)"

definition context_command_coordinates :: "context_command \<Rightarrow> context_coordinate list" where
  "context_command_coordinates c = creq_coordinates (ccmd_request c)"

definition context_command_document_id :: "context_command \<Rightarrow> uuid" where
  "context_command_document_id c = creq_context_document_id (ccmd_request c)"

definition context_command_validate_for_project ::
  "uuid_api \<Rightarrow> uuid \<Rightarrow> context_command \<Rightarrow> unit context_result" where
  "context_command_validate_for_project U project_id c =
     then_r (context_command_validate_for_submission U c)
       (for_each (coordinate_validate_for_project U project_id) (context_command_coordinates c))"


subsection \<open>Projections\<close>

datatype context_projection_type = ContextEdgeBinding | ContextMeta

definition context_binding_coordinate :: "uuid_api \<Rightarrow> uuid \<Rightarrow> uuid \<Rightarrow> string" where
  "context_binding_coordinate U project_id context_document_id =
     ''project-context-edge:'' @ uuid_display U project_id @ '':binding:''
       @ uuid_display U context_document_id"

definition context_edge_coordinate ::
  "uuid_api \<Rightarrow> (u8 list \<Rightarrow> string) \<Rightarrow> uuid \<Rightarrow> edge_key \<Rightarrow> string" where
  "context_edge_coordinate U hex_encode project_id key =
     ''project-context-edge:'' @ uuid_display U project_id @ '':'' @ edge_key_to_hex hex_encode key"

definition context_meta_coordinate :: "uuid_api \<Rightarrow> uuid \<Rightarrow> string" where
  "context_meta_coordinate U project_id =
     ''project-context-edge:'' @ uuid_display U project_id @ '':meta''"

definition validate_context_projection_common ::
  "uuid_api \<Rightarrow> u16 \<Rightarrow> context_projection_type \<Rightarrow> context_projection_type \<Rightarrow> uuid \<Rightarrow> u64 \<Rightarrow> u64
   \<Rightarrow> unit context_result" where
  "validate_context_projection_common U schema_version actual_type expected_type project_id
      projection_generation context_revision =
     (if schema_version \<noteq> PROJECT_CONTEXT_SCHEMA_VERSION
      then Err (UnsupportedSchemaVersion schema_version PROJECT_CONTEXT_SCHEMA_VERSION)
      else if actual_type \<noteq> expected_type
      then Err (InvalidProjection ''projection_type does not match event kind'')
      else then_r (validate_uuid_v4 U project_id ''project_id'')
       (then_r (validate_positive projection_generation ''projection_generation'')
         (validate_nonnegative context_revision ''context_revision'')))"

record context_binding_projection =
  bp_schema_version :: u16
  bp_projection_type :: context_projection_type
  bp_project_id :: uuid
  bp_projection_generation :: u64
  bp_context_revision :: u64
  bp_edge_key :: edge_key
  bp_coordinates :: "context_coordinate list"
  bp_context_document_id :: uuid
  bp_state :: binding_state
  bp_source_event_id :: event_id
  bp_updated_at :: timestamp

definition binding_projection_validate ::
  "uuid_api \<Rightarrow> (u8 list \<Rightarrow> u8 list) \<Rightarrow> (context_binding_projection \<Rightarrow> (u8 list, string) result)
   \<Rightarrow> context_binding_projection \<Rightarrow> unit context_result" where
  "binding_projection_validate U sha256 to_vec p =
     then_r (validate_context_projection_common U (bp_schema_version p) (bp_projection_type p)
       ContextEdgeBinding (bp_project_id p) (bp_projection_generation p) (bp_context_revision p))
     (then_r (validate_positive (bp_context_revision p) ''context_revision'')
     (then_r (validate_canonical_coordinates U (bp_coordinates p))
     (then_r (for_each (coordinate_validate_for_project U (bp_project_id p)) (bp_coordinates p))
     (then_r (validate_context_document_id U (bp_context_document_id p))
     (bind_r (edge_key_derive U sha256 (bp_project_id p) (bp_coordinates p)) (\<lambda>key.
      if bp_edge_key p \<noteq> key
      then Err (InvalidProjection ''edge_key does not match project and coordinates'')
      else validate_projection_size to_vec p))))))"

record changed_context_binding =
  cb_context_document_id :: uuid
  cb_edge_key :: edge_key
  cb_binding_coordinate :: string
  cb_binding_event_id :: event_id
  cb_state :: binding_state

definition changed_binding_validate ::
  "uuid_api \<Rightarrow> uuid \<Rightarrow> changed_context_binding \<Rightarrow> unit context_result" where
  "changed_binding_validate U project_id c =
     then_r (validate_context_document_id U (cb_context_document_id c))
     (if cb_binding_coordinate c \<noteq> context_binding_coordinate U project_id (cb_context_document_id c)
      then Err (InvalidProjection ''changed binding coordinate is not canonical'')
      else Ok ())"

record context_meta_projection =
  cm_schema_version :: u16
  cm_projection_type :: context_projection_type
  cm_project_id :: uuid
  cm_projection_generation :: u64
  cm_context_revision :: u64
  cm_active_edge_count :: u64
  cm_bound_document_count :: u64
  cm_reset :: bool
  cm_changed_bindings :: "changed_context_binding list"
  cm_source_event_id :: "event_id option"
  cm_updated_at :: timestamp

definition context_meta_validate ::
  "uuid_api \<Rightarrow> (context_meta_projection \<Rightarrow> (u8 list, string) result)
   \<Rightarrow> context_meta_projection \<Rightarrow> unit context_result" where
  "context_meta_validate U to_vec m =
     then_r (validate_context_projection_common U (cm_schema_version m) (cm_projection_type m)
       ContextMeta (cm_project_id m) (cm_projection_generation m) (cm_context_revision m))
     (then_r (validate_nonnegative (cm_context_revision m) ''context_revision'')
     (then_r (validate_nonnegative (cm_active_edge_count m) ''active_edge_count'')
     (then_r (validate_nonnegative (cm_bound_document_count m) ''bound_document_count'')
     (if cm_bound_document_count m < cm_active_edge_count m
      then Err (InvalidProjection ''active_edge_count exceeds bound_document_count'')
      else if (cm_active_edge_count m = 0) \<noteq> (cm_bound_document_count m = 0)
      then Err (InvalidProjection ''edge and binding emptiness must agree'')
      else if cm_context_revision m = 0
        \<and> (cm_active_edge_count m \<noteq> 0 \<or> cm_bound_document_count m \<noteq> 0)
      then Err (InvalidProjection ''revision zero must describe an empty catalog'')
      else then_r
        (if cm_reset m
         then (if cm_changed_bindings m \<noteq> [] \<or> cm_source_event_id m \<noteq> None
               then Err (InvalidProjection ''reset metadata must omit source_event_id and changed bindings'')
               else Ok ())
         else then_r (validate_positive (cm_context_revision m) ''context_revision'')
          (if length (cm_changed_bindings m) \<noteq> 1 \<or> cm_source_event_id m = None
           then Err (InvalidProjection ''ordinary metadata requires one changed binding and source_event_id'')
           else changed_binding_validate U (cm_project_id m) (hd (cm_changed_bindings m))))
        (validate_projection_size to_vec m)))))"

record context_projection_plan =
  cpl_catalog :: context_catalog
  cpl_binding :: "context_binding option"
  cpl_source_event_id :: "event_id option"
  cpl_reset :: bool

definition context_plan_validate ::
  "uuid_api \<Rightarrow> (u8 list \<Rightarrow> u8 list) \<Rightarrow> context_projection_plan \<Rightarrow> unit context_result" where
  "context_plan_validate U sha256 p =
     then_r (context_catalog_validate U (cpl_catalog p))
     (case (cpl_reset p, cpl_binding p, cpl_source_event_id p) of
        (True, None, None) \<Rightarrow> Ok ()
      | (False, Some binding, Some _) \<Rightarrow>
          then_r (binding_validate U sha256 (cc_project_id (cpl_catalog p)) binding)
          (if bd_context_revision binding \<noteq> cc_context_revision (cpl_catalog p)
              \<or> bd_updated_at binding \<noteq> cc_updated_at (cpl_catalog p)
           then Err (InvalidProjection ''binding and catalog observations disagree'')
           else Ok ())
      | _ \<Rightarrow> Err (InvalidProjection ''projection plan has a mixed reset/ordinary shape''))"

definition context_plan_for_transition ::
  "uuid_api \<Rightarrow> (u8 list \<Rightarrow> u8 list) \<Rightarrow> context_catalog \<Rightarrow> context_binding \<Rightarrow> event_id
   \<Rightarrow> context_projection_plan context_result" where
  "context_plan_for_transition U sha256 catalog binding source_event_id =
     (let plan = \<lparr>cpl_catalog = catalog, cpl_binding = Some binding,
                  cpl_source_event_id = Some source_event_id, cpl_reset = False\<rparr>
      in then_r (context_plan_validate U sha256 plan) (Ok plan))"

definition context_plan_for_reset ::
  "uuid_api \<Rightarrow> (u8 list \<Rightarrow> u8 list) \<Rightarrow> context_catalog \<Rightarrow> context_projection_plan context_result" where
  "context_plan_for_reset U sha256 catalog =
     (let plan = \<lparr>cpl_catalog = catalog, cpl_binding = None, cpl_source_event_id = None,
                  cpl_reset = True\<rparr>
      in then_r (context_plan_validate U sha256 plan) (Ok plan))"

record context_receipt =
  crc_schema_version :: u16
  crc_change_id :: event_id
  crc_actor :: public_key
  crc_acting_assignment_id :: "uuid option"
  crc_operation :: context_operation
  crc_expected_context_revision :: u64
  crc_context_revision :: u64
  crc_edge_key :: edge_key
  crc_edge_state :: binding_state
  crc_edge_document_count :: u64
  crc_context_document_id :: uuid
  crc_accepted_at :: timestamp

definition context_receipt_validate :: "uuid_api \<Rightarrow> context_receipt \<Rightarrow> unit context_result" where
  "context_receipt_validate U r =
     (if crc_schema_version r \<noteq> PROJECT_CONTEXT_SCHEMA_VERSION
      then Err (UnsupportedSchemaVersion (crc_schema_version r) PROJECT_CONTEXT_SCHEMA_VERSION)
      else then_r
        (validate_nonnegative (crc_expected_context_revision r) ''expected_context_revision'')
      (then_r (validate_positive (crc_context_revision r) ''context_revision'')
      (if checked_add (crc_expected_context_revision r) 1 \<noteq> Some (crc_context_revision r)
       then Err (InvalidProjection
         ''receipt context_revision must immediately follow expected_context_revision'')
       else then_r (validate_context_document_id U (crc_context_document_id r))
        (if (case crc_acting_assignment_id r of Some i \<Rightarrow> is_nil U i | None \<Rightarrow> False)
         then Err (InvalidProjection ''receipt acting_assignment_id cannot be nil'')
         else then_r (validate_nonnegative (crc_edge_document_count r) ''edge_document_count'')
          (if crc_edge_state r = Active \<and> crc_edge_document_count r = 0
           then Err (InvalidProjection ''active receipt edge has no Documents'')
           else if crc_edge_state r = Deleted \<and> crc_edge_document_count r \<noteq> 0
           then Err (InvalidProjection ''deleted receipt edge retains Documents'')
           else Ok ())))))"


subsection \<open>What the checks accept\<close>

definition key_of :: "uuid_api \<Rightarrow> (u8 list \<Rightarrow> u8 list) \<Rightarrow> uuid \<Rightarrow> context_coordinate list \<Rightarrow> edge_key" where
  "key_of U sha256 p cs = sha256 (edge_preimage U p (of_nat (length cs)) cs)"

lemma edge_key_derive_iff [result_inv]:
  "edge_key_derive U H p cs = Ok k \<longleftrightarrow>
     is_uuid_v4 U p \<and> validate_canonical_coordinates U cs = Ok () \<and> length cs < 2 ^ 32 \<and> k = key_of U H p cs"
  by (auto simp: edge_key_derive_def result_inv u32_try_from_def key_of_def)

text \<open>The coordinate set is canonical and every coordinate belongs to the project.\<close>

definition endpoints_ok :: "uuid_api \<Rightarrow> uuid \<Rightarrow> context_coordinate list \<Rightarrow> bool" where
  "endpoints_ok U p cs \<longleftrightarrow> is_uuid_v4 U p \<and> validate_canonical_coordinates U cs = Ok ()
     \<and> (\<forall>c\<in>set cs. coordinate_validate_for_project U p c = Ok ()) \<and> length cs < 2 ^ 32"

definition documents_ok :: "uuid_api \<Rightarrow> uuid list \<Rightarrow> bool" where
  "documents_ok U ds \<longleftrightarrow> ds \<noteq> [] \<and> (\<forall>d\<in>set ds. is_uuid_v4 U d)
     \<and> sorted_wrt (\<lambda>a b. as_bytes U a < as_bytes U b) ds"

lemma edge_validate_Ok [result_inv]:
  "edge_validate U H p e = Ok () \<longleftrightarrow>
     endpoints_ok U p (edge_coordinates e) \<and> edge_key e = key_of U H p (edge_coordinates e)
     \<and> documents_ok U (edge_document_ids e)"
  by (auto simp: edge_validate_def result_inv endpoints_ok_def documents_ok_def any_window2_strict)

lemma edge_from_snapshot_Ok [result_inv]:
  "edge_from_snapshot U H p cs ds = Ok e \<longleftrightarrow>
     endpoints_ok U p cs \<and> documents_ok U ds
     \<and> e = \<lparr>edge_key = key_of U H p cs, edge_coordinates = cs, edge_document_ids = ds\<rparr>"
  by (auto simp: edge_from_snapshot_def Let_def bind_r_Ok_iff then_r_Ok_iff edge_key_derive_iff
      edge_validate_Ok) (auto simp: endpoints_ok_def)

lemma context_catalog_validate_Ok [result_inv]:
  "context_catalog_validate U c = Ok () \<longleftrightarrow>
     is_uuid_v4 U (cc_project_id c) \<and> cc_context_revision c \<le> MAX_SAFE_REVISION
     \<and> cc_bound_document_count c \<le> MAX_SAFE_REVISION
     \<and> 1 \<le> cc_projection_generation c \<and> cc_projection_generation c \<le> MAX_SAFE_REVISION
     \<and> cc_initialized_at c \<le> cc_updated_at c
     \<and> (cc_context_revision c = 0 \<longrightarrow> cc_active_edge_count c = 0 \<and> cc_bound_document_count c = 0
           \<and> cc_updated_at c = cc_initialized_at c)
     \<and> cc_active_edge_count c \<le> cc_bound_document_count c
     \<and> (cc_active_edge_count c = 0 \<longleftrightarrow> cc_bound_document_count c = 0)"
  by (auto simp: context_catalog_validate_def result_inv invalid_catalog_def)

lemma context_catalog_from_snapshot_Ok [result_inv]:
  "context_catalog_from_snapshot U p r e b g i u = Ok c \<longleftrightarrow>
     c = \<lparr>cc_project_id = p, cc_context_revision = r, cc_active_edge_count = e,
          cc_bound_document_count = b, cc_projection_generation = g, cc_initialized_at = i,
          cc_updated_at = u\<rparr> \<and> context_catalog_validate U c = Ok ()"
  by (auto simp: context_catalog_from_snapshot_def Let_def then_r_Ok_iff)

lemma binding_validate_Ok [result_inv]:
  "binding_validate U H p b = Ok () \<longleftrightarrow>
     endpoints_ok U p (bd_coordinates b) \<and> is_uuid_v4 U (bd_context_document_id b)
     \<and> 1 \<le> bd_context_revision b \<and> bd_context_revision b \<le> MAX_SAFE_REVISION
     \<and> bd_edge_key b = key_of U H p (bd_coordinates b)"
  by (auto simp: binding_validate_def result_inv endpoints_ok_def)

lemma checked_next_Ok [result_inv]:
  "checked_next r = Ok n \<longleftrightarrow> unat r < 9007199254740991 \<and> n = r + 1"
  unfolding checked_next_def ok_or_Ok_iff checked_succ_def [symmetric]
  using checked_succ_plus_one [of r] by (auto simp: checked_succ_Some_iff word_unat_eq_iff)

lemma checked_next_Err: "checked_next MAX_SAFE_REVISION = Err RevisionExhausted"
  using checked_next_Ok [of MAX_SAFE_REVISION]
  by (cases "checked_next MAX_SAFE_REVISION") (auto simp: checked_next_def ok_or_def split: option.splits)

lemma context_command_validate_for_project_Ok [result_inv]:
  "context_command_validate_for_project U p c = Ok () \<longleftrightarrow>
     ccmd_schema_version c = PROJECT_CONTEXT_SCHEMA_VERSION
     \<and> ccmd_expected_context_revision c \<le> MAX_SAFE_REVISION
     \<and> managed_claim_ok U (ccmd_acting_assignment_id c) (ccmd_runtime_fence c)
     \<and> validate_canonical_coordinates U (context_command_coordinates c) = Ok ()
     \<and> is_uuid_v4 U (context_command_document_id c)
     \<and> (\<forall>k\<in>set (context_command_coordinates c). coordinate_validate_for_project U p k = Ok ())"
  by (cases "ccmd_acting_assignment_id c"; cases "ccmd_runtime_fence c")
    (auto simp: context_command_validate_for_project_def context_command_validate_for_submission_def
      context_request_validate_def context_command_coordinates_def context_command_document_id_def
      managed_claim_ok_def then_r_Ok_iff map_err_Ok_iff for_each_Ok_iff validate_nonnegative_Ok
      validate_context_document_id_Ok)

lemma context_plan_for_transition_Ok [result_inv]:
  "context_plan_for_transition U H cat b e = Ok p \<longleftrightarrow>
     context_catalog_validate U cat = Ok () \<and> binding_validate U H (cc_project_id cat) b = Ok ()
     \<and> bd_context_revision b = cc_context_revision cat \<and> bd_updated_at b = cc_updated_at cat
     \<and> p = \<lparr>cpl_catalog = cat, cpl_binding = Some b, cpl_source_event_id = Some e, cpl_reset = False\<rparr>"
  by (auto simp: context_plan_for_transition_def context_plan_validate_def Let_def then_r_Ok_iff)

lemma context_receipt_validate_Ok [result_inv]:
  "context_receipt_validate U r = Ok () \<longleftrightarrow>
     crc_schema_version r = PROJECT_CONTEXT_SCHEMA_VERSION
     \<and> crc_context_revision r \<le> MAX_SAFE_REVISION
     \<and> unat (crc_context_revision r) = unat (crc_expected_context_revision r) + 1
     \<and> is_uuid_v4 U (crc_context_document_id r)
     \<and> (\<forall>i. crc_acting_assignment_id r = Some i \<longrightarrow> \<not> is_nil U i)
     \<and> crc_edge_document_count r \<le> MAX_SAFE_REVISION
     \<and> (crc_edge_state r = Deleted \<longleftrightarrow> crc_edge_document_count r = 0)"
  by (cases "crc_edge_state r"; cases "crc_acting_assignment_id r")
    (auto simp: context_receipt_validate_def result_inv checked_add_Some_iff safe_range)

end
