(* ===== verification/Context_Reducer.thy ===== *)
theory Context_Reducer
  imports Context_Model
begin

text \<open>
  The pure attach and detach transition of
  \<open>crates/buzz-project-context/src/reducer.rs\<close>.
\<close>

record context_change =
  cx_actor :: public_key
  cx_change_id :: event_id
  cx_canonical_at :: timestamp
  cx_all_coordinates_active :: bool
  cx_context_document_active :: bool

definition context_change_active :: "public_key \<Rightarrow> event_id \<Rightarrow> timestamp \<Rightarrow> context_change" where
  "context_change_active actor change_id canonical_at =
     \<lparr>cx_actor = actor, cx_change_id = change_id, cx_canonical_at = canonical_at,
      cx_all_coordinates_active = True, cx_context_document_active = True\<rparr>"

record context_transition =
  ct_catalog :: context_catalog
  ct_edge :: "context_edge option"
  ct_binding :: context_binding
  ct_receipt :: context_receipt
  ct_projection_plan :: context_projection_plan

definition edge_document_count :: "context_edge option \<Rightarrow> u64" where
  "edge_document_count edge =
     (case edge of None \<Rightarrow> 0 | Some e \<Rightarrow> of_nat (length (edge_document_ids e)))"

definition edge_state :: "context_edge option \<Rightarrow> binding_state" where
  "edge_state edge = (if edge \<noteq> None then Active else Deleted)"

definition invalid_state :: "string \<Rightarrow> 'a context_result" where
  "invalid_state reason = Err (InvalidCanonicalState reason)"

definition context_transition_validate ::
  "uuid_api \<Rightarrow> (u8 list \<Rightarrow> u8 list) \<Rightarrow> context_transition \<Rightarrow> unit context_result" where
  "context_transition_validate U sha256 t =
     (let p = cc_project_id (ct_catalog t); r = ct_receipt t; plan = ct_projection_plan t in
      then_r (context_catalog_validate U (ct_catalog t))
      (then_r (binding_validate U sha256 p (ct_binding t))
      (then_r
        (case ct_edge t of
           None \<Rightarrow> Ok ()
         | Some edge \<Rightarrow> then_r (edge_validate U sha256 p edge)
             (if edge_key edge \<noteq> bd_edge_key (ct_binding t)
              then invalid_state ''updated edge and binding use different keys''
              else Ok ()))
      (then_r (context_receipt_validate U r)
      (then_r (context_plan_validate U sha256 plan)
      (if crc_context_revision r \<noteq> cc_context_revision (ct_catalog t)
          \<or> crc_edge_key r \<noteq> bd_edge_key (ct_binding t)
          \<or> crc_context_document_id r \<noteq> bd_context_document_id (ct_binding t)
          \<or> crc_edge_document_count r \<noteq> edge_document_count (ct_edge t)
          \<or> crc_edge_state r \<noteq> edge_state (ct_edge t)
          \<or> crc_accepted_at r \<noteq> cc_updated_at (ct_catalog t)
          \<or> cpl_catalog plan \<noteq> ct_catalog t
          \<or> cpl_binding plan \<noteq> Some (ct_binding t)
          \<or> cpl_source_event_id plan \<noteq> Some (crc_change_id r)
          \<or> cpl_reset plan
       then invalid_state ''transition receipt, state, and projection plan disagree''
       else Ok ()))))))"

text \<open>The two arms: the edge, binding state and counters after the command.\<close>

definition reduce_attach ::
  "uuid_api \<Rightarrow> (u8 list \<Rightarrow> u8 list) \<Rightarrow> context_catalog \<Rightarrow> context_edge option \<Rightarrow> edge_key option
   \<Rightarrow> context_command \<Rightarrow> context_change \<Rightarrow> edge_key
   \<Rightarrow> (context_edge option \<times> binding_state \<times> u64 \<times> u64) context_result" where
  "reduce_attach U sha256 catalog current_edge active_document_edge command context key =
     (let document_id = context_command_document_id command in
      if \<not> cx_all_coordinates_active context then Err InactiveCoordinate
      else if \<not> cx_context_document_active context then Err (InactiveContextDocument document_id)
      else (case active_document_edge of
          Some existing_key \<Rightarrow>
            if existing_key = key
            then (if (case current_edge of None \<Rightarrow> False | Some e \<Rightarrow> document_id \<in> set (edge_document_ids e))
                  then Err NoChange
                  else invalid_state ''active Document binding is absent from its active edge'')
            else Err (DocumentAlreadyBound document_id existing_key)
        | None \<Rightarrow>
            let document_ids = sort_by (uuid_cmp U)
              ((case current_edge of None \<Rightarrow> [] | Some e \<Rightarrow> edge_document_ids e) @ [document_id]) in
            bind_r (edge_from_snapshot U sha256 (cc_project_id catalog)
                (context_command_coordinates command) document_ids) (\<lambda>edge.
            bind_r (if current_edge \<noteq> None then Ok (cc_active_edge_count catalog)
                    else checked_next (cc_active_edge_count catalog)) (\<lambda>active_edge_count.
            bind_r (checked_next (cc_bound_document_count catalog)) (\<lambda>bound_document_count.
            Ok (Some edge, Active, active_edge_count, bound_document_count))))))"

definition reduce_detach ::
  "uuid_api \<Rightarrow> (u8 list \<Rightarrow> u8 list) \<Rightarrow> context_catalog \<Rightarrow> context_edge option \<Rightarrow> edge_key option
   \<Rightarrow> context_command \<Rightarrow> edge_key
   \<Rightarrow> (context_edge option \<times> binding_state \<times> u64 \<times> u64) context_result" where
  "reduce_detach U sha256 catalog current_edge active_document_edge command key =
     (let document_id = context_command_document_id command in
      case active_document_edge of
        None \<Rightarrow> Err (BindingNotFound document_id)
      | Some existing_key \<Rightarrow>
          if existing_key \<noteq> key then Err (BindingEdgeMismatch document_id existing_key)
          else (case current_edge of
              None \<Rightarrow> invalid_state ''active Document binding has no active edge''
            | Some e \<Rightarrow>
                if document_id \<notin> set (edge_document_ids e)
                then invalid_state ''active edge does not contain the bound Document''
                else
                  let document_ids = filter (\<lambda>i. i \<noteq> document_id) (edge_document_ids e) in
                  bind_r (if document_ids = [] then Ok None
                          else bind_r (edge_from_snapshot U sha256 (cc_project_id catalog)
                            (context_command_coordinates command) document_ids) (\<lambda>edge. Ok (Some edge)))
                    (\<lambda>edge.
                  bind_r (if edge = None
                          then ok_or (InvalidCanonicalState ''cannot remove the last binding from an empty catalog'')
                            (checked_sub (cc_active_edge_count catalog) 1)
                          else Ok (cc_active_edge_count catalog)) (\<lambda>active_edge_count.
                  bind_r (ok_or (InvalidCanonicalState ''cannot detach from a catalog with no bound Documents'')
                            (checked_sub (cc_bound_document_count catalog) 1)) (\<lambda>bound_document_count.
                  Ok (edge, Deleted, active_edge_count, bound_document_count))))))"

definition reduce_project_context ::
  "uuid_api \<Rightarrow> (u8 list \<Rightarrow> u8 list) \<Rightarrow> context_catalog \<Rightarrow> context_edge option \<Rightarrow> edge_key option
   \<Rightarrow> context_command \<Rightarrow> context_change \<Rightarrow> context_transition context_result" where
  "reduce_project_context U sha256 catalog current_edge active_document_edge command context =
     (let p = cc_project_id catalog; coordinates = context_command_coordinates command;
          document_id = context_command_document_id command in
      then_r (context_catalog_validate U catalog)
      (then_r (context_command_validate_for_project U p command)
      (if ccmd_expected_context_revision command \<noteq> cc_context_revision catalog
       then Err (RevisionConflict (ccmd_expected_context_revision command) (cc_context_revision catalog))
       else if cx_canonical_at context \<le> cc_updated_at catalog
       then invalid_state ''canonical transition time must increase past catalog updated_at''
       else bind_r (edge_key_derive U sha256 p coordinates) (\<lambda>key.
        then_r
          (case current_edge of
             None \<Rightarrow> Ok ()
           | Some edge \<Rightarrow> then_r (edge_validate U sha256 p edge)
               (if edge_key edge \<noteq> key \<or> edge_coordinates edge \<noteq> coordinates
                then invalid_state ''loaded active edge key or canonical coordinates do not match the command''
                else Ok ()))
        (bind_r (checked_next (cc_context_revision catalog)) (\<lambda>next_revision.
        bind_r
          (case context_command_operation command of
             Attach \<Rightarrow> reduce_attach U sha256 catalog current_edge active_document_edge command context key
           | Detach \<Rightarrow> reduce_detach U sha256 catalog current_edge active_document_edge command key)
          (\<lambda>(edge, state, active_edge_count, bound_document_count).
        bind_r (context_catalog_from_snapshot U p next_revision active_edge_count bound_document_count
                  (cc_projection_generation catalog) (cc_initialized_at catalog)
                  (cx_canonical_at context)) (\<lambda>catalog'.
        let binding = \<lparr>bd_edge_key = key, bd_coordinates = coordinates,
              bd_context_document_id = document_id, bd_state = state,
              bd_context_revision = next_revision, bd_updated_at = cx_canonical_at context\<rparr> in
        then_r (binding_validate U sha256 (cc_project_id catalog') binding)
        (let receipt = \<lparr>crc_schema_version = PROJECT_CONTEXT_SCHEMA_VERSION,
              crc_change_id = cx_change_id context, crc_actor = cx_actor context,
              crc_acting_assignment_id = ccmd_acting_assignment_id command,
              crc_operation = context_command_operation command,
              crc_expected_context_revision = ccmd_expected_context_revision command,
              crc_context_revision = next_revision, crc_edge_key = key,
              crc_edge_state = edge_state edge, crc_edge_document_count = edge_document_count edge,
              crc_context_document_id = document_id, crc_accepted_at = cx_canonical_at context\<rparr> in
        bind_r (context_plan_for_transition U sha256 catalog' binding (cx_change_id context)) (\<lambda>plan.
        let transition = \<lparr>ct_catalog = catalog', ct_edge = edge, ct_binding = binding,
              ct_receipt = receipt, ct_projection_plan = plan\<rparr> in
        then_r (context_transition_validate U sha256 transition) (Ok transition)))))))))))"


subsection \<open>The abstract transition\<close>

text \<open>
  What the reducer promises: the membership of the edge after the command, the
  counters, and when the command is admitted.
\<close>

definition members :: "context_edge option \<Rightarrow> uuid list" where
  "members edge = (case edge of None \<Rightarrow> [] | Some e \<Rightarrow> edge_document_ids e)"

definition next_members :: "uuid_api \<Rightarrow> context_edge option \<Rightarrow> context_command \<Rightarrow> uuid list" where
  "next_members U edge command =
     (case context_command_operation command of
        Attach \<Rightarrow> sort_by (uuid_cmp U) (members edge @ [context_command_document_id command])
      | Detach \<Rightarrow> filter (\<lambda>i. i \<noteq> context_command_document_id command) (members edge))"

definition next_edge ::
  "uuid_api \<Rightarrow> (u8 list \<Rightarrow> u8 list) \<Rightarrow> uuid \<Rightarrow> context_edge option \<Rightarrow> context_command \<Rightarrow> context_edge option" where
  "next_edge U sha256 p edge command =
     (let ids = next_members U edge command; cs = context_command_coordinates command in
      if ids = [] then None
      else Some \<lparr>edge_key = key_of U sha256 p cs, edge_coordinates = cs, edge_document_ids = ids\<rparr>)"

definition context_advance ::
  "uuid_api \<Rightarrow> context_catalog \<Rightarrow> context_edge option \<Rightarrow> context_command \<Rightarrow> timestamp \<Rightarrow> context_catalog" where
  "context_advance U catalog edge command at =
     (let attach = (context_command_operation command = Attach) in
      catalog\<lparr>cc_context_revision := cc_context_revision catalog + 1,
        cc_active_edge_count :=
          (if attach then (if edge = None then cc_active_edge_count catalog + 1 else cc_active_edge_count catalog)
           else if next_members U edge command = [] then cc_active_edge_count catalog - 1
           else cc_active_edge_count catalog),
        cc_bound_document_count :=
          (if attach then cc_bound_document_count catalog + 1 else cc_bound_document_count catalog - 1),
        cc_updated_at := at\<rparr>)"

definition context_commit ::
  "uuid_api \<Rightarrow> (u8 list \<Rightarrow> u8 list) \<Rightarrow> context_catalog \<Rightarrow> context_edge option \<Rightarrow> context_command
   \<Rightarrow> context_change \<Rightarrow> context_transition" where
  "context_commit U sha256 catalog edge command context =
     (let p = cc_project_id catalog; cs = context_command_coordinates command; key = key_of U sha256 p cs;
          edge' = next_edge U sha256 p edge command; n = cc_context_revision catalog + 1;
          catalog' = context_advance U catalog edge command (cx_canonical_at context);
          binding = \<lparr>bd_edge_key = key, bd_coordinates = cs,
            bd_context_document_id = context_command_document_id command,
            bd_state = (if context_command_operation command = Attach then Active else Deleted),
            bd_context_revision = n, bd_updated_at = cx_canonical_at context\<rparr> in
      \<lparr>ct_catalog = catalog', ct_edge = edge', ct_binding = binding,
       ct_receipt = \<lparr>crc_schema_version = PROJECT_CONTEXT_SCHEMA_VERSION,
         crc_change_id = cx_change_id context, crc_actor = cx_actor context,
         crc_acting_assignment_id = ccmd_acting_assignment_id command,
         crc_operation = context_command_operation command,
         crc_expected_context_revision = cc_context_revision catalog, crc_context_revision = n,
         crc_edge_key = key, crc_edge_state = edge_state edge',
         crc_edge_document_count = of_nat (length (next_members U edge command)),
         crc_context_document_id = context_command_document_id command,
         crc_accepted_at = cx_canonical_at context\<rparr>,
       ct_projection_plan = \<lparr>cpl_catalog = catalog', cpl_binding = Some binding,
         cpl_source_event_id = Some (cx_change_id context), cpl_reset = False\<rparr>\<rparr>)"

text \<open>What admits a command: the part the arms decide, and the whole.\<close>

definition context_arm_admissible ::
  "context_catalog \<Rightarrow> context_edge option \<Rightarrow> edge_key option \<Rightarrow> context_command \<Rightarrow> context_change
   \<Rightarrow> edge_key \<Rightarrow> bool" where
  "context_arm_admissible catalog edge owner command context key \<longleftrightarrow>
     (let d = context_command_document_id command in
      if context_command_operation command = Attach
      then cx_all_coordinates_active context \<and> cx_context_document_active context \<and> owner = None
        \<and> d \<notin> set (members edge)
        \<and> (edge = None \<longrightarrow> unat (cc_active_edge_count catalog) < 9007199254740991)
        \<and> unat (cc_bound_document_count catalog) < 9007199254740991
      else owner = Some key \<and> d \<in> set (members edge)
        \<and> (set (members edge) \<subseteq> {d} \<longrightarrow> cc_active_edge_count catalog \<noteq> 0)
        \<and> cc_bound_document_count catalog \<noteq> 0)"

definition context_loaded ::
  "uuid_api \<Rightarrow> (u8 list \<Rightarrow> u8 list) \<Rightarrow> context_catalog \<Rightarrow> context_edge option \<Rightarrow> context_command
   \<Rightarrow> context_change \<Rightarrow> bool" where
  "context_loaded U sha256 catalog edge command context \<longleftrightarrow>
     (let p = cc_project_id catalog; cs = context_command_coordinates command in
      context_catalog_validate U catalog = Ok ()
      \<and> context_command_validate_for_project U p command = Ok ()
      \<and> cc_updated_at catalog < cx_canonical_at context \<and> length cs < 2 ^ 32
      \<and> (\<forall>e. edge = Some e \<longrightarrow> edge_validate U sha256 p e = Ok () \<and> edge_coordinates e = cs))"

definition context_admissible ::
  "uuid_api \<Rightarrow> (u8 list \<Rightarrow> u8 list) \<Rightarrow> context_catalog \<Rightarrow> context_edge option \<Rightarrow> edge_key option
   \<Rightarrow> context_command \<Rightarrow> context_change \<Rightarrow> bool" where
  "context_admissible U sha256 catalog edge owner command context \<longleftrightarrow>
     context_loaded U sha256 catalog edge command context
     \<and> ccmd_expected_context_revision command = cc_context_revision catalog
     \<and> unat (cc_context_revision catalog) < 9007199254740991
     \<and> context_arm_admissible catalog edge owner command context
         (key_of U sha256 (cc_project_id catalog) (context_command_coordinates command))
     \<and> context_catalog_validate U (context_advance U catalog edge command (cx_canonical_at context)) = Ok ()
     \<and> (of_nat (length (next_members U edge command)) :: u64) \<le> MAX_SAFE_REVISION
     \<and> (next_members U edge command = [] \<longleftrightarrow> (of_nat (length (next_members U edge command)) :: u64) = 0)"


subsection \<open>Membership lists\<close>

lemma strict_ids_iff:
  assumes "uuid_bytes_ok U"
  shows "sorted_wrt (\<lambda>a b. as_bytes U a < as_bytes U b) xs \<longleftrightarrow>
    distinct xs \<and> sorted_wrt (\<lambda>a b. uuid_cmp U a b \<noteq> Greater) xs"
  using assms
  by (induction xs) (auto simp: uuid_cmp_def uuid_bytes_ok_def inj_eq not_less less_le)

lemma documents_ok_insert:
  assumes "uuid_bytes_ok U" and "ds = [] \<or> documents_ok U ds"
  shows "documents_ok U (sort_by (uuid_cmp U) (ds @ [d])) \<longleftrightarrow> d \<notin> set ds \<and> is_uuid_v4 U d"
proof -
  let ?s = "sort_by (uuid_cmp U) (ds @ [d])"
  have "distinct ds" "\<forall>i\<in>set ds. is_uuid_v4 U i"
    using assms(2) strict_ids_iff [OF assms(1), of ds] by (auto simp: documents_ok_def)
  moreover have "set ?s = insert d (set ds)" "?s \<noteq> []"
    using ids.set_sort_by [of U "ds @ [d]"] by auto
  moreover have "distinct ?s \<longleftrightarrow> distinct (ds @ [d])"
    by (rule total_comparison.distinct_sort_by [OF uuid_total [OF assms(1)]])
  ultimately show ?thesis
    using ids.sorted_sort_by [of U "ds @ [d]"] by (auto simp: documents_ok_def strict_ids_iff [OF assms(1)])
qed

lemma documents_ok_filter:
  "documents_ok U ds \<Longrightarrow> filter P ds \<noteq> [] \<Longrightarrow> documents_ok U (filter P ds)"
  by (auto simp: documents_ok_def sorted_wrt_filter)

lemma members_simps [simp]: "members None = []" "members (Some e) = edge_document_ids e"
  by (simp_all add: members_def)

lemma members_next_edge [simp]: "members (next_edge U H p edge cmd) = next_members U edge cmd"
  by (simp add: next_edge_def Let_def)

lemma next_edge_None: "next_edge U H p edge cmd = None \<longleftrightarrow> next_members U edge cmd = []"
  by (simp add: next_edge_def Let_def)

lemma edge_document_count_members: "edge_document_count edge = of_nat (length (members edge))"
  by (cases edge) (simp_all add: edge_document_count_def)

lemma next_members_attach:
  "context_command_operation cmd = Attach \<Longrightarrow>
   set (next_members U edge cmd) = insert (context_command_document_id cmd) (set (members edge))
   \<and> length (next_members U edge cmd) = Suc (length (members edge))"
  by (simp add: next_members_def ids.set_sort_by ids.length_sort_by)

lemma next_members_detach:
  "context_command_operation cmd = Detach \<Longrightarrow>
   set (next_members U edge cmd) = set (members edge) - {context_command_document_id cmd}"
  by (auto simp: next_members_def)


subsection \<open>The reducer implements it\<close>

definition arm_result ::
  "uuid_api \<Rightarrow> (u8 list \<Rightarrow> u8 list) \<Rightarrow> context_catalog \<Rightarrow> context_edge option \<Rightarrow> context_command
   \<Rightarrow> context_edge option \<times> binding_state \<times> u64 \<times> u64" where
  "arm_result U sha256 catalog edge command =
     (let c = context_advance U catalog edge command 0 in
      (next_edge U sha256 (cc_project_id catalog) edge command,
       if context_command_operation command = Attach then Active else Deleted,
       cc_active_edge_count c, cc_bound_document_count c))"

lemma checked_sub_one: "checked_sub n 1 = Some m \<longleftrightarrow> n \<noteq> 0 \<and> m = n - 1" for n :: u64
  by (auto simp: checked_sub_def one_le_iff Suc_le_eq unat_gt_0)

lemma loaded_endpoints:
  assumes "context_loaded U H cat edge cmd ctx"
  shows "endpoints_ok U (cc_project_id cat) (context_command_coordinates cmd)"
    "is_uuid_v4 U (context_command_document_id cmd)"
    "members edge = [] \<or> documents_ok U (members edge)"
  using assms
  by (cases edge; auto simp: context_loaded_def endpoints_ok_def context_catalog_validate_Ok
      context_command_validate_for_project_Ok edge_validate_Ok Let_def)+

lemma reduce_attach_Ok:
  assumes B: "uuid_bytes_ok U" and loaded: "context_loaded U H cat edge cmd ctx"
    and oper: "context_command_operation cmd = Attach"
  shows "reduce_attach U H cat edge owner cmd ctx k = Ok r \<longleftrightarrow>
    context_arm_admissible cat edge owner cmd ctx k \<and> r = arm_result U H cat edge cmd"
proof -
  have nm: "sort_by (uuid_cmp U) ((case edge of None \<Rightarrow> [] | Some e \<Rightarrow> edge_document_ids e)
      @ [context_command_document_id cmd]) = next_members U edge cmd"
    using oper by (cases edge) (simp_all add: next_members_def)
  have nonempty: "next_members U edge cmd \<noteq> []"
    using next_members_attach [OF oper, of U edge] by auto
  have docs: "documents_ok U (next_members U edge cmd) \<longleftrightarrow> context_command_document_id cmd \<notin> set (members edge)"
    using documents_ok_insert [OF B loaded_endpoints(3) [OF loaded]] loaded_endpoints(2) [OF loaded] oper
    by (simp add: next_members_def)
  show ?thesis
    unfolding reduce_attach_def nm Let_def
    using loaded_endpoints(1) [OF loaded] docs nonempty oper
    by (cases owner; cases edge)
      (auto simp: bind_r_Ok_iff edge_from_snapshot_Ok checked_next_Ok context_arm_admissible_def
        arm_result_def context_advance_def next_edge_def invalid_state_def Let_def split: if_splits)
qed

lemma reduce_detach_Ok:
  assumes loaded: "context_loaded U H cat edge cmd ctx"
    and oper: "context_command_operation cmd = Detach"
  shows "reduce_detach U H cat edge owner cmd k = Ok r \<longleftrightarrow>
    context_arm_admissible cat edge owner cmd ctx k \<and> r = arm_result U H cat edge cmd"
proof (cases edge)
  case None
  with oper show ?thesis
    by (cases owner) (auto simp: reduce_detach_def context_arm_admissible_def invalid_state_def Let_def)
next
  case (Some e)
  let ?ids = "filter (\<lambda>i. i \<noteq> context_command_document_id cmd) (edge_document_ids e)"
  have nm: "next_members U edge cmd = ?ids" using oper Some by (simp add: next_members_def)
  have docs: "?ids \<noteq> [] \<Longrightarrow> documents_ok U ?ids"
    using loaded_endpoints(3) [OF loaded] Some by (auto simp: documents_ok_filter)
  have sole: "set (edge_document_ids e) \<subseteq> {context_command_document_id cmd} \<longleftrightarrow> ?ids = []"
    by (auto simp: filter_empty_conv)
  show ?thesis
    using loaded_endpoints(1) [OF loaded] docs oper Some sole nm
    by (cases owner; cases "?ids = []")
      (auto simp: reduce_detach_def bind_r_Ok_iff edge_from_snapshot_Ok ok_or_Ok_iff checked_sub_one
        context_arm_admissible_def arm_result_def context_advance_def next_edge_def invalid_state_def Let_def)
qed

lemma context_advance_simps [simp]:
  "cc_project_id (context_advance U cat edge cmd at) = cc_project_id cat"
  "cc_context_revision (context_advance U cat edge cmd at) = cc_context_revision cat + 1"
  "cc_projection_generation (context_advance U cat edge cmd at) = cc_projection_generation cat"
  "cc_initialized_at (context_advance U cat edge cmd at) = cc_initialized_at cat"
  "cc_updated_at (context_advance U cat edge cmd at) = at"
  by (simp_all add: context_advance_def Let_def)

lemma context_commit_simps [simp]:
  "ct_catalog (context_commit U H cat edge cmd ctx) = context_advance U cat edge cmd (cx_canonical_at ctx)"
  "ct_edge (context_commit U H cat edge cmd ctx) = next_edge U H (cc_project_id cat) edge cmd"
  "bd_edge_key (ct_binding (context_commit U H cat edge cmd ctx)) =
     key_of U H (cc_project_id cat) (context_command_coordinates cmd)"
  "bd_context_document_id (ct_binding (context_commit U H cat edge cmd ctx)) = context_command_document_id cmd"
  "bd_state (ct_binding (context_commit U H cat edge cmd ctx)) =
     (if context_command_operation cmd = Attach then Active else Deleted)"
  by (simp_all add: context_commit_def Let_def)

lemma next_edge_validate:
  assumes "uuid_bytes_ok U" and "context_loaded U H cat edge cmd ctx"
    and "context_arm_admissible cat edge owner cmd ctx k"
  shows "next_edge U H (cc_project_id cat) edge cmd = Some e \<Longrightarrow>
    edge_validate U H (cc_project_id cat) e = Ok ()
    \<and> edge_key e = key_of U H (cc_project_id cat) (context_command_coordinates cmd)"
  using assms loaded_endpoints [OF assms(2)] documents_ok_insert [OF assms(1) loaded_endpoints(3) [OF assms(2)]]
    documents_ok_filter [of U "members edge"]
  by (cases "context_command_operation cmd")
    (auto simp: next_edge_def next_members_def edge_validate_Ok context_arm_admissible_def Let_def
      split: if_splits)

lemma context_commit_binding:
  assumes "context_admissible U H cat edge owner cmd ctx"
  shows "binding_validate U H (cc_project_id cat) (ct_binding (context_commit U H cat edge cmd ctx)) = Ok ()"
proof -
  have "context_loaded U H cat edge cmd ctx" "unat (cc_context_revision cat) < 9007199254740991"
    using assms by (auto simp: context_admissible_def)
  with loaded_endpoints [OF this(1)] succ_safe [of "cc_context_revision cat"] show ?thesis
    by (simp add: binding_validate_Ok context_commit_def Let_def)
qed

lemma context_commit_receipt:
  assumes "context_admissible U H cat edge owner cmd ctx"
  shows "context_receipt_validate U (ct_receipt (context_commit U H cat edge cmd ctx)) = Ok ()"
proof -
  have loaded: "context_loaded U H cat edge cmd ctx" and lt: "unat (cc_context_revision cat) < 9007199254740991"
    and n: "(of_nat (length (next_members U edge cmd)) :: u64) \<le> MAX_SAFE_REVISION"
      "next_members U edge cmd = [] \<longleftrightarrow> (of_nat (length (next_members U edge cmd)) :: u64) = 0"
    using assms by (auto simp: context_admissible_def)
  have "managed_claim_ok U (ccmd_acting_assignment_id cmd) (ccmd_runtime_fence cmd)"
    using loaded by (simp add: context_loaded_def context_command_validate_for_project_Ok Let_def)
  with loaded_endpoints(2) [OF loaded] succ_safe [OF lt] unat_succ_safe [OF lt] n
    next_edge_None [of U H "cc_project_id cat" edge cmd]
  show ?thesis
    by (auto simp: context_receipt_validate_Ok context_commit_def edge_state_def managed_claim_ok_def Let_def)
qed

lemma context_commit_plan:
  assumes "context_admissible U H cat edge owner cmd ctx"
  shows "context_plan_for_transition U H (context_advance U cat edge cmd (cx_canonical_at ctx))
      (ct_binding (context_commit U H cat edge cmd ctx)) (cx_change_id ctx)
    = Ok (ct_projection_plan (context_commit U H cat edge cmd ctx))"
  using context_commit_binding [OF assms] assms
  by (simp add: context_plan_for_transition_Ok context_admissible_def) (simp add: context_commit_def Let_def)

lemma context_commit_validate:
  assumes B: "uuid_bytes_ok U" and adm: "context_admissible U H cat edge owner cmd ctx"
  shows "context_transition_validate U H (context_commit U H cat edge cmd ctx) = Ok ()"
proof -
  let ?t = "context_commit U H cat edge cmd ctx"
  have loaded: "context_loaded U H cat edge cmd ctx"
    and arm: "context_arm_admissible cat edge owner cmd ctx
      (key_of U H (cc_project_id cat) (context_command_coordinates cmd))"
    and cat: "context_catalog_validate U (ct_catalog ?t) = Ok ()"
    using adm by (simp_all add: context_admissible_def)
  have plan: "context_plan_validate U H (ct_projection_plan ?t) = Ok ()"
    using context_commit_plan [OF adm] by (auto simp: context_plan_for_transition_def Let_def then_r_Ok_iff)
  have edge: "(case ct_edge ?t of None \<Rightarrow> Ok () | Some edge \<Rightarrow> then_r (edge_validate U H (cc_project_id cat) edge)
      (if edge_key edge \<noteq> bd_edge_key (ct_binding ?t) then e else Ok ())) = Ok ()" for e
    using next_edge_validate [OF B loaded arm] by (auto split: option.splits)
  have agree: "crc_context_revision (ct_receipt ?t) = cc_context_revision (ct_catalog ?t)"
    "crc_edge_key (ct_receipt ?t) = bd_edge_key (ct_binding ?t)"
    "crc_context_document_id (ct_receipt ?t) = bd_context_document_id (ct_binding ?t)"
    "crc_edge_document_count (ct_receipt ?t) = edge_document_count (ct_edge ?t)"
    "crc_edge_state (ct_receipt ?t) = edge_state (ct_edge ?t)"
    "crc_accepted_at (ct_receipt ?t) = cc_updated_at (ct_catalog ?t)"
    "cpl_catalog (ct_projection_plan ?t) = ct_catalog ?t"
    "cpl_binding (ct_projection_plan ?t) = Some (ct_binding ?t)"
    "cpl_source_event_id (ct_projection_plan ?t) = Some (crc_change_id (ct_receipt ?t))"
    "\<not> cpl_reset (ct_projection_plan ?t)"
    by (simp_all add: context_commit_def edge_document_count_members Let_def)
  have "cc_project_id (ct_catalog ?t) = cc_project_id cat" by simp
  then show ?thesis
    unfolding context_transition_validate_def Let_def agree
    using cat context_commit_binding [OF adm] edge context_commit_receipt [OF adm] plan agree(10)
    by (simp only: then_r_simps refl not_True_eq_False simp_thms if_False)
qed

lemma reduce_context_admissible:
  assumes B: "uuid_bytes_ok U" and adm: "context_admissible U H cat edge owner cmd ctx"
  shows "reduce_project_context U H cat edge owner cmd ctx = Ok (context_commit U H cat edge cmd ctx)"
proof -
  let ?t = "context_commit U H cat edge cmd ctx" and ?p = "cc_project_id cat"
  let ?k = "key_of U H ?p (context_command_coordinates cmd)"
  have loaded: "context_loaded U H cat edge cmd ctx"
    and arm: "context_arm_admissible cat edge owner cmd ctx ?k"
    and rev: "ccmd_expected_context_revision cmd = cc_context_revision cat"
      "unat (cc_context_revision cat) < 9007199254740991"
    and cat': "context_catalog_validate U (ct_catalog ?t) = Ok ()"
    using adm by (simp_all add: context_admissible_def)
  have pre: "context_catalog_validate U cat = Ok ()" "context_command_validate_for_project U ?p cmd = Ok ()"
      "\<not> cx_canonical_at ctx \<le> cc_updated_at cat"
    using loaded by (auto simp: context_loaded_def Let_def)
  have key: "edge_key_derive U H ?p (context_command_coordinates cmd) = Ok ?k"
    using loaded_endpoints(1) [OF loaded] by (simp add: edge_key_derive_iff endpoints_ok_def)
  have cur: "(case edge of None \<Rightarrow> Ok () | Some edge \<Rightarrow> then_r (edge_validate U H ?p edge)
      (if edge_key edge \<noteq> ?k \<or> edge_coordinates edge \<noteq> context_command_coordinates cmd
       then e else Ok ())) = Ok ()" for e
    using loaded by (auto simp: context_loaded_def edge_validate_Ok then_r_Ok_iff Let_def split: option.splits)
  have res: "(case context_command_operation cmd of
      Attach \<Rightarrow> reduce_attach U H cat edge owner cmd ctx ?k
    | Detach \<Rightarrow> reduce_detach U H cat edge owner cmd ?k) = Ok (arm_result U H cat edge cmd)"
    using reduce_attach_Ok [OF B loaded] reduce_detach_Ok [OF loaded] arm
    by (cases "context_command_operation cmd") auto
  have new: "context_catalog_from_snapshot U ?p (cc_context_revision cat + 1)
      (cc_active_edge_count (context_advance U cat edge cmd 0))
      (cc_bound_document_count (context_advance U cat edge cmd 0))
      (cc_projection_generation cat) (cc_initialized_at cat) (cx_canonical_at ctx) = Ok (ct_catalog ?t)"
    using cat' by (simp add: context_catalog_from_snapshot_Ok context_advance_def Let_def)
  have nxt: "checked_next (cc_context_revision cat) = Ok (cc_context_revision cat + 1)"
    using rev(2) by (simp add: checked_next_Ok)
  have parts: "ct_binding ?t = \<lparr>bd_edge_key = ?k, bd_coordinates = context_command_coordinates cmd,
      bd_context_document_id = context_command_document_id cmd,
      bd_state = (if context_command_operation cmd = Attach then Active else Deleted),
      bd_context_revision = cc_context_revision cat + 1, bd_updated_at = cx_canonical_at ctx\<rparr>"
    by (simp add: context_commit_def Let_def)
  show ?thesis
    unfolding reduce_project_context_def Let_def
    using context_commit_validate [OF B adm] context_commit_plan [OF adm] context_commit_binding [OF adm]
      rev pre key cur res new nxt
    by (simp add: arm_result_def parts Let_def split del: if_split)
      (simp add: context_commit_def edge_document_count_members Let_def split del: if_split)
qed

lemma context_advance_record:
  "context_advance U cat edge cmd at =
     \<lparr>cc_project_id = cc_project_id cat, cc_context_revision = cc_context_revision cat + 1,
      cc_active_edge_count = cc_active_edge_count (context_advance U cat edge cmd 0),
      cc_bound_document_count = cc_bound_document_count (context_advance U cat edge cmd 0),
      cc_projection_generation = cc_projection_generation cat,
      cc_initialized_at = cc_initialized_at cat, cc_updated_at = at\<rparr>"
  by (simp add: context_advance_def Let_def)

lemma context_transition_validate_parts:
  "context_transition_validate U H t = Ok () \<Longrightarrow>
   context_catalog_validate U (ct_catalog t) = Ok () \<and> context_receipt_validate U (ct_receipt t) = Ok ()"
  by (simp add: context_transition_validate_def Let_def then_r_Ok_iff)

lemma reduce_context_Ok_admissible:
  assumes B: "uuid_bytes_ok U" and ok: "reduce_project_context U H cat edge owner cmd ctx = Ok t"
  shows "context_admissible U H cat edge owner cmd ctx"
proof -
  let ?p = "cc_project_id cat"
  let ?k = "key_of U H ?p (context_command_coordinates cmd)"
  note inv = ok [unfolded reduce_project_context_def Let_def invalid_state_def,
      simplified then_r_Ok_iff bind_r_Ok_iff if_Err_Ok_iff checked_next_Ok edge_key_derive_iff, simplified]
  have rev: "ccmd_expected_context_revision cmd = cc_context_revision cat"
      "unat (cc_context_revision cat) < 9007199254740991"
    using inv by auto
  have "edge = Some e \<Longrightarrow> edge_validate U H ?p e = Ok () \<and> edge_coordinates e = context_command_coordinates cmd" for e
    using inv by (auto simp: then_r_Ok_iff split: if_splits)
  then have loaded: "context_loaded U H cat edge cmd ctx"
    using inv by (auto simp: context_loaded_def Let_def)
  obtain r where r: "(case context_command_operation cmd of
      Attach \<Rightarrow> reduce_attach U H cat edge owner cmd ctx ?k
    | Detach \<Rightarrow> reduce_detach U H cat edge owner cmd ?k) = Ok r"
    using inv by auto
  then have arm: "context_arm_admissible cat edge owner cmd ctx ?k" and r': "r = arm_result U H cat edge cmd"
    using reduce_attach_Ok [OF B loaded] reduce_detach_Ok [OF loaded]
    by (cases "context_command_operation cmd"; auto)+
  have tv: "context_transition_validate U H t = Ok ()"
    using inv by (auto simp: bind_r_Ok_iff then_r_Ok_iff split: prod.splits)
  have t: "ct_catalog t = context_advance U cat edge cmd (cx_canonical_at ctx)"
      "crc_edge_document_count (ct_receipt t) = of_nat (length (next_members U edge cmd))"
      "crc_edge_state (ct_receipt t) = edge_state (next_edge U H ?p edge cmd)"
    using inv r unfolding r' arm_result_def
    by (auto simp: bind_r_Ok_iff then_r_Ok_iff context_catalog_from_snapshot_Ok
        context_advance_record [of U cat edge cmd "cx_canonical_at ctx"]
        edge_document_count_members Let_def)
  have fin: "context_catalog_validate U (context_advance U cat edge cmd (cx_canonical_at ctx)) = Ok ()
      \<and> (of_nat (length (next_members U edge cmd)) :: u64) \<le> MAX_SAFE_REVISION
      \<and> (next_members U edge cmd = [] \<longleftrightarrow> (of_nat (length (next_members U edge cmd)) :: u64) = 0)"
    using context_transition_validate_parts [OF tv] unfolding t
    by (auto simp: context_receipt_validate_Ok t edge_state_def next_edge_None split: if_splits)
  show ?thesis
    using loaded rev arm fin by (simp add: context_admissible_def)
qed

end
