(* ===== verification/Context_Store.thy ===== *)
theory Context_Store
  imports Context_Reducer
begin

text \<open>
  A project's context hypergraph under the reducer's calling convention
  (\<open>reducer.rs\<close>: the caller loads, under one transaction lock, the active edge of
  the command's derived key and the edge that owns the target document).  The
  store is the catalog, the active edges by key, and the owner of each bound
  document.
\<close>

record context_store =
  cs_catalog :: context_catalog
  cs_edges :: "edge_key \<rightharpoonup> context_edge"
  cs_bound :: "uuid \<rightharpoonup> edge_key"

type_synonym context_event = "context_command \<times> context_change"

definition command_key :: "uuid_api \<Rightarrow> (u8 list \<Rightarrow> u8 list) \<Rightarrow> context_store \<Rightarrow> context_command \<Rightarrow> edge_key" where
  "command_key U sha256 s cmd = key_of U sha256 (cc_project_id (cs_catalog s)) (context_command_coordinates cmd)"

definition loaded_edge :: "uuid_api \<Rightarrow> (u8 list \<Rightarrow> u8 list) \<Rightarrow> context_store \<Rightarrow> context_command \<Rightarrow> context_edge option" where
  "loaded_edge U sha256 s cmd = cs_edges s (command_key U sha256 s cmd)"

definition loaded_owner :: "context_store \<Rightarrow> context_command \<Rightarrow> edge_key option" where
  "loaded_owner s cmd = cs_bound s (context_command_document_id cmd)"

definition context_store_commit :: "context_store \<Rightarrow> context_transition \<Rightarrow> context_store" where
  "context_store_commit s t =
     (let b = ct_binding t in
      \<lparr>cs_catalog = ct_catalog t,
       cs_edges = (cs_edges s)(bd_edge_key b := ct_edge t),
       cs_bound = (cs_bound s)(bd_context_document_id b :=
         (case bd_state b of Active \<Rightarrow> Some (bd_edge_key b) | Deleted \<Rightarrow> None))\<rparr>)"

definition context_step ::
  "uuid_api \<Rightarrow> (u8 list \<Rightarrow> u8 list) \<Rightarrow> context_store \<Rightarrow> context_event \<Rightarrow> context_store \<Rightarrow> bool" where
  "context_step U sha256 s e s' \<longleftrightarrow>
     (\<exists>t. reduce_project_context U sha256 (cs_catalog s) (loaded_edge U sha256 s (fst e))
            (loaded_owner s (fst e)) (fst e) (snd e) = Ok t
        \<and> s' = context_store_commit s t)"

definition empty_context :: "context_catalog \<Rightarrow> context_store" where
  "empty_context cat = \<lparr>cs_catalog = cat, cs_edges = Map.empty, cs_bound = Map.empty\<rparr>"

definition reachable_context :: "uuid_api \<Rightarrow> (u8 list \<Rightarrow> u8 list) \<Rightarrow> context_store \<Rightarrow> bool" where
  "reachable_context U sha256 s \<longleftrightarrow>
     (\<exists>p g i cat es. context_catalog_empty U p g i = Ok cat
        \<and> steps (context_step U sha256) (empty_context cat) es s)"


subsection \<open>Edges and owners\<close>

text \<open>A document is owned by an edge exactly when the edge lists it, and no edge is empty.\<close>

definition owns :: "(edge_key \<rightharpoonup> context_edge) \<Rightarrow> (uuid \<rightharpoonup> edge_key) \<Rightarrow> bool" where
  "owns edges bound \<longleftrightarrow> finite (dom bound)
     \<and> (\<forall>d k. bound d = Some k \<longleftrightarrow> d \<in> set (members (edges k)))
     \<and> (\<forall>k e. edges k = Some e \<longrightarrow> edge_document_ids e \<noteq> [] \<and> distinct (edge_document_ids e))"

lemma owns_ran: "owns edges bound \<Longrightarrow> dom edges = ran bound"
proof (rule set_eqI)
  fix k assume o: "owns edges bound"
  show "k \<in> dom edges \<longleftrightarrow> k \<in> ran bound"
  proof
    assume "k \<in> dom edges"
    then obtain e where "edges k = Some e" by auto
    with o have "hd (edge_document_ids e) \<in> set (members (edges k))" by (auto simp: owns_def)
    with o show "k \<in> ran bound" by (auto simp: owns_def ran_def)
  next
    assume "k \<in> ran bound"
    with o show "k \<in> dom edges" by (cases "edges k") (auto simp: owns_def ran_def)
  qed
qed

lemma owns_counts:
  assumes "owns edges bound"
  shows "finite (dom edges)" "card (dom edges) \<le> card (dom bound)" "dom edges = {} \<longleftrightarrow> dom bound = {}"
    "length (members (edges k)) \<le> card (dom bound)"
proof -
  have fin: "finite (dom bound)" using assms by (simp add: owns_def)
  have ran: "dom edges = (\<lambda>d. the (bound d)) ` dom bound"
    unfolding owns_ran [OF assms] by (force simp: ran_def)
  show "finite (dom edges)" "card (dom edges) \<le> card (dom bound)" "dom edges = {} \<longleftrightarrow> dom bound = {}"
    using fin by (auto simp: ran card_image_le)
  have "set (members (edges k)) \<subseteq> dom bound" "distinct (members (edges k))"
    using assms by (auto simp: owns_def members_def split: option.splits)
  with fin show "length (members (edges k)) \<le> card (dom bound)"
    by (metis card_mono distinct_card)
qed

lemma owns_attach:
  assumes "owns edges bound" and "bound d = None" and "edge_document_ids e \<noteq> []"
    and "distinct (edge_document_ids e)" and "set (edge_document_ids e) = insert d (set (members (edges k)))"
  shows "owns (edges(k \<mapsto> e)) (bound(d \<mapsto> k))"
proof -
  have iff: "d' \<in> set (members (edges k')) \<longleftrightarrow> bound d' = Some k'" for d' k'
    using assms(1) by (simp add: owns_def)
  have "(bound(d \<mapsto> k)) d' = Some k' \<longleftrightarrow> d' \<in> set (members ((edges(k \<mapsto> e)) k'))" for d' k'
    using assms(2) by (auto simp: assms(5) iff)
  moreover have "finite (dom (bound(d \<mapsto> k)))" using assms(1) by (simp add: owns_def)
  ultimately show ?thesis using assms(1,3,4) unfolding owns_def by simp
qed

lemma owns_detach:
  assumes "owns edges bound" and "bound d = Some k"
    and "set (members edge) = set (members (edges k)) - {d}"
    and "\<And>e. edge = Some e \<Longrightarrow> edge_document_ids e \<noteq> [] \<and> distinct (edge_document_ids e)"
  shows "owns (edges(k := edge)) (bound(d := None))"
proof -
  have iff: "d' \<in> set (members (edges k')) \<longleftrightarrow> bound d' = Some k'" for d' k'
    using assms(1) by (simp add: owns_def)
  have "(bound(d := None)) d' = Some k' \<longleftrightarrow> d' \<in> set (members ((edges(k := edge)) k'))" for d' k'
    using assms(2) by (auto simp: assms(3) iff)
  moreover have "finite (dom (bound(d := None)))" using assms(1) by (simp add: owns_def)
  ultimately show ?thesis using assms(1,4) unfolding owns_def by simp
qed


subsection \<open>The store invariant\<close>

definition context_inv :: "uuid_api \<Rightarrow> (u8 list \<Rightarrow> u8 list) \<Rightarrow> context_store \<Rightarrow> bool" where
  "context_inv U sha256 s \<longleftrightarrow>
     context_catalog_validate U (cs_catalog s) = Ok ()
     \<and> owns (cs_edges s) (cs_bound s)
     \<and> (\<forall>k e. cs_edges s k = Some e \<longrightarrow>
          edge_validate U sha256 (cc_project_id (cs_catalog s)) e = Ok () \<and> edge_key e = k)
     \<and> unat (cc_active_edge_count (cs_catalog s)) = card (dom (cs_edges s))
     \<and> unat (cc_bound_document_count (cs_catalog s)) = card (dom (cs_bound s))
     \<and> cc_bound_document_count (cs_catalog s) \<le> cc_context_revision (cs_catalog s)"

text \<open>The store an admitted command leaves, over the abstract transition.\<close>

definition context_next ::
  "uuid_api \<Rightarrow> (u8 list \<Rightarrow> u8 list) \<Rightarrow> context_store \<Rightarrow> context_event \<Rightarrow> context_store" where
  "context_next U sha256 s e = context_store_commit s
     (context_commit U sha256 (cs_catalog s) (loaded_edge U sha256 s (fst e)) (fst e) (snd e))"

lemma context_step_iff:
  assumes "uuid_bytes_ok U"
  shows "context_step U H s e s' \<longleftrightarrow>
    context_admissible U H (cs_catalog s) (loaded_edge U H s (fst e)) (loaded_owner s (fst e)) (fst e) (snd e)
    \<and> s' = context_next U H s e"
  unfolding context_step_def context_next_def
  using reduce_context_admissible [OF assms] reduce_context_Ok_admissible [OF assms] by fastforce

lemma context_next_simps [simp]:
  "cs_catalog (context_next U H s e) =
     context_advance U (cs_catalog s) (loaded_edge U H s (fst e)) (fst e) (cx_canonical_at (snd e))"
  "cs_edges (context_next U H s e) = (cs_edges s)(command_key U H s (fst e) :=
     next_edge U H (cc_project_id (cs_catalog s)) (loaded_edge U H s (fst e)) (fst e))"
  "cs_bound (context_next U H s e) = (cs_bound s)(context_command_document_id (fst e) :=
     (if context_command_operation (fst e) = Attach then Some (command_key U H s (fst e)) else None))"
  by (simp_all add: context_next_def context_store_commit_def command_key_def Let_def)

text \<open>A command the arms admit on a loaded store.\<close>

definition context_applies ::
  "uuid_api \<Rightarrow> (u8 list \<Rightarrow> u8 list) \<Rightarrow> context_store \<Rightarrow> context_command \<Rightarrow> context_change \<Rightarrow> bool" where
  "context_applies U sha256 s cmd ctx \<longleftrightarrow>
     context_loaded U sha256 (cs_catalog s) (loaded_edge U sha256 s cmd) cmd ctx
     \<and> context_arm_admissible (cs_catalog s) (loaded_edge U sha256 s cmd) (loaded_owner s cmd) cmd ctx
         (command_key U sha256 s cmd)"

lemma next_members_props:
  assumes "uuid_bytes_ok U" and "context_applies U H s cmd ctx"
  shows "next_members U (loaded_edge U H s cmd) cmd \<noteq> [] \<Longrightarrow>
    distinct (next_members U (loaded_edge U H s cmd) cmd)"
proof -
  let ?p = "cc_project_id (cs_catalog s)" and ?edge = "loaded_edge U H s cmd"
  assume "next_members U ?edge cmd \<noteq> []"
  then obtain e where e: "next_edge U H ?p ?edge cmd = Some e" "edge_document_ids e = next_members U ?edge cmd"
    by (auto simp: next_edge_def Let_def)
  have "context_loaded U H (cs_catalog s) ?edge cmd ctx"
      "context_arm_admissible (cs_catalog s) ?edge (loaded_owner s cmd) cmd ctx (command_key U H s cmd)"
    using assms(2) by (simp_all add: context_applies_def)
  from next_edge_validate [OF assms(1) this e(1)] e(2) have "documents_ok U (next_members U ?edge cmd)"
    by (simp add: edge_validate_Ok)
  then show ?thesis by (simp add: documents_ok_def strict_ids_iff [OF assms(1)])
qed

lemma context_next_owns:
  assumes B: "uuid_bytes_ok U" and o: "owns (cs_edges s) (cs_bound s)" and app: "context_applies U H s cmd ctx"
  shows "owns (cs_edges (context_next U H s (cmd, ctx))) (cs_bound (context_next U H s (cmd, ctx)))"
proof (cases "context_command_operation cmd")
  case Attach
  let ?edge = "loaded_edge U H s cmd"
  have ids: "set (next_members U ?edge cmd) = insert (context_command_document_id cmd) (set (members ?edge))"
    using next_members_attach [OF Attach] by simp
  then have ne: "next_members U ?edge cmd \<noteq> []" by auto
  have "cs_bound s (context_command_document_id cmd) = None"
    using app Attach by (auto simp: context_applies_def context_arm_admissible_def loaded_owner_def Let_def)
  with owns_attach [OF o] ids ne next_members_props [OF B app ne] Attach show ?thesis
    by (simp add: next_edge_def loaded_edge_def Let_def)
next
  case Detach
  let ?edge = "loaded_edge U H s cmd"
  have "cs_bound s (context_command_document_id cmd) = Some (command_key U H s cmd)"
    using app Detach by (auto simp: context_applies_def context_arm_admissible_def loaded_owner_def Let_def)
  moreover have "edge_document_ids e \<noteq> [] \<and> distinct (edge_document_ids e)"
    if "next_edge U H (cc_project_id (cs_catalog s)) ?edge cmd = Some e" for e
    using that next_members_props [OF B app] by (auto simp: next_edge_def Let_def split: if_splits)
  ultimately show ?thesis
    using owns_detach [OF o, of _ _ "next_edge U H (cc_project_id (cs_catalog s)) ?edge cmd"]
      next_members_detach [OF Detach] Detach
    by (simp add: loaded_edge_def)
qed

lemma context_next_counts:
  assumes inv: "context_inv U H s" and app: "context_applies U H s cmd ctx"
  shows "unat (cc_active_edge_count (cs_catalog (context_next U H s (cmd, ctx))))
      = card (dom (cs_edges (context_next U H s (cmd, ctx))))"
    "unat (cc_bound_document_count (cs_catalog (context_next U H s (cmd, ctx))))
      = card (dom (cs_bound (context_next U H s (cmd, ctx))))"
proof -
  let ?edge = "loaded_edge U H s cmd" and ?k = "command_key U H s cmd" and ?d = "context_command_document_id cmd"
  have o: "owns (cs_edges s) (cs_bound s)" using inv by (simp add: context_inv_def)
  have fin: "finite (dom (cs_bound s))" using o by (simp add: owns_def)
  note fine = owns_counts(1) [OF o]
  have n: "unat (cc_active_edge_count (cs_catalog s)) = card (dom (cs_edges s))"
      "unat (cc_bound_document_count (cs_catalog s)) = card (dom (cs_bound s))"
    using inv by (auto simp: context_inv_def)
  have k: "?edge = None \<longleftrightarrow> ?k \<notin> dom (cs_edges s)" by (auto simp: loaded_edge_def domIff)
  let ?s = "context_next U H s (cmd, ctx)"
  have goal: "unat (cc_active_edge_count (cs_catalog ?s)) = card (dom (cs_edges ?s))
      \<and> unat (cc_bound_document_count (cs_catalog ?s)) = card (dom (cs_bound ?s))"
  proof (cases "context_command_operation cmd")
    case Attach
    then have arm: "?d \<notin> dom (cs_bound s)" "unat (cc_bound_document_count (cs_catalog s)) < 9007199254740991"
        "?edge = None \<longrightarrow> unat (cc_active_edge_count (cs_catalog s)) < 9007199254740991"
      using app by (auto simp: context_applies_def context_arm_admissible_def loaded_owner_def domIff Let_def)
    have "next_members U ?edge cmd \<noteq> []" using next_members_attach [OF Attach, of U ?edge] by auto
    then have doms: "dom (cs_edges ?s) = insert ?k (dom (cs_edges s))" "dom (cs_bound ?s) = insert ?d (dom (cs_bound s))"
      using Attach by (simp_all add: next_edge_def Let_def)
    have "cc_active_edge_count (cs_catalog ?s) =
        (if ?edge = None then cc_active_edge_count (cs_catalog s) + 1 else cc_active_edge_count (cs_catalog s))"
        "cc_bound_document_count (cs_catalog ?s) = cc_bound_document_count (cs_catalog s) + 1"
      using Attach by (simp_all add: context_advance_def Let_def)
    then show ?thesis
      unfolding doms using n fin fine k arm
      by (cases "?edge = None") (simp_all add: unat_succ_safe insert_absorb)
  next
    case Detach
    then have arm: "?d \<in> dom (cs_bound s)" "cc_bound_document_count (cs_catalog s) \<noteq> 0" "?k \<in> dom (cs_edges s)"
        "next_members U ?edge cmd = [] \<longrightarrow> cc_active_edge_count (cs_catalog s) \<noteq> 0"
      using app next_members_detach [OF Detach, of U ?edge] k
      by (cases ?edge; force simp: context_applies_def context_arm_admissible_def loaded_owner_def Let_def)+
    then have doms: "dom (cs_edges ?s) =
        (if next_members U ?edge cmd = [] then dom (cs_edges s) - {?k} else dom (cs_edges s))"
        "dom (cs_bound ?s) = dom (cs_bound s) - {?d}"
      using Detach by (auto simp: next_edge_def Let_def)
    have "cc_active_edge_count (cs_catalog ?s) = (if next_members U ?edge cmd = []
          then cc_active_edge_count (cs_catalog s) - 1 else cc_active_edge_count (cs_catalog s))"
        "cc_bound_document_count (cs_catalog ?s) = cc_bound_document_count (cs_catalog s) - 1"
      using Detach by (simp_all add: context_advance_def Let_def)
    then show ?thesis
      unfolding doms using n fin fine arm
      by (cases "next_members U ?edge cmd = []") (simp_all add: unat_pred)
  qed
  then show "unat (cc_active_edge_count (cs_catalog (context_next U H s (cmd, ctx))))
      = card (dom (cs_edges (context_next U H s (cmd, ctx))))"
    "unat (cc_bound_document_count (cs_catalog (context_next U H s (cmd, ctx))))
      = card (dom (cs_bound (context_next U H s (cmd, ctx))))" by simp_all
qed

lemma context_next_bound:
  assumes inv: "context_inv U H s" and app: "context_applies U H s cmd ctx"
    and lt: "unat (cc_context_revision (cs_catalog s)) < 9007199254740991"
  shows "cc_bound_document_count (cs_catalog (context_next U H s (cmd, ctx))) \<le> cc_context_revision (cs_catalog s) + 1"
proof -
  let ?n = "cc_bound_document_count (cs_catalog s)" and ?r = "cc_context_revision (cs_catalog s)"
  have le: "unat ?n \<le> unat ?r" using inv by (simp add: context_inv_def word_le_nat_alt)
  have r: "unat (?r + 1) = unat ?r + 1" using lt by (rule unat_succ_safe)
  show ?thesis
  proof (cases "context_command_operation cmd")
    case Attach
    have "unat (?n + 1) = unat ?n + 1" using le lt by (intro unat_succ_safe) simp
    with Attach le r show ?thesis by (simp add: context_advance_def word_le_nat_alt Let_def)
  next
    case Detach
    have "?n \<noteq> 0"
      using app Detach by (simp add: context_applies_def context_arm_admissible_def Let_def)
    then have "unat (?n - 1) = unat ?n - 1" by (rule unat_pred)
    with Detach le r show ?thesis by (simp add: context_advance_def word_le_nat_alt Let_def)
  qed
qed

lemma applies_admissible:
  assumes B: "uuid_bytes_ok U" and inv: "context_inv U H s" and app: "context_applies U H s cmd ctx"
    and lt: "unat (cc_context_revision (cs_catalog s)) < 9007199254740991"
    and expd: "ccmd_expected_context_revision cmd = cc_context_revision (cs_catalog s)"
  shows "context_admissible U H (cs_catalog s) (loaded_edge U H s cmd) (loaded_owner s cmd) cmd ctx"
proof -
  let ?s = "context_next U H s (cmd, ctx)" and ?ids = "next_members U (loaded_edge U H s cmd) cmd"
  have o: "owns (cs_edges s) (cs_bound s)" and cat: "context_catalog_validate U (cs_catalog s) = Ok ()"
    using inv by (simp_all add: context_inv_def)
  note o' = context_next_owns [OF B o app] and n' = context_next_counts [OF inv app]
    and b' = context_next_bound [OF inv app lt]
  have fin: "finite (dom (cs_edges ?s))" "finite (dom (cs_bound ?s))"
    using owns_counts(1) [OF o'] o' by (simp_all add: owns_def)
  have le: "cc_active_edge_count (cs_catalog ?s) \<le> cc_bound_document_count (cs_catalog ?s)"
    using n' owns_counts(2) [OF o'] by (simp add: word_le_nat_alt)
  have zero: "cc_active_edge_count (cs_catalog ?s) = 0 \<longleftrightarrow> cc_bound_document_count (cs_catalog ?s) = 0"
    using n' owns_counts(3) [OF o'] fin
    by (simp only: unat_eq_0 [symmetric] card_0_eq)
  have "cc_updated_at (cs_catalog s) < cx_canonical_at ctx"
    using app by (simp add: context_applies_def context_loaded_def Let_def)
  then have cat': "context_catalog_validate U (cs_catalog ?s) = Ok ()"
    using cat le zero b' succ_safe [OF lt] by (auto simp: context_catalog_validate_Ok)
  have "length ?ids \<le> card (dom (cs_bound ?s))"
    using owns_counts(4) [OF o', of "command_key U H s cmd"] by simp
  also have "\<dots> \<le> 9007199254740991"
    using n'(2) b' succ_safe [OF lt] by (simp add: word_le_nat_alt)
  finally have len: "unat (of_nat (length ?ids) :: u64) = length ?ids" "length ?ids \<le> 9007199254740991"
    by (simp_all add: unsigned_of_nat take_bit_nat_eq_self_iff)
  then have ids: "(of_nat (length ?ids) :: u64) \<le> MAX_SAFE_REVISION"
      "?ids = [] \<longleftrightarrow> (of_nat (length ?ids) :: u64) = 0"
    by (simp_all add: le_MAX_SAFE_iff flip: unat_eq_0)
  show ?thesis
    using app expd lt cat' ids by (simp add: context_admissible_def context_applies_def command_key_def)
qed

lemma context_inv_step:
  assumes B: "uuid_bytes_ok U" and inv: "context_inv U H s" and step: "context_step U H s e s'"
  shows "context_inv U H s'"
proof -
  obtain cmd ctx where e: "e = (cmd, ctx)" by (cases e)
  have adm: "context_admissible U H (cs_catalog s) (loaded_edge U H s cmd) (loaded_owner s cmd) cmd ctx"
    and s': "s' = context_next U H s (cmd, ctx)"
    using step by (auto simp: context_step_iff [OF B] e)
  have app: "context_applies U H s cmd ctx"
    and lt: "unat (cc_context_revision (cs_catalog s)) < 9007199254740991"
    and cat: "context_catalog_validate U (cs_catalog s') = Ok ()"
    using adm by (auto simp: s' context_admissible_def context_applies_def command_key_def)
  have o: "owns (cs_edges s) (cs_bound s)" using inv by (simp add: context_inv_def)
  have loaded: "context_loaded U H (cs_catalog s) (loaded_edge U H s cmd) cmd ctx"
      "context_arm_admissible (cs_catalog s) (loaded_edge U H s cmd) (loaded_owner s cmd) cmd ctx
        (command_key U H s cmd)"
    using app by (auto simp: context_applies_def)
  have edges: "edge_validate U H (cc_project_id (cs_catalog s')) x = Ok () \<and> edge_key x = k"
    if "cs_edges s' k = Some x" for k x
    using that next_edge_validate [OF B loaded] inv
    by (auto simp: s' context_inv_def command_key_def split: if_splits)
  show ?thesis
    using cat edges context_next_owns [OF B o app] context_next_counts [OF inv app]
      context_next_bound [OF inv app lt]
    unfolding context_inv_def s' by auto
qed

lemma context_inv_empty: "context_catalog_empty U p g i = Ok cat \<Longrightarrow> context_inv U H (empty_context cat)"
  by (auto simp: context_catalog_empty_def context_catalog_from_snapshot_Ok context_inv_def
      empty_context_def owns_def)

lemma reachable_context_inv: "uuid_bytes_ok U \<Longrightarrow> reachable_context U H s \<Longrightarrow> context_inv U H s"
  unfolding reachable_context_def
  by (auto intro: steps_invariant [where I = "context_inv U H"] context_inv_empty context_inv_step)


subsection \<open>Every outcome\<close>

text \<open>
  The reasons for which a submitted command is refused, in the order in which
  the reducer looks for them.  The third is the refusal to merge two coordinate
  sets whose digests collide.
\<close>

definition context_rejection ::
  "context_catalog \<Rightarrow> context_edge option \<Rightarrow> edge_key option \<Rightarrow> edge_key \<Rightarrow> context_command
   \<Rightarrow> context_change \<Rightarrow> context_error option" where
  "context_rejection catalog edge owner key command context =
     (let d = context_command_document_id command; cs = context_command_coordinates command in
      if ccmd_expected_context_revision command \<noteq> cc_context_revision catalog
      then Some (RevisionConflict (ccmd_expected_context_revision command) (cc_context_revision catalog))
      else if 2 ^ 32 \<le> length cs
      then Some (InvalidCoordinate ''coordinate count exceeds the edge-key-v1 u32 identity encoding'')
      else if (case edge of None \<Rightarrow> False | Some e \<Rightarrow> edge_coordinates e \<noteq> cs)
      then Some (InvalidCanonicalState ''loaded active edge key or canonical coordinates do not match the command'')
      else if cc_context_revision catalog = MAX_SAFE_REVISION then Some RevisionExhausted
      else (case context_command_operation command of
          Attach \<Rightarrow>
            if \<not> cx_all_coordinates_active context then Some InactiveCoordinate
            else if \<not> cx_context_document_active context then Some (InactiveContextDocument d)
            else (case owner of
                None \<Rightarrow> None
              | Some k \<Rightarrow> if k = key then Some NoChange else Some (DocumentAlreadyBound d k))
        | Detach \<Rightarrow>
            (case owner of
                None \<Rightarrow> Some (BindingNotFound d)
              | Some k \<Rightarrow> if k = key then None else Some (BindingEdgeMismatch d k))))"

lemma inv_owner:
  assumes "context_inv U H s"
  shows "loaded_owner s cmd = Some (command_key U H s cmd) \<longleftrightarrow>
    context_command_document_id cmd \<in> set (members (loaded_edge U H s cmd))"
  using assms by (simp add: context_inv_def owns_def loaded_owner_def loaded_edge_def)

lemma inv_counts_lt:
  assumes "context_inv U H s" and "unat (cc_context_revision (cs_catalog s)) < 9007199254740991"
  shows "unat (cc_bound_document_count (cs_catalog s)) < 9007199254740991"
    "unat (cc_active_edge_count (cs_catalog s)) < 9007199254740991"
  using assms by (auto simp: context_inv_def context_catalog_validate_Ok word_le_nat_alt)

lemma inv_counts_pos:
  assumes "context_inv U H s" and "loaded_owner s cmd = Some k"
  shows "cc_bound_document_count (cs_catalog s) \<noteq> 0" "cc_active_edge_count (cs_catalog s) \<noteq> 0"
proof -
  have "context_command_document_id cmd \<in> dom (cs_bound s)" "finite (dom (cs_bound s))"
    using assms by (auto simp: loaded_owner_def context_inv_def owns_def)
  then have "card (dom (cs_bound s)) \<noteq> 0" by auto
  then show bound: "cc_bound_document_count (cs_catalog s) \<noteq> 0"
    using assms(1) by (auto simp: context_inv_def)
  then show "cc_active_edge_count (cs_catalog s) \<noteq> 0"
    using assms(1) by (simp add: context_inv_def context_catalog_validate_Ok)
qed

lemma context_rejection_None:
  assumes inv: "context_inv U H s"
    and sub: "context_command_validate_for_project U (cc_project_id (cs_catalog s)) cmd = Ok ()"
      "cc_updated_at (cs_catalog s) < cx_canonical_at ctx"
    and none: "context_rejection (cs_catalog s) (loaded_edge U H s cmd) (loaded_owner s cmd)
      (command_key U H s cmd) cmd ctx = None"
  shows "context_applies U H s cmd ctx"
    "unat (cc_context_revision (cs_catalog s)) < 9007199254740991"
    "ccmd_expected_context_revision cmd = cc_context_revision (cs_catalog s)"
proof -
  have cat: "context_catalog_validate U (cs_catalog s) = Ok ()" using inv by (simp add: context_inv_def)
  show expd: "ccmd_expected_context_revision cmd = cc_context_revision (cs_catalog s)"
    and lt: "unat (cc_context_revision (cs_catalog s)) < 9007199254740991"
    using none cat
    by (auto simp: context_rejection_def context_catalog_validate_Ok word_unat_eq_iff le_MAX_SAFE_iff Let_def
        split: if_splits)
  have edge: "edge_validate U H (cc_project_id (cs_catalog s)) e = Ok ()
      \<and> edge_coordinates e = context_command_coordinates cmd" if "loaded_edge U H s cmd = Some e" for e
    using that inv none
    by (auto simp: context_inv_def loaded_edge_def context_rejection_def Let_def split: if_splits)
  then have loaded: "context_loaded U H (cs_catalog s) (loaded_edge U H s cmd) cmd ctx"
    using none cat sub
    by (auto simp: context_loaded_def context_rejection_def not_le Let_def split: if_splits)
  have "context_arm_admissible (cs_catalog s) (loaded_edge U H s cmd) (loaded_owner s cmd) cmd ctx
      (command_key U H s cmd)"
    using none inv_owner [OF inv, of cmd] inv_counts_lt [OF inv lt] inv_counts_pos [OF inv, of cmd]
    by (cases "context_command_operation cmd")
      (auto simp: context_arm_admissible_def context_rejection_def Let_def split: if_splits option.splits)
  with loaded show "context_applies U H s cmd ctx" by (simp add: context_applies_def)
qed

lemma context_rejected:
  assumes inv: "context_inv U H s"
    and sub: "context_command_validate_for_project U (cc_project_id (cs_catalog s)) cmd = Ok ()"
      "cc_updated_at (cs_catalog s) < cx_canonical_at ctx"
    and rej: "context_rejection (cs_catalog s) (loaded_edge U H s cmd) (loaded_owner s cmd)
      (command_key U H s cmd) cmd ctx = Some err"
  shows "reduce_project_context U H (cs_catalog s) (loaded_edge U H s cmd) (loaded_owner s cmd) cmd ctx = Err err"
proof -
  let ?p = "cc_project_id (cs_catalog s)" and ?cs = "context_command_coordinates cmd"
  let ?edge = "loaded_edge U H s cmd" and ?k = "command_key U H s cmd"
  have pre: "context_catalog_validate U (cs_catalog s) = Ok ()" "\<not> cx_canonical_at ctx \<le> cc_updated_at (cs_catalog s)"
    using inv sub by (auto simp: context_inv_def)
  have ok: "is_uuid_v4 U ?p" "validate_canonical_coordinates U ?cs = Ok ()"
    using pre sub(1) by (auto simp: context_catalog_validate_Ok context_command_validate_for_project_Ok)
  have derive: "edge_key_derive U H ?p ?cs =
      (if length ?cs < 2 ^ 32 then Ok ?k
       else Err (InvalidCoordinate ''coordinate count exceeds the edge-key-v1 u32 identity encoding''))"
    using ok by (simp add: edge_key_derive_def u32_try_from_def validate_uuid_v4_Ok [THEN iffD2]
        command_key_def key_of_def)
  have valid: "?edge = Some e \<Longrightarrow> edge_validate U H ?p e = Ok () \<and> edge_key e = ?k" for e
    using inv by (auto simp: context_inv_def loaded_edge_def)
  have owner: "loaded_owner s cmd = Some ?k \<Longrightarrow> \<exists>e. ?edge = Some e \<and> context_command_document_id cmd \<in> set (edge_document_ids e)"
    using inv_owner [OF inv, of cmd] by (cases ?edge) auto
  have next_rev: "cc_context_revision (cs_catalog s) \<noteq> MAX_SAFE_REVISION \<Longrightarrow>
      checked_next (cc_context_revision (cs_catalog s)) = Ok (cc_context_revision (cs_catalog s) + 1)"
    using pre(1) by (auto simp: checked_next_Ok context_catalog_validate_Ok word_unat_eq_iff le_MAX_SAFE_iff)
  show ?thesis
    using rej valid owner next_rev
    by (cases "context_command_operation cmd"; cases ?edge)
      (auto simp: reduce_project_context_def context_rejection_def pre sub derive reduce_attach_def
        reduce_detach_def invalid_state_def checked_next_Err Let_def split: if_splits option.splits)
qed

lemma context_outcome_inv:
  assumes B: "uuid_bytes_ok U" and inv: "context_inv U H s"
    and sub: "context_command_validate_for_project U (cc_project_id (cs_catalog s)) cmd = Ok ()"
      "cc_updated_at (cs_catalog s) < cx_canonical_at ctx"
  shows "reduce_project_context U H (cs_catalog s) (loaded_edge U H s cmd) (loaded_owner s cmd) cmd ctx =
    (case context_rejection (cs_catalog s) (loaded_edge U H s cmd) (loaded_owner s cmd)
        (command_key U H s cmd) cmd ctx of
       Some e \<Rightarrow> Err e
     | None \<Rightarrow> Ok (context_commit U H (cs_catalog s) (loaded_edge U H s cmd) cmd ctx))"
proof (cases "context_rejection (cs_catalog s) (loaded_edge U H s cmd) (loaded_owner s cmd)
    (command_key U H s cmd) cmd ctx")
  case None
  from context_rejection_None [OF inv sub None] applies_admissible [OF B inv] reduce_context_admissible [OF B]
  show ?thesis by (simp add: None)
qed (simp add: context_rejected [OF inv sub])


subsection \<open>Runs\<close>

lemma reduce_context_catalog:
  assumes "reduce_project_context U H cat edge owner cmd ctx = Ok t"
  shows "context_catalog_validate U (ct_catalog t) = Ok ()
    \<and> checked_succ (cc_context_revision cat) = Some (cc_context_revision (ct_catalog t))
    \<and> cc_updated_at cat < cc_updated_at (ct_catalog t)"
proof -
  note inv = assms [unfolded reduce_project_context_def Let_def invalid_state_def,
      simplified then_r_Ok_iff bind_r_Ok_iff if_Err_Ok_iff checked_next_Ok edge_key_derive_iff, simplified]
  show ?thesis
    using inv by (auto simp: bind_r_Ok_iff then_r_Ok_iff context_catalog_from_snapshot_Ok checked_succ_plus_one
        split: prod.splits)
qed

lemma context_step_catalog:
  assumes "context_step U H s e t"
  shows "context_catalog_validate U (cs_catalog t) = Ok ()"
    "checked_succ (cc_context_revision (cs_catalog s)) = Some (cc_context_revision (cs_catalog t))"
    "cc_updated_at (cs_catalog s) < cc_updated_at (cs_catalog t)"
  using assms reduce_context_catalog
  by (auto simp: context_step_def context_store_commit_def Let_def)

interpretation ctxt: revisioned "context_step U H" "\<lambda>s. cc_context_revision (cs_catalog s)"
  "\<lambda>s. cc_updated_at (cs_catalog s)" "\<lambda>s. context_catalog_validate U (cs_catalog s) = Ok ()" for U H
  by unfold_locales (fact context_step_catalog)+

lemma context_run_single: "context_step U H s e t \<Longrightarrow> steps (context_step U H) s [e] t"
  by (rule steps_single)

lemma reachable_context_steps:
  "reachable_context U H s \<Longrightarrow> steps (context_step U H) s es t \<Longrightarrow> reachable_context U H t"
  unfolding reachable_context_def by (meson steps_trans)

lemma context_step_next:
  assumes "uuid_bytes_ok U" and "context_inv U H s"
    and "context_command_validate_for_project U (cc_project_id (cs_catalog s)) (fst e) = Ok ()"
    and "cc_updated_at (cs_catalog s) < cx_canonical_at (snd e)"
    and "context_rejection (cs_catalog s) (loaded_edge U H s (fst e)) (loaded_owner s (fst e))
        (command_key U H s (fst e)) (fst e) (snd e) = None"
  shows "context_step U H s e (context_next U H s e)"
  using context_outcome_inv [OF assms(1-4)] assms(5) by (simp add: context_step_def context_next_def)


subsection \<open>Attach then detach\<close>

lemma filter_insert_id:
  assumes B: "uuid_bytes_ok U" and ds: "ds = [] \<or> documents_ok U ds" and "d \<notin> set ds"
  shows "filter (\<lambda>i. i \<noteq> d) (sort_by (uuid_cmp U) (ds @ [d])) = ds"
proof (rule total_comparison.sorted_distinct_unique [OF uuid_total [OF B]])
  let ?s = "sort_by (uuid_cmp U) (ds @ [d])"
  show "sorted_wrt (\<lambda>a b. uuid_cmp U a b \<noteq> Greater) (filter (\<lambda>i. i \<noteq> d) ?s)"
    by (rule sorted_wrt_filter [OF ids.sorted_sort_by])
  show sd: "sorted_wrt (\<lambda>a b. uuid_cmp U a b \<noteq> Greater) ds" "distinct ds"
    using ds by (auto simp: documents_ok_def strict_ids_iff [OF B])
  show "distinct (filter (\<lambda>i. i \<noteq> d) ?s)"
    using sd(2) assms(3) total_comparison.distinct_sort_by [OF uuid_total [OF B], of "ds @ [d]"] by simp
  show "set (filter (\<lambda>i. i \<noteq> d) ?s) = set ds"
    using assms(3) by (auto simp: ids.set_sort_by)
qed

lemma attach_detach_edge:
  assumes B: "uuid_bytes_ok U" and loaded: "context_loaded U H cat edge cmd ctx"
    and arm: "context_arm_admissible cat edge owner cmd ctx k"
    and oper: "context_command_operation cmd = Attach" "context_command_operation cmd2 = Detach"
    and same: "context_command_coordinates cmd2 = context_command_coordinates cmd"
      "context_command_document_id cmd2 = context_command_document_id cmd"
  shows "next_edge U H (cc_project_id cat) (next_edge U H (cc_project_id cat) edge cmd) cmd2 = edge"
proof -
  have "context_command_document_id cmd \<notin> set (members edge)"
    using arm oper(1) by (simp add: context_arm_admissible_def Let_def)
  then have "next_members U (next_edge U H (cc_project_id cat) edge cmd) cmd2 = members edge"
    using filter_insert_id [OF B loaded_endpoints(3) [OF loaded]] oper same
    by (simp add: next_members_def [of U _ cmd2]) (simp add: next_members_def)
  with loaded same(1) show ?thesis
    by (cases edge)
      (auto simp: next_edge_def [of U H _ _ cmd2] context_loaded_def edge_validate_Ok documents_ok_def Let_def)
qed

lemma attach_detach:
  assumes B: "uuid_bytes_ok U" and inv: "context_inv U H s" and step: "context_step U H s (cmd, ctx) s'"
    and oper: "context_command_operation cmd = Attach" "context_command_operation cmd2 = Detach"
    and same: "context_command_coordinates cmd2 = context_command_coordinates cmd"
      "context_command_document_id cmd2 = context_command_document_id cmd"
    and fresh: "ccmd_expected_context_revision cmd2 = cc_context_revision (cs_catalog s')"
      "cc_context_revision (cs_catalog s') \<noteq> MAX_SAFE_REVISION"
    and sub: "context_command_validate_for_project U (cc_project_id (cs_catalog s')) cmd2 = Ok ()"
      "cc_updated_at (cs_catalog s') < cx_canonical_at ctx2"
  shows "\<exists>s''. context_step U H s' (cmd2, ctx2) s'' \<and> cs_edges s'' = cs_edges s \<and> cs_bound s'' = cs_bound s"
proof -
  have adm: "context_admissible U H (cs_catalog s) (loaded_edge U H s cmd) (loaded_owner s cmd) cmd ctx"
    and s': "s' = context_next U H s (cmd, ctx)"
    using step by (auto simp: context_step_iff [OF B])
  then have loaded: "context_loaded U H (cs_catalog s) (loaded_edge U H s cmd) cmd ctx"
    and arm: "context_arm_admissible (cs_catalog s) (loaded_edge U H s cmd) (loaded_owner s cmd) cmd ctx (command_key U H s cmd)"
    by (auto simp: context_admissible_def command_key_def)
  have inv': "context_inv U H s'" using context_inv_step [OF B inv step] .
  have key: "command_key U H s' cmd2 = command_key U H s cmd" using same by (simp add: s' command_key_def)
  have owner: "loaded_owner s' cmd2 = Some (command_key U H s' cmd2)"
    unfolding key using oper(1) same(2) by (simp add: s' loaded_owner_def)
  have edge: "loaded_edge U H s' cmd2 = next_edge U H (cc_project_id (cs_catalog s)) (loaded_edge U H s cmd) cmd"
    unfolding loaded_edge_def key by (simp add: s' loaded_edge_def)
  have "length (context_command_coordinates cmd2) < 2 ^ 32"
    using loaded_endpoints(1) [OF loaded] by (simp add: same endpoints_ok_def)
  moreover have "edge_coordinates e = context_command_coordinates cmd2" if "loaded_edge U H s' cmd2 = Some e" for e
    using that unfolding edge by (auto simp: next_edge_def same Let_def split: if_splits)
  ultimately have "context_rejection (cs_catalog s') (loaded_edge U H s' cmd2) (loaded_owner s' cmd2)
      (command_key U H s' cmd2) cmd2 ctx2 = None"
    using owner fresh oper(2) by (auto simp: context_rejection_def Let_def split: option.splits)
  then have step2: "context_step U H s' (cmd2, ctx2) (context_next U H s' (cmd2, ctx2))"
    using context_step_next [OF B inv', of "(cmd2, ctx2)"] sub by simp
  have "loaded_owner s cmd = None" using arm oper(1) by (simp add: context_arm_admissible_def Let_def)
  then have bound: "cs_bound (context_next U H s' (cmd2, ctx2)) = cs_bound s"
    using oper same(2) by (auto simp: s' loaded_owner_def)
  have "cs_edges (context_next U H s' (cmd2, ctx2)) = cs_edges s"
    using attach_detach_edge [OF B loaded arm oper same] by (simp add: edge key) (simp add: s' loaded_edge_def)
  with step2 bound show ?thesis by blast
qed


subsection \<open>A concrete run\<close>

definition demo_ctx_catalog :: context_catalog where
  "demo_ctx_catalog = \<lparr>cc_project_id = id_b, cc_context_revision = 0, cc_active_edge_count = 0,
     cc_bound_document_count = 0, cc_projection_generation = 1, cc_initialized_at = 0, cc_updated_at = 0\<rparr>"

definition demo_command :: "u64 \<Rightarrow> context_command_request \<Rightarrow> context_command" where
  "demo_command n r = \<lparr>ccmd_schema_version = PROJECT_CONTEXT_SCHEMA_VERSION, ccmd_expected_context_revision = n,
     ccmd_acting_assignment_id = None, ccmd_runtime_fence = None, ccmd_request = r\<rparr>"

definition demo_attach :: context_command where
  "demo_attach = demo_command 0 (AttachRequest demo_coordinates id_a)"

definition demo_detach :: context_command where
  "demo_detach = demo_command 1 (DetachRequest demo_coordinates id_a)"

definition demo_change :: "timestamp \<Rightarrow> context_change" where
  "demo_change at = context_change_active 7 11 at"

abbreviation demo_ctx_empty :: context_store where
  "demo_ctx_empty \<equiv> empty_context demo_ctx_catalog"

definition demo_attached :: context_store where
  "demo_attached = context_next rfc4122 id demo_ctx_empty (demo_attach, demo_change 1)"

lemma demo_command_simps [simp]:
  "context_command_coordinates demo_attach = demo_coordinates"
  "context_command_coordinates demo_detach = demo_coordinates"
  "context_command_document_id demo_attach = id_a" "context_command_document_id demo_detach = id_a"
  "context_command_operation demo_attach = Attach" "context_command_operation demo_detach = Detach"
  "ccmd_expected_context_revision demo_attach = 0" "ccmd_expected_context_revision demo_detach = 1"
  by (simp_all add: demo_attach_def demo_detach_def demo_command_def context_command_coordinates_def
      context_command_document_id_def context_command_operation_def)

lemma demo_change_simps [simp]:
  "cx_canonical_at (demo_change at) = at" "cx_all_coordinates_active (demo_change at)"
  "cx_context_document_active (demo_change at)"
  by (simp_all add: demo_change_def context_change_active_def)

lemma demo_ctx_simps [simp]:
  "cs_catalog demo_ctx_empty = demo_ctx_catalog" "cs_edges demo_ctx_empty = Map.empty"
  "cs_bound demo_ctx_empty = Map.empty" "cc_project_id demo_ctx_catalog = id_b"
  "cc_context_revision demo_ctx_catalog = 0" "cc_updated_at demo_ctx_catalog = 0"
  by (simp_all add: empty_context_def demo_ctx_catalog_def)

lemma demo_ctx_valid [simp]:
  "context_command_validate_for_project rfc4122 id_b demo_attach = Ok ()"
  "context_command_validate_for_project rfc4122 id_b demo_detach = Ok ()"
proof -
  have "validate_canonical_coordinates rfc4122 demo_coordinates = Ok ()"
    using canonicalize_canonical(1) [OF rfc4122_bytes_ok demo_coordinates_canonical]
    by (simp add: validate_canonical_Ok [OF rfc4122_bytes_ok])
  moreover have "\<forall>k\<in>set demo_coordinates. coordinate_validate_for_project rfc4122 id_b k = Ok ()"
    by (simp add: demo_coordinates_def coordinate_validate_for_project_Ok validate_uuid_v4_Ok)
  ultimately show "context_command_validate_for_project rfc4122 id_b demo_attach = Ok ()"
    "context_command_validate_for_project rfc4122 id_b demo_detach = Ok ()"
    by (simp_all add: context_command_validate_for_project_Ok safe_range managed_claim_ok_def)
      (simp_all add: demo_attach_def demo_detach_def demo_command_def)
qed

lemma demo_ctx_init: "context_catalog_empty rfc4122 id_b 1 0 = Ok demo_ctx_catalog"
  by (simp add: context_catalog_empty_def context_catalog_from_snapshot_Ok demo_ctx_catalog_def
      context_catalog_validate_Ok safe_range)

lemma demo_ctx_reachable: "reachable_context rfc4122 id demo_ctx_empty"
  unfolding reachable_context_def by (intro exI conjI, rule demo_ctx_init, rule steps_Nil)

lemma demo_ctx_attach_step:
  "context_step rfc4122 id demo_ctx_empty (demo_attach, demo_change 1) demo_attached"
  unfolding demo_attached_def
  by (rule context_step_next [OF rfc4122_bytes_ok context_inv_empty [OF demo_ctx_init]])
    (simp_all add: context_rejection_def loaded_edge_def loaded_owner_def Let_def
      demo_coordinates_def MAX_SAFE_REVISION_def)

lemma demo_attached_simps [simp]:
  "cc_context_revision (cs_catalog demo_attached) = 1" "cc_updated_at (cs_catalog demo_attached) = 1"
  "cc_project_id (cs_catalog demo_attached) = id_b"
  by (simp_all add: demo_attached_def)

lemma demo_attached_reachable: "reachable_context rfc4122 id demo_attached"
  by (rule reachable_context_steps [OF demo_ctx_reachable context_run_single [OF demo_ctx_attach_step]])


subsection \<open>Properties\<close>

text \<open>
  C18.  The context reducer commits exactly the admissible commands and returns
  the abstract commit: attach inserts the document into the sorted membership
  of its edge, detach removes it and drops the edge with its last document, and
  revision, edge count and binding count follow.
\<close>

theorem reduce_context_refines:
  assumes "uuid_bytes_ok U"
  shows "reduce_project_context U sha256 catalog edge owner command context = Ok transition \<longleftrightarrow>
     context_admissible U sha256 catalog edge owner command context
     \<and> transition = context_commit U sha256 catalog edge command context"
  using reduce_context_admissible [OF assms] reduce_context_Ok_admissible [OF assms] by fastforce

theorem reduce_context_refines_witness:
  "reduce_project_context rfc4122 id demo_ctx_catalog None None demo_attach (demo_change 1) =
     Ok (context_commit rfc4122 id demo_ctx_catalog None demo_attach (demo_change 1))
   \<and> context_admissible rfc4122 id demo_ctx_catalog None None demo_attach (demo_change 1)"
proof -
  obtain t where "reduce_project_context rfc4122 id demo_ctx_catalog None None demo_attach (demo_change 1) = Ok t"
    using demo_ctx_attach_step by (auto simp: context_step_def loaded_edge_def loaded_owner_def)
  with reduce_context_refines [OF rfc4122_bytes_ok, of id demo_ctx_catalog None None demo_attach "demo_change 1" t]
  show ?thesis by simp
qed

text \<open>
  C19.  Every outcome of a submitted context command is known in advance: on a
  reachable store, a command valid for the project and later than the catalog
  is refused for the first applicable reason of \<open>context_rejection\<close>, which
  includes a digest collision with another coordinate set, or it is committed.
  The reducer's other internal errors never occur.
\<close>

theorem context_outcome:
  assumes "uuid_bytes_ok U" and "reachable_context U sha256 s"
    and "context_command_validate_for_project U (cc_project_id (cs_catalog s)) cmd = Ok ()"
    and "cc_updated_at (cs_catalog s) < cx_canonical_at ctx"
  shows "reduce_project_context U sha256 (cs_catalog s) (loaded_edge U sha256 s cmd) (loaded_owner s cmd) cmd ctx =
    (case context_rejection (cs_catalog s) (loaded_edge U sha256 s cmd) (loaded_owner s cmd)
        (command_key U sha256 s cmd) cmd ctx of
       Some e \<Rightarrow> Err e
     | None \<Rightarrow> Ok (context_commit U sha256 (cs_catalog s) (loaded_edge U sha256 s cmd) cmd ctx))"
  using context_outcome_inv [OF assms(1) reachable_context_inv [OF assms(1,2)] assms(3,4)] .

text \<open>Attaching again from the old revision is a conflict.\<close>

theorem context_outcome_witness:
  "reduce_project_context rfc4122 id (cs_catalog demo_attached) (loaded_edge rfc4122 id demo_attached demo_attach)
     (loaded_owner demo_attached demo_attach) demo_attach (demo_change 9) = Err (RevisionConflict 0 1)"
  using context_outcome [OF rfc4122_bytes_ok demo_attached_reachable, of demo_attach "demo_change 9"]
  by (simp add: context_rejection_def Let_def)

text \<open>
  C20.  On every reachable store the hypergraph is consistent: the catalog is
  valid and counts the active edges and the bound documents exactly; a document
  is bound to a key exactly when the edge of that key lists it, so it is on at
  most one edge; and every edge is non-empty, canonical, and stored under the
  key of its coordinates.
\<close>

theorem reachable_context_consistent:
  assumes "uuid_bytes_ok U" and "reachable_context U sha256 s"
  shows "context_catalog_validate U (cs_catalog s) = Ok ()
    \<and> unat (cc_active_edge_count (cs_catalog s)) = card (dom (cs_edges s))
    \<and> unat (cc_bound_document_count (cs_catalog s)) = card (dom (cs_bound s))
    \<and> (\<forall>d k. cs_bound s d = Some k \<longleftrightarrow> (\<exists>e. cs_edges s k = Some e \<and> d \<in> set (edge_document_ids e)))
    \<and> (\<forall>k. case cs_edges s k of None \<Rightarrow> True
        | Some e \<Rightarrow> edge_validate U sha256 (cc_project_id (cs_catalog s)) e = Ok () \<and> edge_key e = k
            \<and> edge_document_ids e \<noteq> [])"
proof -
  have inv: "context_inv U sha256 s" using reachable_context_inv [OF assms] .
  have "d \<in> set (members (cs_edges s k)) \<longleftrightarrow> (\<exists>e. cs_edges s k = Some e \<and> d \<in> set (edge_document_ids e))" for d k
    by (cases "cs_edges s k") simp_all
  with inv show ?thesis by (auto simp: context_inv_def owns_def split: option.splits)
qed

theorem reachable_context_consistent_witness:
  "unat (cc_bound_document_count (cs_catalog demo_attached)) = card (dom (cs_bound demo_attached))
   \<and> cc_bound_document_count (cs_catalog demo_attached) = 1"
proof -
  have "cc_bound_document_count (cs_catalog demo_attached) = 1"
    by (simp add: demo_attached_def context_advance_def Let_def) (simp add: demo_ctx_catalog_def)
  then show ?thesis
    using reachable_context_consistent [OF rfc4122_bytes_ok demo_attached_reachable] by simp
qed

text \<open>
  C21.  Detach undoes attach.  After an accepted attach, a valid detach of the
  same document from the same coordinates at the new revision is accepted, and
  it leaves exactly the edges and bindings that were there before the attach.
\<close>

theorem attach_detach_roundtrip:
  assumes "uuid_bytes_ok U" and "reachable_context U sha256 s" and "context_step U sha256 s (cmd, ctx) s'"
    and "context_command_operation cmd = Attach" and "context_command_operation cmd2 = Detach"
    and "context_command_coordinates cmd2 = context_command_coordinates cmd"
    and "context_command_document_id cmd2 = context_command_document_id cmd"
    and "ccmd_expected_context_revision cmd2 = cc_context_revision (cs_catalog s')"
    and "cc_context_revision (cs_catalog s') \<noteq> MAX_SAFE_REVISION"
    and "context_command_validate_for_project U (cc_project_id (cs_catalog s')) cmd2 = Ok ()"
    and "cc_updated_at (cs_catalog s') < cx_canonical_at ctx2"
  shows "\<exists>s''. context_step U sha256 s' (cmd2, ctx2) s'' \<and> cs_edges s'' = cs_edges s \<and> cs_bound s'' = cs_bound s"
  using attach_detach [OF assms(1) reachable_context_inv [OF assms(1,2)] assms(3-11)] .

theorem attach_detach_roundtrip_witness:
  "\<exists>s. context_step rfc4122 id demo_attached (demo_detach, demo_change 2) s
     \<and> cs_edges s = Map.empty \<and> cs_bound s = Map.empty"
  using attach_detach_roundtrip [OF rfc4122_bytes_ok demo_ctx_reachable demo_ctx_attach_step,
      of demo_detach "demo_change 2"]
  by (simp add: MAX_SAFE_REVISION_def)

text \<open>
  The context revision is the number of accepted commands since bootstrap:
  it stays in the safe range, canonical time advances at each command, and
  along one run a revision names one state, so of the commands written against
  one revision at most one is accepted.
\<close>

theorem context_revision_counts_commands:
  assumes "context_catalog_empty U p g i = Ok cat" and "steps (context_step U sha256) (empty_context cat) es s"
    and "steps (context_step U sha256) s fs t"
  shows "unat (cc_context_revision (cs_catalog s)) = length es \<and> length es \<le> 9007199254740991
    \<and> i + int (length es) \<le> cc_updated_at (cs_catalog s)
    \<and> (cc_context_revision (cs_catalog s) = cc_context_revision (cs_catalog t) \<longrightarrow> s = t)"
  using ctxt.steps_revision [OF assms(2)] ctxt.steps_length [OF assms(2)] ctxt.steps_time [OF assms(2)]
    ctxt.steps_revision_determines [OF assms(2,3)] assms(1)
  by (auto simp: empty_context_def context_catalog_empty_def context_catalog_from_snapshot_Ok)

theorem context_revision_counts_commands_witness:
  "unat (cc_context_revision (cs_catalog demo_attached)) = 1"
  using context_revision_counts_commands [OF demo_ctx_init context_run_single [OF demo_ctx_attach_step] steps_Nil]
  by simp

end
