(* ===== verification/Event_Queue.thy ===== *)
theory Event_Queue
  imports CF_Prelude "HOL-Library.Multiset"
begin

text \<open>
  The agent harness's event queue, \<open>EventQueue\<close> of \<open>crates/buzz-acp/src/queue.rs\<close>:
  per-channel queues with in-flight tracking, retry backoff, cancelled batches
  and events withheld during a native steer.

  Instants and durations are natural numbers of nanoseconds; every operation
  that reads the clock takes \<open>now\<close>, and adding a duration to an instant does not
  overflow.  The addition of the deadline buffer in seconds wraps at 64 bits, as
  in a release build.  The iteration order of a hash map is
  unspecified, so an operation that iterates takes, in a \<open>hash_order\<close>, a list of
  channels to visit; absent channels are skipped.  The delay computed from the
  capped backoff seconds depends on the system clock and on floating-point
  arithmetic and is the argument \<open>delay\<close> of \<open>requeue\<close>.  Of a Nostr event the queue
  reads its hexadecimal id and its creation time.
\<close>

subsection \<open>State\<close>

definition MAX_PENDING_PER_CHANNEL :: nat where "MAX_PENDING_PER_CHANNEL = 500"
definition MAX_BATCH_EVENTS :: nat where "MAX_BATCH_EVENTS = 50"
definition MAX_RETRIES :: u32 where "MAX_RETRIES = 10"
definition BASE_RETRY_DELAY_SECS :: u64 where "BASE_RETRY_DELAY_SECS = 5"
definition MAX_RETRY_DELAY_SECS :: u64 where "MAX_RETRY_DELAY_SECS = 300"
definition IN_FLIGHT_DEADLINE_BUFFER_SECS :: u64 where "IN_FLIGHT_DEADLINE_BUFFER_SECS = 100"
definition DEFAULT_IN_FLIGHT_DEADLINE_SECS :: u64 where "DEFAULT_IN_FLIGHT_DEADLINE_SECS = 7300"

record nostr_event =
  ev_id_hex :: string
  ev_created_at :: nat
  ev_content :: ustring

type_synonym instant = nat

record queued_event =
  qe_channel_id :: uuid
  qe_event :: nostr_event
  qe_received_at :: instant
  qe_prompt_tag :: string

record batch_event =
  be_event :: nostr_event
  be_prompt_tag :: string
  be_received_at :: instant

datatype cancel_reason = Interrupt | Steer

datatype dedup_mode = Drop | Queue

record flush_batch =
  fb_channel_id :: uuid
  fb_events :: "batch_event list"
  fb_cancelled_events :: "batch_event list"
  fb_cancel_reason :: "cancel_reason option"

record event_queue =
  queues :: "uuid \<rightharpoonup> queued_event list"
  in_flight_channels :: "uuid set"
  in_flight_deadlines :: "uuid \<rightharpoonup> instant"
  in_flight_batch_sizes :: "uuid \<rightharpoonup> nat"
  retry_after :: "uuid \<rightharpoonup> instant"
  retry_counts :: "uuid \<rightharpoonup> u32"
  dedup :: dedup_mode
  cancelled_batches :: "uuid \<rightharpoonup> batch_event list"
  cancel_reasons :: "uuid \<rightharpoonup> cancel_reason"
  withheld_native_steer :: "uuid \<rightharpoonup> queued_event list"
  in_flight_deadline :: nat

record hash_order =
  ho_deadlines :: "uuid list"
  ho_queues :: "uuid list"
  ho_cancelled :: "uuid list"

definition from_secs :: "nat \<Rightarrow> nat" where
  "from_secs n = n * 1000000000"

text \<open>\<open>entry(k).or_default()\<close> on a map of lists, read.\<close>

definition entries :: "(uuid \<rightharpoonup> 'a list) \<Rightarrow> uuid \<Rightarrow> 'a list" where
  "entries m c = (case m c of None \<Rightarrow> [] | Some xs \<Rightarrow> xs)"

text \<open>Popping at the back until the cap holds.\<close>

definition trim_cap :: "'a list \<Rightarrow> 'a list" where
  "trim_cap xs = take MAX_PENDING_PER_CHANNEL xs"

definition batch_of :: "queued_event \<Rightarrow> batch_event" where
  "batch_of qe = \<lparr>be_event = qe_event qe, be_prompt_tag = qe_prompt_tag qe, be_received_at = qe_received_at qe\<rparr>"

definition queued_of :: "uuid \<Rightarrow> batch_event \<Rightarrow> queued_event" where
  "queued_of c be = \<lparr>qe_channel_id = c, qe_event = be_event be, qe_received_at = be_received_at be,
     qe_prompt_tag = be_prompt_tag be\<rparr>"


subsection \<open>Operations\<close>

definition queue_new :: "dedup_mode \<Rightarrow> event_queue" where
  "queue_new mode = \<lparr>queues = Map.empty, in_flight_channels = {}, in_flight_deadlines = Map.empty,
     in_flight_batch_sizes = Map.empty, retry_after = Map.empty, retry_counts = Map.empty,
     dedup = mode, cancelled_batches = Map.empty, cancel_reasons = Map.empty,
     withheld_native_steer = Map.empty, in_flight_deadline = from_secs (unat DEFAULT_IN_FLIGHT_DEADLINE_SECS)\<rparr>"

definition with_in_flight_deadline :: "event_queue \<Rightarrow> u64 \<Rightarrow> event_queue" where
  "with_in_flight_deadline q max_turn_duration_secs =
     q\<lparr>in_flight_deadline := from_secs (unat (max_turn_duration_secs + IN_FLIGHT_DEADLINE_BUFFER_SECS))\<rparr>"

definition extend_in_flight_deadline :: "instant \<Rightarrow> uuid \<Rightarrow> u64 \<Rightarrow> event_queue \<Rightarrow> event_queue" where
  "extend_in_flight_deadline now channel_id max_turn_secs q =
     (case in_flight_deadlines q channel_id of
        None \<Rightarrow> q
      | Some current \<Rightarrow>
          let extended = now + from_secs (unat (max_turn_secs + IN_FLIGHT_DEADLINE_BUFFER_SECS)) in
          if current < extended
          then q\<lparr>in_flight_deadlines := (in_flight_deadlines q)(channel_id \<mapsto> extended)\<rparr>
          else q)"

definition push :: "queued_event \<Rightarrow> event_queue \<Rightarrow> bool \<times> event_queue" where
  "push event q =
     (let c = qe_channel_id event in
      if dedup q = Drop \<and> c \<in> in_flight_channels q then (False, q)
      else
        let queue = entries (queues q) c;
            queue = (if MAX_PENDING_PER_CHANNEL \<le> length queue then tl queue else queue)
        in (True, q\<lparr>queues := (queues q)(c \<mapsto> queue @ [event])\<rparr>))"

definition recover_withheld_for_expired_channel :: "uuid \<Rightarrow> event_queue \<Rightarrow> event_queue" where
  "recover_withheld_for_expired_channel c q =
     (case withheld_native_steer q c of
        None \<Rightarrow> q
      | Some es \<Rightarrow>
          q\<lparr>withheld_native_steer := (withheld_native_steer q)(c := None),
            queues := (queues q)(c \<mapsto> trim_cap (es @ entries (queues q) c))\<rparr>)"

text \<open>The expiry block that \<open>flush_next\<close> and \<open>has_flushable_work\<close> share.\<close>

definition expired_channels :: "uuid list \<Rightarrow> instant \<Rightarrow> event_queue \<Rightarrow> uuid list" where
  "expired_channels order now q =
     filter (\<lambda>c. case in_flight_deadlines q c of None \<Rightarrow> False | Some deadline \<Rightarrow> deadline \<le> now) order"

definition expire_channel :: "uuid \<Rightarrow> event_queue \<Rightarrow> event_queue" where
  "expire_channel c q =
     recover_withheld_for_expired_channel c
       (q\<lparr>in_flight_batch_sizes := (in_flight_batch_sizes q)(c := None),
          in_flight_channels := in_flight_channels q - {c},
          in_flight_deadlines := (in_flight_deadlines q)(c := None)\<rparr>)"

definition expire :: "uuid list \<Rightarrow> instant \<Rightarrow> event_queue \<Rightarrow> event_queue" where
  "expire order now q = fold expire_channel (expired_channels order now q) q"

definition ready :: "instant \<Rightarrow> event_queue \<Rightarrow> uuid \<Rightarrow> bool" where
  "ready now q c \<longleftrightarrow> entries (queues q) c \<noteq> [] \<and> c \<notin> in_flight_channels q
     \<and> (case retry_after q c of None \<Rightarrow> True | Some t \<Rightarrow> t \<le> now)"

text \<open>\<open>Iterator::min_by_key\<close>: the first element of least key.\<close>

fun min_by_key :: "('a \<Rightarrow> 'b::linorder) \<Rightarrow> 'a list \<Rightarrow> 'a option" where
  "min_by_key f [] = None"
| "min_by_key f (x # xs) =
     (case min_by_key f xs of None \<Rightarrow> Some x | Some y \<Rightarrow> if f y < f x then Some y else Some x)"

definition select_channel :: "uuid list \<Rightarrow> instant \<Rightarrow> event_queue \<Rightarrow> uuid option" where
  "select_channel order now q =
     min_by_key (\<lambda>c. qe_received_at (hd (entries (queues q) c))) (filter (ready now q) order)"

definition select_cancelled :: "uuid list \<Rightarrow> event_queue \<Rightarrow> uuid option" where
  "select_cancelled order q =
     find (\<lambda>c. cancelled_batches q c \<noteq> None \<and> c \<notin> in_flight_channels q) order"

definition put_in_flight :: "instant \<Rightarrow> uuid \<Rightarrow> nat \<Rightarrow> event_queue \<Rightarrow> event_queue" where
  "put_in_flight now c n q =
     q\<lparr>in_flight_channels := insert c (in_flight_channels q),
       in_flight_deadlines := (in_flight_deadlines q)(c \<mapsto> now + in_flight_deadline q),
       in_flight_batch_sizes := (in_flight_batch_sizes q)(c \<mapsto> n)\<rparr>"

definition flush_cancelled :: "instant \<Rightarrow> uuid \<Rightarrow> event_queue \<Rightarrow> flush_batch \<times> event_queue" where
  "flush_cancelled now c q =
     (let cancelled = entries (cancelled_batches q) c in
      (\<lparr>fb_channel_id = c, fb_events = cancelled, fb_cancelled_events = [],
        fb_cancel_reason = cancel_reasons q c\<rparr>,
       put_in_flight now c (length cancelled)
         (q\<lparr>cancelled_batches := (cancelled_batches q)(c := None),
            cancel_reasons := (cancel_reasons q)(c := None)\<rparr>)))"

definition flush_channel :: "instant \<Rightarrow> uuid \<Rightarrow> event_queue \<Rightarrow> flush_batch \<times> event_queue" where
  "flush_channel now c q =
     (let queue = entries (queues q) c;
          drain_count = min MAX_BATCH_EVENTS (length queue);
          events = sort_key (\<lambda>be. ev_created_at (be_event be)) (map batch_of (take drain_count queue));
          rest = drop drain_count queue;
          cancelled_events = entries (cancelled_batches q) c;
          cancel_reason = (if cancelled_events = [] then None else cancel_reasons q c)
      in (\<lparr>fb_channel_id = c, fb_events = events, fb_cancelled_events = cancelled_events,
           fb_cancel_reason = cancel_reason\<rparr>,
          put_in_flight now c (length events)
            (q\<lparr>queues := (queues q)(c := (if rest = [] then None else Some rest)),
               cancelled_batches := (cancelled_batches q)(c := None),
               cancel_reasons := (cancel_reasons q)(c := None)\<rparr>)))"

definition flush_next :: "hash_order \<Rightarrow> instant \<Rightarrow> event_queue \<Rightarrow> flush_batch option \<times> event_queue" where
  "flush_next ord now q =
     (let q = expire (ho_deadlines ord) now q in
      case select_channel (ho_queues ord) now q of
        Some c \<Rightarrow> (let (b, q') = flush_channel now c q in (Some b, q'))
      | None \<Rightarrow>
          (case select_cancelled (ho_cancelled ord) q of
             Some c \<Rightarrow> (let (b, q') = flush_cancelled now c q in (Some b, q'))
           | None \<Rightarrow> (None, q)))"

definition mark_complete :: "instant \<Rightarrow> uuid \<Rightarrow> event_queue \<Rightarrow> event_queue" where
  "mark_complete now c q =
     (let q = q\<lparr>in_flight_channels := in_flight_channels q - {c},
                in_flight_deadlines := (in_flight_deadlines q)(c := None),
                in_flight_batch_sizes := (in_flight_batch_sizes q)(c := None)\<rparr> in
      case retry_after q c of
        Some deadline \<Rightarrow>
          if now < deadline then q
          else q\<lparr>retry_after := (retry_after q)(c := None), retry_counts := (retry_counts q)(c := None)\<rparr>
      | None \<Rightarrow> q\<lparr>retry_counts := (retry_counts q)(c := None)\<rparr>)"

definition saturating_mul :: "u64 \<Rightarrow> u64 \<Rightarrow> u64" where
  "saturating_mul a b = (if unat a * unat b < 2 ^ 64 then a * b else 2 ^ 64 - 1)"

definition retry_delay_secs :: "u32 \<Rightarrow> u64" where
  "retry_delay_secs attempt =
     (let base_secs = saturating_mul BASE_RETRY_DELAY_SECS (push_bit (min (unat (attempt - 1)) 6) 1)
      in min base_secs MAX_RETRY_DELAY_SECS)"

definition requeue_front :: "uuid \<Rightarrow> batch_event list \<Rightarrow> event_queue \<Rightarrow> event_queue" where
  "requeue_front c events q =
     q\<lparr>queues := (queues q)(c \<mapsto> trim_cap (map (queued_of c) events @ entries (queues q) c))\<rparr>"

definition requeue ::
  "(u64 \<Rightarrow> nat) \<Rightarrow> instant \<Rightarrow> flush_batch \<Rightarrow> event_queue \<Rightarrow> flush_batch option \<times> event_queue" where
  "requeue delay now batch q =
     (let c = fb_channel_id batch;
          attempt = (case retry_counts q c of None \<Rightarrow> 0 | Some n \<Rightarrow> n) + 1;
          q = q\<lparr>retry_counts := (retry_counts q)(c \<mapsto> attempt)\<rparr> in
      if MAX_RETRIES < attempt
      then (Some batch, q\<lparr>retry_counts := (retry_counts q)(c := None),
                          retry_after := (retry_after q)(c := None)\<rparr>)
      else
        let q = requeue_front c (fb_events batch) q in
        (None, q\<lparr>retry_after := (retry_after q)(c \<mapsto> now + delay (retry_delay_secs attempt))\<rparr>))"

definition requeue_preserve_timestamps :: "flush_batch \<Rightarrow> event_queue \<Rightarrow> event_queue" where
  "requeue_preserve_timestamps batch q = requeue_front (fb_channel_id batch) (fb_events batch) q"

definition requeue_as_cancelled :: "flush_batch \<Rightarrow> cancel_reason \<Rightarrow> event_queue \<Rightarrow> event_queue" where
  "requeue_as_cancelled batch reason q =
     (let c = fb_channel_id batch in
      q\<lparr>cancelled_batches := (cancelled_batches q)(c \<mapsto>
          entries (cancelled_batches q) c @ fb_cancelled_events batch @ fb_events batch),
        cancel_reasons := (cancel_reasons q)(c \<mapsto> reason)\<rparr>)"

definition has_flushable_work :: "hash_order \<Rightarrow> instant \<Rightarrow> event_queue \<Rightarrow> bool \<times> event_queue" where
  "has_flushable_work ord now q =
     (let q = expire (ho_deadlines ord) now q in
      ((\<exists>c\<in>set (ho_queues ord). ready now q c)
         \<or> (\<exists>c\<in>set (ho_cancelled ord). cancelled_batches q c \<noteq> None \<and> c \<notin> in_flight_channels q), q))"

definition drain_channel :: "uuid \<Rightarrow> event_queue \<Rightarrow> string list \<times> event_queue" where
  "drain_channel c q =
     (map (\<lambda>e. ev_id_hex (qe_event e)) (entries (queues q) c),
      q\<lparr>queues := (queues q)(c := None), retry_after := (retry_after q)(c := None),
        retry_counts := (retry_counts q)(c := None), cancelled_batches := (cancelled_batches q)(c := None),
        cancel_reasons := (cancel_reasons q)(c := None),
        withheld_native_steer := (withheld_native_steer q)(c := None)\<rparr>)"

definition is_channel_in_flight :: "uuid \<Rightarrow> event_queue \<Rightarrow> bool" where
  "is_channel_in_flight c q \<longleftrightarrow> c \<in> in_flight_channels q"

text \<open>Removing the first entry with an id, as \<open>position\<close> and \<open>remove\<close> do.\<close>

fun take_by_id :: "string \<Rightarrow> queued_event list \<Rightarrow> (queued_event \<times> queued_event list) option" where
  "take_by_id i [] = None"
| "take_by_id i (x # xs) =
     (if ev_id_hex (qe_event x) = i then Some (x, xs)
      else (case take_by_id i xs of None \<Rightarrow> None | Some (y, ys) \<Rightarrow> Some (y, x # ys)))"

definition nonempty :: "'a list \<Rightarrow> 'a list option" where
  "nonempty xs = (if xs = [] then None else Some xs)"

definition mark_native_steer_pending :: "uuid \<Rightarrow> string \<Rightarrow> event_queue \<Rightarrow> bool \<times> event_queue" where
  "mark_native_steer_pending c event_id q =
     (case take_by_id event_id (entries (queues q) c) of
        None \<Rightarrow> (False, q)
      | Some (qe, rest) \<Rightarrow>
          (True, q\<lparr>queues := (queues q)(c := nonempty rest),
                   withheld_native_steer := (withheld_native_steer q)(c \<mapsto>
                     entries (withheld_native_steer q) c @ [qe])\<rparr>))"

definition release_native_steer :: "uuid \<Rightarrow> string \<Rightarrow> event_queue \<Rightarrow> event_queue" where
  "release_native_steer c event_id q =
     (case take_by_id event_id (entries (withheld_native_steer q) c) of
        None \<Rightarrow> q
      | Some (qe, rest) \<Rightarrow>
          q\<lparr>withheld_native_steer := (withheld_native_steer q)(c := nonempty rest),
            queues := (queues q)(c \<mapsto> trim_cap (qe # entries (queues q) c))\<rparr>)"

definition retain_other :: "string \<Rightarrow> queued_event list \<Rightarrow> queued_event list" where
  "retain_other i xs = filter (\<lambda>qe. ev_id_hex (qe_event qe) \<noteq> i) xs"

definition remove_event :: "uuid \<Rightarrow> string \<Rightarrow> event_queue \<Rightarrow> event_queue" where
  "remove_event c event_id q =
     q\<lparr>withheld_native_steer := (case withheld_native_steer q c of
          None \<Rightarrow> withheld_native_steer q
        | Some es \<Rightarrow> (withheld_native_steer q)(c := nonempty (retain_other event_id es))),
       queues := (case queues q c of
          None \<Rightarrow> queues q
        | Some es \<Rightarrow> (queues q)(c := nonempty (retain_other event_id es)))\<rparr>"

definition compact_expired_state :: "instant \<Rightarrow> event_queue \<Rightarrow> event_queue" where
  "compact_expired_state now q =
     (let ra = (\<lambda>c. case retry_after q c of Some d \<Rightarrow> if now < d then Some d else None | None \<Rightarrow> None) in
      q\<lparr>retry_after := ra,
        retry_counts := (\<lambda>c. if ra c \<noteq> None \<or> entries (queues q) c \<noteq> [] \<or> c \<in> in_flight_channels q
          then retry_counts q c else None)\<rparr>)"


subsection \<open>Every run of the queue\<close>

datatype queue_op =
    Push queued_event
  | Flush hash_order instant
  | HasWork hash_order instant
  | Complete instant uuid
  | Requeue "u64 \<Rightarrow> nat" instant flush_batch
  | RequeuePreserve flush_batch
  | RequeueCancelled flush_batch cancel_reason
  | Extend instant uuid u64
  | Drain uuid
  | SteerPending uuid string
  | SteerRelease uuid string
  | RemoveEvent uuid string
  | Compact instant

fun apply_op :: "queue_op \<Rightarrow> event_queue \<Rightarrow> event_queue" where
  "apply_op (Push e) q = snd (push e q)"
| "apply_op (Flush ord now) q = snd (flush_next ord now q)"
| "apply_op (HasWork ord now) q = snd (has_flushable_work ord now q)"
| "apply_op (Complete now c) q = mark_complete now c q"
| "apply_op (Requeue delay now b) q = snd (requeue delay now b q)"
| "apply_op (RequeuePreserve b) q = requeue_preserve_timestamps b q"
| "apply_op (RequeueCancelled b r) q = requeue_as_cancelled b r q"
| "apply_op (Extend now c n) q = extend_in_flight_deadline now c n q"
| "apply_op (Drain c) q = snd (drain_channel c q)"
| "apply_op (SteerPending c i) q = snd (mark_native_steer_pending c i q)"
| "apply_op (SteerRelease c i) q = release_native_steer c i q"
| "apply_op (RemoveEvent c i) q = remove_event c i q"
| "apply_op (Compact now) q = compact_expired_state now q"

text \<open>
  The invariant: every queue is capped and holds events of its own channel; the
  in-flight set, deadlines and batch sizes name the same channels; and retry
  counters stay in the retry budget.
\<close>

definition channel_events :: "event_queue \<Rightarrow> uuid \<Rightarrow> queued_event set" where
  "channel_events q c = set (entries (queues q) c) \<union> set (entries (withheld_native_steer q) c)"

definition lists_inv :: "event_queue \<Rightarrow> bool" where
  "lists_inv q \<longleftrightarrow> (\<forall>c. length (entries (queues q) c) \<le> MAX_PENDING_PER_CHANNEL
     \<and> (\<forall>e\<in>channel_events q c. qe_channel_id e = c))"

definition flight_inv :: "event_queue \<Rightarrow> bool" where
  "flight_inv q \<longleftrightarrow> in_flight_channels q = dom (in_flight_deadlines q)
     \<and> dom (in_flight_batch_sizes q) = in_flight_channels q"

definition retry_inv :: "event_queue \<Rightarrow> bool" where
  "retry_inv q \<longleftrightarrow> (\<forall>c n. retry_counts q c = Some n \<longrightarrow> 1 \<le> n \<and> n \<le> MAX_RETRIES)"

definition queue_inv :: "event_queue \<Rightarrow> bool" where
  "queue_inv q \<longleftrightarrow> lists_inv q \<and> flight_inv q \<and> retry_inv q"

lemma lists_inv_mono:
  assumes "lists_inv q" and "\<And>c. length (entries (queues q') c) \<le> MAX_PENDING_PER_CHANNEL"
    and "\<And>c. channel_events q' c \<subseteq> channel_events q c"
  shows "lists_inv q'"
  using assms unfolding lists_inv_def by blast

lemma entries_upd [simp]:
  "entries (m(c \<mapsto> xs)) c' = (if c' = c then xs else entries m c')"
  "entries (m(c := None)) c' = (if c' = c then [] else entries m c')"
  "entries Map.empty c' = []"
  by (simp_all add: entries_def)

lemma entries_nonempty [simp]:
  "entries (m(c := nonempty xs)) c' = (if c' = c then xs else entries m c')"
  "entries (m(c := (if xs = [] then None else Some xs))) c' = (if c' = c then xs else entries m c')"
  by (simp_all add: entries_def nonempty_def)

lemma length_trim_cap [simp]: "length (trim_cap xs) \<le> MAX_PENDING_PER_CHANNEL"
  by (simp add: trim_cap_def)

lemma set_trim_cap: "set (trim_cap xs) \<subseteq> set xs"
  by (simp add: trim_cap_def set_take_subset)

lemma trim_cap_id: "length xs \<le> MAX_PENDING_PER_CHANNEL \<Longrightarrow> trim_cap xs = xs"
  by (simp add: trim_cap_def)

lemma take_by_id_Some:
  "take_by_id i xs = Some (x, ys) \<Longrightarrow> ev_id_hex (qe_event x) = i \<and> mset xs = add_mset x (mset ys)"
  by (induction i xs arbitrary: x ys rule: take_by_id.induct) (auto split: if_splits option.splits)

lemma take_by_id_None: "take_by_id i xs = None \<longleftrightarrow> (\<forall>x\<in>set xs. ev_id_hex (qe_event x) \<noteq> i)"
  by (induction i xs rule: take_by_id.induct) (auto split: option.splits)

lemma take_by_id_set:
  "take_by_id i xs = Some (x, ys) \<Longrightarrow> set xs = insert x (set ys) \<and> length xs = Suc (length ys)"
  using take_by_id_Some [of i xs x ys] by (metis set_mset_add_mset_insert set_mset_mset size_add_mset size_mset)


subsection \<open>Expiry\<close>

lemma expire_channel_form:
  "expire_channel c q =
     q\<lparr>in_flight_batch_sizes := (in_flight_batch_sizes q)(c := None),
       in_flight_channels := in_flight_channels q - {c},
       in_flight_deadlines := (in_flight_deadlines q)(c := None),
       withheld_native_steer := (withheld_native_steer q)(c := None),
       queues := (case withheld_native_steer q c of None \<Rightarrow> queues q
         | Some es \<Rightarrow> (queues q)(c \<mapsto> trim_cap (es @ entries (queues q) c)))\<rparr>"
  by (cases "withheld_native_steer q c")
    (auto simp: expire_channel_def recover_withheld_for_expired_channel_def fun_upd_idem)

text \<open>What the whole expiry block does to each channel.\<close>

lemma fold_expire:
  "in_flight_channels (fold expire_channel cs q) = in_flight_channels q - set cs"
  "in_flight_deadlines (fold expire_channel cs q) = in_flight_deadlines q |` (- set cs)"
  "in_flight_batch_sizes (fold expire_channel cs q) = in_flight_batch_sizes q |` (- set cs)"
  "withheld_native_steer (fold expire_channel cs q) = withheld_native_steer q |` (- set cs)"
  "entries (queues (fold expire_channel cs q)) c =
     (if c \<in> set cs \<and> withheld_native_steer q c \<noteq> None
      then trim_cap (entries (withheld_native_steer q) c @ entries (queues q) c)
      else entries (queues q) c)"
proof -
  show "in_flight_channels (fold expire_channel cs q) = in_flight_channels q - set cs"
    by (induction cs arbitrary: q) (auto simp: expire_channel_form)
  show "in_flight_deadlines (fold expire_channel cs q) = in_flight_deadlines q |` (- set cs)"
    by (induction cs arbitrary: q) (auto simp: expire_channel_form restrict_map_def fun_eq_iff)
  show "in_flight_batch_sizes (fold expire_channel cs q) = in_flight_batch_sizes q |` (- set cs)"
    by (induction cs arbitrary: q) (auto simp: expire_channel_form restrict_map_def fun_eq_iff)
  show "withheld_native_steer (fold expire_channel cs q) = withheld_native_steer q |` (- set cs)"
    by (induction cs arbitrary: q) (auto simp: expire_channel_form restrict_map_def fun_eq_iff)
  show "entries (queues (fold expire_channel cs q)) c =
     (if c \<in> set cs \<and> withheld_native_steer q c \<noteq> None
      then trim_cap (entries (withheld_native_steer q) c @ entries (queues q) c)
      else entries (queues q) c)"
    by (induction cs arbitrary: q)
      (auto simp: expire_channel_form entries_def split: option.splits)
qed

lemma fold_expire_frame:
  "retry_after (fold expire_channel cs q) = retry_after q"
  "retry_counts (fold expire_channel cs q) = retry_counts q"
  "cancelled_batches (fold expire_channel cs q) = cancelled_batches q"
  "cancel_reasons (fold expire_channel cs q) = cancel_reasons q"
  "dedup (fold expire_channel cs q) = dedup q"
  "in_flight_deadline (fold expire_channel cs q) = in_flight_deadline q"
  by (induction cs arbitrary: q; simp add: expire_channel_form)+

lemmas expire_simps = expire_def fold_expire fold_expire_frame


subsection \<open>Selection\<close>

lemma min_by_key_None: "min_by_key f xs = None \<longleftrightarrow> xs = []"
  by (cases xs) (auto split: option.splits)

lemma min_by_key_Some:
  "min_by_key f xs = Some x \<Longrightarrow> x \<in> set xs \<and> (\<forall>y\<in>set xs. f x \<le> f y)"
  by (induction f xs arbitrary: x rule: min_by_key.induct)
    (fastforce split: option.splits if_splits simp: min_by_key_None)+

lemma select_channel_Some:
  "select_channel order now q = Some c \<Longrightarrow> c \<in> set order \<and> ready now q c
   \<and> (\<forall>d\<in>set order. ready now q d \<longrightarrow>
        qe_received_at (hd (entries (queues q) c)) \<le> qe_received_at (hd (entries (queues q) d)))"
  unfolding select_channel_def by (drule min_by_key_Some) simp

lemma select_channel_None: "select_channel order now q = None \<longleftrightarrow> (\<forall>c\<in>set order. \<not> ready now q c)"
  by (simp add: select_channel_def min_by_key_None filter_empty_conv)

lemma select_cancelled_None:
  "select_cancelled order q = None \<longleftrightarrow>
     (\<forall>c\<in>set order. cancelled_batches q c = None \<or> c \<in> in_flight_channels q)"
  by (auto simp: select_cancelled_def find_None_iff)

lemma select_cancelled_Some:
  "select_cancelled order q = Some c \<Longrightarrow>
   c \<in> set order \<and> cancelled_batches q c \<noteq> None \<and> c \<notin> in_flight_channels q"
  by (auto simp: select_cancelled_def find_Some_iff)


subsection \<open>The invariant\<close>

lemmas inv_defs = queue_inv_def flight_inv_def retry_inv_def

lemma queue_inv_new: "queue_inv (queue_new mode)"
  by (simp add: inv_defs lists_inv_def channel_events_def queue_new_def)

lemma lists_inv_push: "lists_inv q \<Longrightarrow> lists_inv (snd (push e q))"
proof -
  assume inv: "lists_inv q"
  let ?c = "qe_channel_id e" and ?xs = "entries (queues q) (qe_channel_id e)"
  let ?ys = "if MAX_PENDING_PER_CHANNEL \<le> length ?xs then tl ?xs else ?xs"
  have "set (tl ?xs) \<subseteq> set ?xs" by (cases ?xs) auto
  then have ev: "\<forall>x\<in>set ?ys. qe_channel_id x = ?c"
    using inv by (auto simp: lists_inv_def channel_events_def)
  have "length ?xs \<le> MAX_PENDING_PER_CHANNEL" using inv by (simp add: lists_inv_def)
  then have len: "Suc (length ?ys) \<le> MAX_PENDING_PER_CHANNEL"
    by (simp add: MAX_PENDING_PER_CHANNEL_def)
  define ys where "ys = ?ys"
  have "snd (push e q) = q \<or> snd (push e q) = q\<lparr>queues := (queues q)(?c \<mapsto> ys @ [e])\<rparr>"
    by (simp add: push_def ys_def Let_def)
  moreover have "lists_inv (q\<lparr>queues := (queues q)(?c \<mapsto> ys @ [e])\<rparr>)"
    using inv ev len unfolding ys_def [symmetric] by (auto simp: lists_inv_def channel_events_def)
  ultimately show ?thesis using inv by metis
qed

lemma lists_inv_expire: "lists_inv q \<Longrightarrow> lists_inv (expire order now q)"
proof (rule lists_inv_mono)
  fix c assume inv: "lists_inv q"
  show "length (entries (queues (expire order now q)) c) \<le> MAX_PENDING_PER_CHANNEL"
    using inv by (simp add: expire_simps lists_inv_def)
  have "entries (m |` A) c = (if c \<in> A then entries m c else [])" for m :: "uuid \<rightharpoonup> queued_event list" and A
    by (simp add: entries_def)
  then show "channel_events (expire order now q) c \<subseteq> channel_events q c"
    using set_trim_cap [of "entries (withheld_native_steer q) c @ entries (queues q) c"]
    by (auto simp: expire_simps channel_events_def)
qed

lemma flight_inv_expire: "flight_inv q \<Longrightarrow> flight_inv (expire order now q)"
  by (auto simp: flight_inv_def expire_simps)

lemma queue_inv_expire: "queue_inv q \<Longrightarrow> queue_inv (expire order now q)"
  by (simp add: queue_inv_def lists_inv_expire flight_inv_expire)
    (simp add: retry_inv_def expire_simps)

lemma put_in_flight_simps [simp]:
  "queues (put_in_flight now c n q) = queues q"
  "in_flight_channels (put_in_flight now c n q) = insert c (in_flight_channels q)"
  "in_flight_deadlines (put_in_flight now c n q) = (in_flight_deadlines q)(c \<mapsto> now + in_flight_deadline q)"
  "in_flight_batch_sizes (put_in_flight now c n q) = (in_flight_batch_sizes q)(c \<mapsto> n)"
  "retry_after (put_in_flight now c n q) = retry_after q"
  "retry_counts (put_in_flight now c n q) = retry_counts q"
  "cancelled_batches (put_in_flight now c n q) = cancelled_batches q"
  "cancel_reasons (put_in_flight now c n q) = cancel_reasons q"
  "withheld_native_steer (put_in_flight now c n q) = withheld_native_steer q"
  by (simp_all add: put_in_flight_def)

lemma queue_inv_flush_cancelled: "queue_inv q \<Longrightarrow> queue_inv (snd (flush_cancelled now c q))"
  by (simp add: inv_defs lists_inv_def channel_events_def flush_cancelled_def Let_def)

lemma flush_channel_queue:
  "entries (queues (snd (flush_channel now c q))) d =
     (if d = c then drop MAX_BATCH_EVENTS (entries (queues q) c) else entries (queues q) d)"
  by (simp add: flush_channel_def Let_def min_def)

lemma flush_channel_frame:
  "withheld_native_steer (snd (flush_channel now c q)) = withheld_native_steer q"
  "retry_counts (snd (flush_channel now c q)) = retry_counts q"
  "in_flight_channels (snd (flush_channel now c q)) = insert c (in_flight_channels q)"
  "in_flight_deadlines (snd (flush_channel now c q)) = (in_flight_deadlines q)(c \<mapsto> now + in_flight_deadline q)"
  "\<exists>n. in_flight_batch_sizes (snd (flush_channel now c q)) = (in_flight_batch_sizes q)(c \<mapsto> n)"
  by (auto simp: flush_channel_def put_in_flight_def Let_def)

lemma queue_inv_flush_channel: "queue_inv q \<Longrightarrow> queue_inv (snd (flush_channel now c q))"
proof -
  assume inv: "queue_inv q"
  have "lists_inv (snd (flush_channel now c q))"
  proof (rule lists_inv_mono)
    show "lists_inv q" using inv by (simp add: queue_inv_def)
    then show "length (entries (queues (snd (flush_channel now c q))) d) \<le> MAX_PENDING_PER_CHANNEL" for d
      by (auto simp: flush_channel_queue lists_inv_def intro: order_trans [OF diff_le_self])
    show "channel_events (snd (flush_channel now c q)) d \<subseteq> channel_events q d" for d
      using set_drop_subset [of MAX_BATCH_EVENTS "entries (queues q) c"]
      by (auto simp: channel_events_def flush_channel_queue flush_channel_frame)
  qed
  moreover obtain n where "in_flight_batch_sizes (snd (flush_channel now c q)) = (in_flight_batch_sizes q)(c \<mapsto> n)"
    using flush_channel_frame(5) by blast
  then have "flight_inv (snd (flush_channel now c q))"
    using inv by (simp add: inv_defs flush_channel_frame(1-4))
  ultimately show ?thesis
    using inv by (simp add: queue_inv_def retry_inv_def flush_channel_frame)
qed

lemma queue_inv_flush_next: "queue_inv q \<Longrightarrow> queue_inv (snd (flush_next ord now q))"
  using queue_inv_expire [of q "ho_deadlines ord" now]
    queue_inv_flush_channel [of "expire (ho_deadlines ord) now q"]
    queue_inv_flush_cancelled [of "expire (ho_deadlines ord) now q"]
  by (simp add: flush_next_def Let_def split_beta split: option.split)

lemma lists_inv_requeue_front: "lists_inv q \<Longrightarrow> lists_inv (requeue_front c es q)"
proof -
  assume inv: "lists_inv q"
  have "\<forall>e\<in>set (trim_cap (map (queued_of c) es @ entries (queues q) c)). qe_channel_id e = c"
    using set_trim_cap [of "map (queued_of c) es @ entries (queues q) c"] inv
    by (fastforce simp: lists_inv_def channel_events_def queued_of_def)
  with inv show ?thesis by (auto simp: lists_inv_def channel_events_def requeue_front_def)
qed

lemma attempt_bound:
  "(n :: u32) \<le> MAX_RETRIES \<Longrightarrow> \<not> MAX_RETRIES < n + 1 \<Longrightarrow> 1 \<le> n + 1 \<and> n + 1 \<le> MAX_RETRIES"
  by (simp add: MAX_RETRIES_def word_le_nat_alt word_less_nat_alt unat_word_ariths)

definition attempts :: "event_queue \<Rightarrow> uuid \<Rightarrow> u32" where
  "attempts q c = (case retry_counts q c of None \<Rightarrow> 0 | Some n \<Rightarrow> n)"

lemma requeue_form:
  "requeue delay now b q =
     (let c = fb_channel_id b; n = attempts q c + 1 in
      if MAX_RETRIES < n
      then (Some b, q\<lparr>retry_counts := (retry_counts q)(c := None), retry_after := (retry_after q)(c := None)\<rparr>)
      else (None, (requeue_front c (fb_events b) q)
        \<lparr>retry_counts := (retry_counts q)(c \<mapsto> n), retry_after := (retry_after q)(c \<mapsto> now + delay (retry_delay_secs n))\<rparr>))"
  by (simp add: requeue_def attempts_def requeue_front_def Let_def)

lemma requeue_front_frame [simp]:
  "in_flight_channels (requeue_front c es q) = in_flight_channels q"
  "in_flight_deadlines (requeue_front c es q) = in_flight_deadlines q"
  "in_flight_batch_sizes (requeue_front c es q) = in_flight_batch_sizes q"
  "withheld_native_steer (requeue_front c es q) = withheld_native_steer q"
  "cancelled_batches (requeue_front c es q) = cancelled_batches q"
  "retry_counts (requeue_front c es q) = retry_counts q"
  "retry_after (requeue_front c es q) = retry_after q"
  by (simp_all add: requeue_front_def)

lemma queue_inv_requeue: "queue_inv q \<Longrightarrow> queue_inv (snd (requeue delay now b q))"
proof -
  assume inv: "queue_inv q"
  have "attempts q (fb_channel_id b) \<le> MAX_RETRIES"
    using inv by (auto simp: attempts_def inv_defs MAX_RETRIES_def split: option.splits)
  note bound = attempt_bound [OF this]
  have front: "lists_inv (requeue_front (fb_channel_id b) (fb_events b) q)"
    using inv by (simp add: queue_inv_def lists_inv_requeue_front)
  show ?thesis
    using inv front bound
    by (auto simp: requeue_form inv_defs lists_inv_def channel_events_def Let_def)
qed

lemma queue_inv_steer_pending: "queue_inv q \<Longrightarrow> queue_inv (snd (mark_native_steer_pending c i q))"
proof (cases "take_by_id i (entries (queues q) c)")
  case (Some p)
  moreover assume inv: "queue_inv q"
  moreover obtain x ys where p: "p = (x, ys)" by (cases p)
  ultimately have xs: "set (entries (queues q) c) = insert x (set ys)" "length (entries (queues q) c) = Suc (length ys)"
    using take_by_id_set by blast+
  have "lists_inv (snd (mark_native_steer_pending c i q))"
  proof (rule lists_inv_mono [of q])
    show "lists_inv q" using inv by (simp add: queue_inv_def)
    then have "Suc (length ys) \<le> MAX_PENDING_PER_CHANNEL" using xs(2) unfolding lists_inv_def by metis
    with \<open>lists_inv q\<close> show "length (entries (queues (snd (mark_native_steer_pending c i q))) d) \<le> MAX_PENDING_PER_CHANNEL" for d
      by (auto simp: mark_native_steer_pending_def Some p lists_inv_def)
  qed (auto simp: mark_native_steer_pending_def Some p channel_events_def xs(1))
  with inv show ?thesis by (simp add: inv_defs mark_native_steer_pending_def Some p)
qed (simp add: mark_native_steer_pending_def)

lemma queue_inv_steer_release: "queue_inv q \<Longrightarrow> queue_inv (release_native_steer c i q)"
proof (cases "take_by_id i (entries (withheld_native_steer q) c)")
  case (Some p)
  moreover assume inv: "queue_inv q"
  moreover obtain x ys where p: "p = (x, ys)" by (cases p)
  ultimately have xs: "set (entries (withheld_native_steer q) c) = insert x (set ys)"
    using take_by_id_set by blast
  have "lists_inv (release_native_steer c i q)"
  proof (rule lists_inv_mono [of q])
    show "lists_inv q" using inv by (simp add: queue_inv_def)
    then show "length (entries (queues (release_native_steer c i q)) d) \<le> MAX_PENDING_PER_CHANNEL" for d
      by (auto simp: release_native_steer_def Some p lists_inv_def)
    show "channel_events (release_native_steer c i q) d \<subseteq> channel_events q d" for d
      using set_trim_cap [of "x # entries (queues q) c"]
      by (auto simp: release_native_steer_def Some p channel_events_def xs)
  qed
  with inv show ?thesis by (simp add: inv_defs release_native_steer_def Some p)
qed (simp add: release_native_steer_def)

lemma remove_event_entries:
  "entries (queues (remove_event c i q)) d =
     (if d = c then retain_other i (entries (queues q) c) else entries (queues q) d)"
  "entries (withheld_native_steer (remove_event c i q)) d =
     (if d = c then retain_other i (entries (withheld_native_steer q) c) else entries (withheld_native_steer q) d)"
  by (auto simp: remove_event_def entries_def retain_other_def nonempty_def split: option.splits)

lemma queue_inv_remove_event: "queue_inv q \<Longrightarrow> queue_inv (remove_event c i q)"
proof -
  assume inv: "queue_inv q"
  have "lists_inv (remove_event c i q)"
  proof (rule lists_inv_mono [of q])
    show "lists_inv q" using inv by (simp add: queue_inv_def)
    then show "length (entries (queues (remove_event c i q)) d) \<le> MAX_PENDING_PER_CHANNEL" for d
      by (auto simp: remove_event_entries lists_inv_def retain_other_def intro: order_trans [OF length_filter_le])
  qed (auto simp: channel_events_def remove_event_entries retain_other_def split: if_splits)
  with inv show ?thesis by (simp add: inv_defs remove_event_def)
qed

lemma queue_inv_extend: "queue_inv q \<Longrightarrow> queue_inv (extend_in_flight_deadline now c n q)"
  by (auto simp: extend_in_flight_deadline_def inv_defs lists_inv_def channel_events_def Let_def
      insert_absorb split: option.splits)

lemma queue_inv_complete: "queue_inv q \<Longrightarrow> queue_inv (mark_complete now c q)"
  by (auto simp: mark_complete_def inv_defs lists_inv_def channel_events_def Let_def split: option.splits)

lemma queue_inv_drain: "queue_inv q \<Longrightarrow> queue_inv (snd (drain_channel c q))"
  by (auto simp: drain_channel_def inv_defs lists_inv_def channel_events_def)

lemma queue_inv_compact: "queue_inv q \<Longrightarrow> queue_inv (compact_expired_state now q)"
  by (auto simp: compact_expired_state_def inv_defs lists_inv_def channel_events_def Let_def split: if_splits)

lemma queue_inv_push: "queue_inv q \<Longrightarrow> queue_inv (snd (push e q))"
  using lists_inv_push [of q e] by (auto simp: inv_defs push_def Let_def)

lemma queue_inv_preserve: "queue_inv q \<Longrightarrow> queue_inv (requeue_preserve_timestamps b q)"
  by (simp add: inv_defs requeue_preserve_timestamps_def lists_inv_requeue_front)

lemma queue_inv_cancelled: "queue_inv q \<Longrightarrow> queue_inv (requeue_as_cancelled b r q)"
  by (simp add: inv_defs requeue_as_cancelled_def lists_inv_def channel_events_def Let_def)

lemma queue_inv_apply: "queue_inv q \<Longrightarrow> queue_inv (apply_op oper q)"
  by (cases oper)
    (simp_all add: queue_inv_push queue_inv_flush_next queue_inv_complete queue_inv_requeue
      queue_inv_preserve queue_inv_cancelled queue_inv_extend queue_inv_drain
      queue_inv_steer_pending queue_inv_steer_release queue_inv_remove_event queue_inv_compact
      has_flushable_work_def queue_inv_expire Let_def)

lemma queue_inv_run: "queue_inv q \<Longrightarrow> queue_inv (fold apply_op ops q)"
  by (induction ops arbitrary: q) (simp_all add: queue_inv_apply)


subsection \<open>Pending work\<close>

text \<open>Everything a channel still owes the agent: queued, withheld and cancelled events.\<close>

definition pending :: "event_queue \<Rightarrow> uuid \<Rightarrow> batch_event multiset" where
  "pending q c = mset (map batch_of (entries (queues q) c))
     + mset (map batch_of (entries (withheld_native_steer q) c)) + mset (entries (cancelled_batches q) c)"

lemma batch_of_queued_of [simp]: "batch_of (queued_of c b) = b"
  by (simp add: batch_of_def queued_of_def)

lemma map_batch_of_queued_of [simp]: "map (batch_of \<circ> queued_of c) bs = bs"
  by (induction bs) simp_all

lemma pending_expire:
  assumes "length (entries (queues q) c) + length (entries (withheld_native_steer q) c) \<le> MAX_PENDING_PER_CHANNEL"
  shows "pending (expire order now q) c = pending q c"
proof -
  have "entries (m |` A) c = (if c \<in> A then entries m c else [])" for m :: "uuid \<rightharpoonup> queued_event list" and A
    by (simp add: entries_def)
  moreover have "withheld_native_steer q c = None \<Longrightarrow> entries (withheld_native_steer q) c = []"
    by (simp add: entries_def)
  ultimately show ?thesis
    using assms by (auto simp: pending_def expire_simps trim_cap_id)
qed

lemma pending_flush_channel:
  "flush_channel now c q = (b, q') \<Longrightarrow>
   pending q d = pending q' d + (if d = c then mset (fb_events b) + mset (fb_cancelled_events b) else {#})"
proof -
  assume f: "flush_channel now c q = (b, q')"
  let ?n = "min MAX_BATCH_EVENTS (length (entries (queues q) c))"
  have split: "mset (map batch_of (entries (queues q) c)) =
      mset (map batch_of (take ?n (entries (queues q) c))) + mset (map batch_of (drop ?n (entries (queues q) c)))"
    by (metis append_take_drop_id map_append mset_append)
  show ?thesis
    using f split
    by (auto simp: flush_channel_def pending_def Let_def simp del: mset_map drop_eq_Nil drop_eq_Nil2)
qed

lemma pending_flush_cancelled:
  "flush_cancelled now c q = (b, q') \<Longrightarrow>
   pending q d = pending q' d + (if d = c then mset (fb_events b) + mset (fb_cancelled_events b) else {#})"
  by (auto simp: flush_cancelled_def pending_def Let_def)

lemma flush_next_cases:
  assumes "flush_next ord now q = (Some b, q')"
  obtains (queued) c where "select_channel (ho_queues ord) now (expire (ho_deadlines ord) now q) = Some c"
      "flush_channel now c (expire (ho_deadlines ord) now q) = (b, q')"
  | (cancelled) c where "select_channel (ho_queues ord) now (expire (ho_deadlines ord) now q) = None"
      "select_cancelled (ho_cancelled ord) (expire (ho_deadlines ord) now q) = Some c"
      "flush_cancelled now c (expire (ho_deadlines ord) now q) = (b, q')"
  using assms by (auto simp: flush_next_def Let_def split: option.splits prod.splits)

lemma flush_channel_id: "flush_channel now c q = (b, q') \<Longrightarrow> fb_channel_id b = c"
  by (auto simp: flush_channel_def Let_def)

lemma flush_cancelled_id: "flush_cancelled now c q = (b, q') \<Longrightarrow> fb_channel_id b = c"
  by (auto simp: flush_cancelled_def Let_def)

lemma flush_channel_events:
  assumes "flush_channel now c q = (b, q')"
  shows "mset (fb_events b) = mset (map batch_of (take MAX_BATCH_EVENTS (entries (queues q) c)))"
    "sorted (map (\<lambda>e. ev_created_at (be_event e)) (fb_events b))" "length (fb_events b) \<le> MAX_BATCH_EVENTS"
  using assms by (auto simp: flush_channel_def Let_def min_def)

lemma flight_after_flush:
  assumes "flush_channel now c q = (b, q') \<or> flush_cancelled now c q = (b, q')"
  shows "in_flight_channels q' = insert c (in_flight_channels q)"
    "in_flight_deadlines q' = (in_flight_deadlines q)(c \<mapsto> now + in_flight_deadline q)"
  using assms by (auto simp: flush_channel_def flush_cancelled_def Let_def)

lemma pending_requeue_front:
  assumes "length es + length (entries (queues q) c) \<le> MAX_PENDING_PER_CHANNEL"
  shows "pending (requeue_front c es q) d = pending q d + (if d = c then mset es else {#})"
proof -
  have "trim_cap (map (queued_of c) es @ entries (queues q) c) = map (queued_of c) es @ entries (queues q) c"
    using assms by (intro trim_cap_id) simp
  then have "entries (queues (requeue_front c es q)) d =
      (if d = c then map (queued_of c) es @ entries (queues q) c else entries (queues q) d)"
    by (simp add: requeue_front_def)
  then show ?thesis by (simp add: pending_def) (metis mset_map map_batch_of_queued_of map_map)
qed

lemma pending_complete [simp]: "pending (mark_complete now c q) d = pending q d"
  by (simp add: pending_def mark_complete_def Let_def split: option.split)

end
