(* ===== verification/Event_Queue_Properties.thy ===== *)
theory Event_Queue_Properties
  imports Event_Queue
begin

text \<open>
  The guarantees of the agent harness's event queue over every run of its
  operations, and a concrete queue on which they are evaluated.
\<close>

subsection \<open>Backoff\<close>

lemma retry_delay_cases:
  "n \<in> {1..10} \<Longrightarrow> unat (retry_delay_secs (of_nat n)) = min (5 * 2 ^ (n - 1)) 300"
proof -
  assume "n \<in> {1..10}"
  then have "n \<in> set [1, 2, 3, 4, 5, 6, 7, 8, 9, 10]"
    by (simp add: atLeastAtMost_upt upt_rec numeral_eq_Suc)
  then show ?thesis
    by (auto simp: retry_delay_secs_def saturating_mul_def BASE_RETRY_DELAY_SECS_def
      MAX_RETRY_DELAY_SECS_def push_bit_eq_mult min_def)
qed

lemma attempts_cong: "retry_counts q c = retry_counts q' c \<Longrightarrow> attempts q c = attempts q' c"
  by (simp add: attempts_def)

lemma retry_delay_unat:
  assumes "1 \<le> unat a" and "unat a \<le> 10"
  shows "unat (retry_delay_secs a) = min (5 * 2 ^ (unat a - 1)) 300"
  using retry_delay_cases [of "unat a"] assms by simp


subsection \<open>A concrete queue\<close>

definition demo_event :: "uuid \<Rightarrow> nat \<Rightarrow> instant \<Rightarrow> queued_event" where
  "demo_event c created at = \<lparr>qe_channel_id = c,
     qe_event = \<lparr>ev_id_hex = show_nat created, ev_created_at = created, ev_content = []\<rparr>,
     qe_received_at = at, qe_prompt_tag = ''mention''\<rparr>"

definition demo_order :: hash_order where
  "demo_order = \<lparr>ho_deadlines = [1, 2], ho_queues = [1, 2], ho_cancelled = [1, 2]\<rparr>"

text \<open>Channel 2 has the older head; channel 1 holds a cancelled batch and a new event.\<close>

definition demo_queue :: event_queue where
  "demo_queue = (queue_new Queue)
     \<lparr>queues := [1 \<mapsto> [demo_event 1 7 20], 2 \<mapsto> [demo_event 2 9 10, demo_event 2 8 11]],
      cancelled_batches := [1 \<mapsto> [batch_of (demo_event 1 6 5)]], cancel_reasons := [1 \<mapsto> Steer]\<rparr>"

lemma demo_queue_simps [simp]:
  "in_flight_deadlines demo_queue = Map.empty" "in_flight_channels demo_queue = {}"
  "retry_after demo_queue = Map.empty" "withheld_native_steer demo_queue = Map.empty"
  "retry_counts demo_queue = Map.empty"
  "entries (queues demo_queue) 1 = [demo_event 1 7 20]"
  "entries (queues demo_queue) 2 = [demo_event 2 9 10, demo_event 2 8 11]"
  "entries (cancelled_batches demo_queue) 1 = [batch_of (demo_event 1 6 5)]"
  by (simp_all add: demo_queue_def queue_new_def)

lemma demo_queue_inv: "queue_inv demo_queue"
  by (auto simp: inv_defs lists_inv_def channel_events_def demo_queue_def queue_new_def entries_def
      demo_event_def MAX_PENDING_PER_CHANNEL_def)

lemma demo_expire [simp]: "expire order now demo_queue = demo_queue"
  by (simp add: expire_def expired_channels_def)

lemma demo_flush:
  "flush_next demo_order 30 demo_queue = (let (b, q) = flush_channel 30 2 demo_queue in (Some b, q))"
  by (simp add: flush_next_def demo_order_def select_channel_def ready_def demo_event_def)


subsection \<open>Properties\<close>

text \<open>
  C26.  In every run of the queue's operations each channel's queue stays within
  the depth cap and holds only that channel's events; the in-flight set, the
  deadlines and the batch sizes always name the same channels, so no channel is
  in flight without a deadline; and retry counters stay within the retry budget.
\<close>

theorem queue_run_invariant:
  "let q = fold apply_op ops (with_in_flight_deadline (queue_new mode) secs) in
     length (entries (queues q) c) \<le> MAX_PENDING_PER_CHANNEL
     \<and> qe_channel_id ` set (entries (queues q) c) \<subseteq> {c}
     \<and> in_flight_channels q = dom (in_flight_deadlines q)
     \<and> in_flight_channels q = dom (in_flight_batch_sizes q)
     \<and> (case retry_counts q c of None \<Rightarrow> True | Some n \<Rightarrow> 1 \<le> n \<and> n \<le> MAX_RETRIES)"
proof -
  have "queue_inv (with_in_flight_deadline (queue_new mode) secs)"
    using queue_inv_new [of mode]
    by (simp add: with_in_flight_deadline_def inv_defs lists_inv_def channel_events_def)
  then have "queue_inv (fold apply_op ops (with_in_flight_deadline (queue_new mode) secs))"
    by (rule queue_inv_run)
  then show ?thesis
    by (auto simp: inv_defs lists_inv_def channel_events_def Let_def split: option.splits)
qed

lemma flush_next_ready:
  assumes "flush_next ord now q = (Some b, q')"
  shows "fb_channel_id b \<notin> in_flight_channels (expire (ho_deadlines ord) now q)
    \<and> in_flight_channels q' = insert (fb_channel_id b) (in_flight_channels (expire (ho_deadlines ord) now q))
    \<and> in_flight_deadlines q' (fb_channel_id b) = Some (now + in_flight_deadline q)
    \<and> ((\<exists>d\<in>set (ho_queues ord). ready now (expire (ho_deadlines ord) now q) d) \<longrightarrow>
        (let q0 = expire (ho_deadlines ord) now q; c = fb_channel_id b;
             head = (\<lambda>d. qe_received_at (hd (entries (queues q0) d))) in
         ready now q0 c \<and> (\<forall>d\<in>set (ho_queues ord). ready now q0 d \<longrightarrow> head c \<le> head d)
         \<and> mset (fb_events b) = mset (map batch_of (take MAX_BATCH_EVENTS (entries (queues q0) c)))
         \<and> sorted (map (\<lambda>e. ev_created_at (be_event e)) (fb_events b))))"
  using assms
proof (cases rule: flush_next_cases)
  case (queued c)
  then have "fb_channel_id b = c" by (simp add: flush_channel_id)
  with queued select_channel_Some [OF queued(1)] flush_channel_events [OF queued(2)]
    flight_after_flush [OF disjI1 [OF queued(2)]] show ?thesis
    by (auto simp: ready_def Let_def expire_simps)
next
  case (cancelled c)
  then have "fb_channel_id b = c" by (simp add: flush_cancelled_id)
  with cancelled select_cancelled_Some [OF cancelled(2)] flight_after_flush [OF disjI2 [OF cancelled(3)]]
  show ?thesis
    by (auto simp: select_channel_None expire_simps)
qed

lemma flush_next_fallback:
  assumes "flush_next ord now q = (Some b, q')"
    and none: "\<not> (\<exists>d\<in>set (ho_queues ord). ready now (expire (ho_deadlines ord) now q) d)"
  shows "let q0 = expire (ho_deadlines ord) now q; c = fb_channel_id b in
         cancelled_batches q0 c \<noteq> None \<and> fb_events b = entries (cancelled_batches q0) c
         \<and> fb_cancelled_events b = [] \<and> cancelled_batches q' c = None"
  using assms(1)
proof (cases rule: flush_next_cases)
  case (queued c)
  with none select_channel_Some [OF queued(1)] show ?thesis by blast
next
  case (cancelled c)
  define q0 where "q0 = expire (ho_deadlines ord) now q"
  have "b = fst (flush_cancelled now c q0)" "q' = snd (flush_cancelled now c q0)"
    using cancelled(3) by (simp_all add: q0_def)
  moreover have "cancelled_batches q0 c \<noteq> None"
    using select_cancelled_Some [OF cancelled(2)] by (simp add: q0_def)
  ultimately show ?thesis
    unfolding q0_def [symmetric] by (simp add: Let_def flush_cancelled_def put_in_flight_def)
qed

text \<open>
  C24.  A flush respects mutual exclusion and fairness.  The flushed channel was
  not in flight and becomes so until a fresh deadline.  If any visited channel is
  ready, the flushed one is ready, its head event is the oldest received among
  the ready channels, and the batch is its at most fifty oldest queued events in
  creation order, so its last event is the newest.  If none is ready, the flush
  falls back to a channel with cancelled events and hands all of them back as the
  batch, in the order they were stored and without a bound on their number.
\<close>

theorem flush_next_fair:
  assumes "flush_next ord now q = (Some b, q')"
  shows "fb_channel_id b \<notin> in_flight_channels (expire (ho_deadlines ord) now q)
    \<and> in_flight_channels q' = insert (fb_channel_id b) (in_flight_channels (expire (ho_deadlines ord) now q))
    \<and> in_flight_deadlines q' (fb_channel_id b) = Some (now + in_flight_deadline q)
    \<and> ((\<exists>d\<in>set (ho_queues ord). ready now (expire (ho_deadlines ord) now q) d) \<longrightarrow>
        (let q0 = expire (ho_deadlines ord) now q; c = fb_channel_id b;
             head = (\<lambda>d. qe_received_at (hd (entries (queues q0) d))) in
         ready now q0 c \<and> (\<forall>d\<in>set (ho_queues ord). ready now q0 d \<longrightarrow> head c \<le> head d)
         \<and> mset (fb_events b) = mset (map batch_of (take MAX_BATCH_EVENTS (entries (queues q0) c)))
         \<and> sorted (map (\<lambda>e. ev_created_at (be_event e)) (fb_events b))))
    \<and> (\<not> (\<exists>d\<in>set (ho_queues ord). ready now (expire (ho_deadlines ord) now q) d) \<longrightarrow>
        (let q0 = expire (ho_deadlines ord) now q; c = fb_channel_id b in
         cancelled_batches q0 c \<noteq> None \<and> fb_events b = entries (cancelled_batches q0) c
         \<and> fb_cancelled_events b = [] \<and> cancelled_batches q' c = None))"
  using flush_next_ready [OF assms] flush_next_fallback [OF assms] by blast

theorem flush_next_fair_witness:
  "fb_channel_id (the (fst (flush_next demo_order 30 demo_queue))) = 2
   \<and> in_flight_channels (snd (flush_next demo_order 30 demo_queue)) = {2}"
proof -
  obtain b q' where f: "flush_channel 30 2 demo_queue = (b, q')" by (cases "flush_channel 30 2 demo_queue")
  then have "flush_next demo_order 30 demo_queue = (Some b, q')" by (simp add: demo_flush)
  from flush_next_fair [OF this] this flush_channel_id [OF f] show ?thesis by simp
qed

text \<open>
  C25.  A flush neither loses nor duplicates work.  While a channel's queued and
  withheld events fit the depth cap together, what was pending before the flush
  is exactly what is pending after it plus the events of the batch, cancelled
  ones included, channel by channel.
\<close>

theorem flush_next_conserves:
  assumes "flush_next ord now q = (Some b, q')"
    and "length (entries (queues q) c) + length (entries (withheld_native_steer q) c) \<le> MAX_PENDING_PER_CHANNEL"
  shows "pending q c = pending q' c
    + (if c = fb_channel_id b then mset (fb_events b) + mset (fb_cancelled_events b) else {#})"
  using assms(1)
proof (cases rule: flush_next_cases)
  case (queued d)
  with pending_flush_channel [OF queued(2), of c] flush_channel_id [OF queued(2)]
    pending_expire [OF assms(2)] show ?thesis by simp
next
  case (cancelled d)
  with pending_flush_cancelled [OF cancelled(3), of c] flush_cancelled_id [OF cancelled(3)]
    pending_expire [OF assms(2)] show ?thesis by simp
qed

theorem flush_next_conserves_witness:
  "pending demo_queue 2 = pending (snd (flush_next demo_order 30 demo_queue)) 2
     + mset (fb_events (the (fst (flush_next demo_order 30 demo_queue))))"
proof -
  obtain b q' where f: "flush_channel 30 2 demo_queue = (b, q')" by (cases "flush_channel 30 2 demo_queue")
  then have n: "flush_next demo_order 30 demo_queue = (Some b, q')" by (simp add: demo_flush)
  have "fb_cancelled_events b = []"
    using f by (auto simp: flush_channel_def Let_def) (simp add: demo_queue_def entries_def)
  with flush_next_conserves [OF n, of 2] n flush_channel_id [OF f] show ?thesis
    by (simp add: MAX_PENDING_PER_CHANNEL_def)
qed

text \<open>
  C28.  \<open>has_flushable_work\<close> is exact: for the same clock and map order it answers
  yes precisely when \<open>flush_next\<close> would return a batch, and both leave the same
  expired channels released.
\<close>

theorem has_flushable_work_exact:
  "fst (has_flushable_work ord now q) \<longleftrightarrow> fst (flush_next ord now q) \<noteq> None"
  using select_channel_None [of "ho_queues ord" now "expire (ho_deadlines ord) now q"]
    select_cancelled_None [of "ho_cancelled ord" "expire (ho_deadlines ord) now q"]
  by (auto simp: has_flushable_work_def flush_next_def Let_def split_beta split: option.splits)

text \<open>
  C27.  No channel is wedged.  Once the deadline of an in-flight channel has
  passed, the next poll releases it and puts its withheld steer events back at
  the front of its queue in their order; a channel whose deadline lies ahead
  stays in flight with its queue untouched.
\<close>

theorem expired_channel_released:
  assumes "queue_inv q" and "dom (in_flight_deadlines q) \<subseteq> set (ho_deadlines ord)"
    and "in_flight_deadlines q c = Some d"
  shows "(d \<le> now \<longrightarrow> c \<notin> in_flight_channels (snd (has_flushable_work ord now q))
      \<and> entries (withheld_native_steer (snd (has_flushable_work ord now q))) c = []
      \<and> entries (queues (snd (has_flushable_work ord now q))) c
          = trim_cap (entries (withheld_native_steer q) c @ entries (queues q) c))
    \<and> (now < d \<longrightarrow> c \<in> in_flight_channels (snd (has_flushable_work ord now q))
      \<and> entries (queues (snd (has_flushable_work ord now q))) c = entries (queues q) c)"
proof -
  have "c \<in> set (ho_deadlines ord)" using assms(2,3) by blast
  then have e: "c \<in> set (expired_channels (ho_deadlines ord) now q) \<longleftrightarrow> d \<le> now"
    using assms(3) by (simp add: expired_channels_def)
  have "length (entries (queues q) c) \<le> MAX_PENDING_PER_CHANNEL" "c \<in> in_flight_channels q"
    using assms(1,3) by (auto simp: inv_defs lists_inv_def)
  moreover have "withheld_native_steer q c = None \<Longrightarrow> entries (withheld_native_steer q) c = []"
    by (simp add: entries_def)
  ultimately show ?thesis
    using e by (auto simp: has_flushable_work_def expire_simps trim_cap_id Let_def) (simp_all add: entries_def)
qed

definition demo_stuck :: event_queue where
  "demo_stuck = demo_queue\<lparr>in_flight_channels := {2}, in_flight_deadlines := [2 \<mapsto> 25],
     in_flight_batch_sizes := [2 \<mapsto> 1], withheld_native_steer := [2 \<mapsto> [demo_event 2 4 3]]\<rparr>"

lemma demo_stuck_inv: "queue_inv demo_stuck"
proof -
  have "lists_inv demo_stuck"
    unfolding lists_inv_def channel_events_def
  proof
    fix c
    show "length (entries (queues demo_stuck) c) \<le> MAX_PENDING_PER_CHANNEL \<and>
        (\<forall>e\<in>set (entries (queues demo_stuck) c) \<union> set (entries (withheld_native_steer demo_stuck) c). qe_channel_id e = c)"
      by (cases "c = 1"; cases "c = 2")
        (simp_all add: demo_stuck_def demo_queue_def queue_new_def demo_event_def MAX_PENDING_PER_CHANNEL_def)
  qed
  then show ?thesis by (simp add: inv_defs demo_stuck_def)
qed

theorem expired_channel_released_witness:
  "entries (queues (snd (has_flushable_work demo_order 30 demo_stuck))) 2 =
     [demo_event 2 4 3, demo_event 2 9 10, demo_event 2 8 11]
   \<and> 2 \<notin> in_flight_channels (snd (has_flushable_work demo_order 30 demo_stuck))"
  using expired_channel_released [OF demo_stuck_inv, of demo_order 2 25 30]
  by (simp add: demo_stuck_def demo_order_def trim_cap_def MAX_PENDING_PER_CHANNEL_def)

text \<open>
  C29.  The retry budget is exact.  After \<open>n\<close> recorded failures a requeue either
  puts the batch back at the front and throttles the channel by a backoff of
  \<open>min (5 * 2 ^ n) 300\<close> seconds before jitter, in which case completing the turn
  while the throttle is active keeps the counter at \<open>n + 1\<close>; or, once ten
  retries are spent, it hands the batch back unchanged and clears the counter
  and the throttle.
\<close>

theorem retry_budget:
  fixes b :: flush_batch
  assumes "queue_inv q"
  shows "unat (attempts q (fb_channel_id b)) \<le> 10
    \<and> (unat (attempts q (fb_channel_id b)) < 10 \<longrightarrow>
        fst (requeue delay now b q) = None
        \<and> unat (retry_delay_secs (attempts q (fb_channel_id b) + 1)) = min (5 * 2 ^ unat (attempts q (fb_channel_id b))) 300
        \<and> retry_after (snd (requeue delay now b q)) (fb_channel_id b)
            = Some (now + delay (retry_delay_secs (attempts q (fb_channel_id b) + 1)))
        \<and> unat (attempts (snd (requeue delay now b q)) (fb_channel_id b)) = unat (attempts q (fb_channel_id b)) + 1
        \<and> entries (queues (snd (requeue delay now b q))) (fb_channel_id b)
            = trim_cap (map (queued_of (fb_channel_id b)) (fb_events b) @ entries (queues q) (fb_channel_id b))
        \<and> (\<forall>later < now + delay (retry_delay_secs (attempts q (fb_channel_id b) + 1)).
             attempts (mark_complete later (fb_channel_id b) (snd (requeue delay now b q))) (fb_channel_id b)
               = attempts (snd (requeue delay now b q)) (fb_channel_id b)))
    \<and> (unat (attempts q (fb_channel_id b)) = 10 \<longrightarrow>
        fst (requeue delay now b q) = Some b
        \<and> retry_counts (snd (requeue delay now b q)) (fb_channel_id b) = None
        \<and> retry_after (snd (requeue delay now b q)) (fb_channel_id b) = None
        \<and> entries (queues (snd (requeue delay now b q))) (fb_channel_id b) = entries (queues q) (fb_channel_id b))"
    (is "?le \<and> (?lt \<longrightarrow> ?retry) \<and> (?eq \<longrightarrow> ?dead)")
proof -
  let ?c = "fb_channel_id b" and ?q = "snd (requeue delay now b q)"
  let ?a = "attempts q ?c"
  have le: ?le
    using assms by (auto simp: attempts_def inv_defs MAX_RETRIES_def word_le_nat_alt split: option.splits)
  then have suc: "unat (?a + 1) = unat ?a + 1" by (simp add: unat_word_ariths)
  have dead: "MAX_RETRIES < ?a + 1 \<longleftrightarrow> 10 \<le> unat ?a"
    unfolding MAX_RETRIES_def word_less_nat_alt suc by auto
  have gone: "?eq \<longrightarrow> ?dead" using dead by (simp add: requeue_form Let_def)
  have "?lt \<longrightarrow> ?retry"
  proof (intro impI conjI)
    assume lt: ?lt
    show "unat (retry_delay_secs (?a + 1)) = min (5 * 2 ^ unat ?a) 300"
      using retry_delay_unat [of "?a + 1"] lt suc by simp
    have r: "retry_counts ?q ?c = Some (?a + 1)" using lt dead by (simp add: requeue_form Let_def)
    then show "unat (attempts ?q ?c) = unat ?a + 1" using suc by (simp add: attempts_def [of ?q])
    show "fst (requeue delay now b q) = None"
      "entries (queues ?q) ?c = trim_cap (map (queued_of ?c) (fb_events b) @ entries (queues q) ?c)"
      using lt dead by (simp_all add: requeue_form requeue_front_def Let_def)
    show after: "retry_after ?q ?c = Some (now + delay (retry_delay_secs (?a + 1)))"
      using lt dead by (simp add: requeue_form Let_def)
    have "retry_counts (mark_complete later ?c ?q) ?c = retry_counts ?q ?c"
      if "later < now + delay (retry_delay_secs (?a + 1))" for later
      using after that by (simp add: mark_complete_def Let_def)
    then show "\<forall>later < now + delay (retry_delay_secs (?a + 1)). attempts (mark_complete later ?c ?q) ?c = attempts ?q ?c"
      by (blast intro: attempts_cong)
  qed
  with le gone show ?thesis by blast
qed

definition demo_batch :: flush_batch where
  "demo_batch = \<lparr>fb_channel_id = 1, fb_events = [batch_of (demo_event 1 3 2)], fb_cancelled_events = [],
     fb_cancel_reason = None\<rparr>"

theorem retry_budget_witness:
  "fst (requeue (\<lambda>s. from_secs (unat s)) 30 demo_batch demo_queue) = None
   \<and> retry_after (snd (requeue (\<lambda>s. from_secs (unat s)) 30 demo_batch demo_queue)) 1 = Some (30 + from_secs 5)"
proof -
  have "attempts demo_queue 1 = 0" "fb_channel_id demo_batch = 1" by (simp_all add: attempts_def demo_batch_def)
  with retry_budget [OF demo_queue_inv, of demo_batch "\<lambda>s. from_secs (unat s)" 30]
  show ?thesis by simp
qed

text \<open>
  C30.  Requeueing a flushed batch because no agent is free returns its events,
  and only those: the flush, the requeue and the completion together leave the
  channel owing what it owed before minus the cancelled events that had been
  merged into the batch.  A batch without cancelled events is conserved; the
  cancelled events of a merged batch are dropped.
\<close>

theorem requeue_preserve_drops_cancelled:
  assumes "queue_inv q" and "flush_channel now c q = (b, q')"
  shows "pending q c = pending (mark_complete later c (requeue_preserve_timestamps b q')) c
    + mset (fb_cancelled_events b)"
proof -
  have len: "length (fb_events b) + length (entries (queues q') c) = length (entries (queues q) c)"
    using assms(2) by (auto simp: flush_channel_def Let_def simp del: drop_eq_Nil drop_eq_Nil2)
  also have "\<dots> \<le> MAX_PENDING_PER_CHANNEL" using assms(1) by (simp add: queue_inv_def lists_inv_def)
  finally have "pending (requeue_preserve_timestamps b q') c = pending q' c + mset (fb_events b)"
    using pending_requeue_front [of "fb_events b" q' c c] flush_channel_id [OF assms(2)]
    by (simp add: requeue_preserve_timestamps_def)
  with pending_flush_channel [OF assms(2), of c] show ?thesis by simp
qed

text \<open>The cancelled event of channel 1 is gone after an attempt that finds no free agent.\<close>

theorem requeue_preserve_drops_cancelled_witness:
  "pending (mark_complete 31 1 (requeue_preserve_timestamps (fst (flush_channel 30 1 demo_queue))
      (snd (flush_channel 30 1 demo_queue)))) 1 + {#batch_of (demo_event 1 6 5)#} = pending demo_queue 1"
proof -
  obtain b q' where f: "flush_channel 30 1 demo_queue = (b, q')" by (cases "flush_channel 30 1 demo_queue")
  have "fb_cancelled_events b = [batch_of (demo_event 1 6 5)]"
    using f by (auto simp: flush_channel_def Let_def)
  with requeue_preserve_drops_cancelled [OF demo_queue_inv f, of 31] f show ?thesis by simp
qed

text \<open>
  Withholding an event for a native steer hides exactly that event from
  dispatch and loses nothing: the first queued event with the id moves out of
  the channel's queue, and releasing it afterwards puts it back at the front,
  so the channel owes the same events before, during and after.
\<close>

theorem steer_withhold_release:
  assumes "queue_inv q" and "mark_native_steer_pending c i q = (True, q')"
    and "entries (withheld_native_steer q) c = []"
  shows "\<exists>e. ev_id_hex (qe_event e) = i \<and> e \<in> set (entries (queues q) c)
    \<and> mset (entries (queues q) c) = add_mset e (mset (entries (queues q') c))
    \<and> entries (queues (release_native_steer c i q')) c = e # entries (queues q') c
    \<and> pending q' c = pending q c \<and> pending (release_native_steer c i q') c = pending q c"
proof -
  obtain e ys where t: "take_by_id i (entries (queues q) c) = Some (e, ys)"
    and q': "queues q' = (queues q)(c := nonempty ys)" "withheld_native_steer q' = (withheld_native_steer q)(c \<mapsto> [e])"
      "cancelled_batches q' = cancelled_batches q"
    using assms(2,3) by (auto simp: mark_native_steer_pending_def split: option.splits)
  note e = take_by_id_Some [OF t] and len = take_by_id_set [OF t]
  have cap: "Suc (length ys) \<le> MAX_PENDING_PER_CHANNEL"
    using assms(1) len by (metis queue_inv_def lists_inv_def)
  have rel: "release_native_steer c i q' = q'\<lparr>withheld_native_steer := (withheld_native_steer q')(c := None),
      queues := (queues q')(c \<mapsto> e # ys)\<rparr>"
    using e cap by (simp add: release_native_steer_def q' nonempty_def trim_cap_id)
  show ?thesis
    using e len assms(3) by (intro exI [of _ e]) (auto simp: rel q' pending_def)
qed

theorem steer_withhold_release_witness:
  "\<exists>e. pending (release_native_steer 2 (show_nat 8) (snd (mark_native_steer_pending 2 (show_nat 8) demo_queue))) 2
      = pending demo_queue 2
    \<and> mset (entries (queues demo_queue) 2) =
        add_mset e (mset (entries (queues (snd (mark_native_steer_pending 2 (show_nat 8) demo_queue))) 2))"
proof -
  obtain r q' where m: "mark_native_steer_pending 2 (show_nat 8) demo_queue = (r, q')" by fastforce
  then have "r" by (auto simp: mark_native_steer_pending_def demo_event_def show_nat.simps split: if_splits)
  moreover have "entries (withheld_native_steer demo_queue) 2 = []" by (simp add: entries_def)
  ultimately show ?thesis
    using steer_withhold_release [OF demo_queue_inv, of 2 "show_nat 8" q'] m by auto
qed

end
