(* ===== verification/Text_Tools.thy ===== *)
theory Text_Tools
  imports CF_Prelude
begin

text \<open>
  The string operations of the Rust standard library that the Git, pairing and
  audit components use on member-supplied text: prefixes, splitting at a
  separator, the ASCII character classes, and the decimal digits of numbers.
  Text is a list of Unicode scalar values, as in the prelude.
\<close>

type_synonym bytes = "u8 list"

definition ustr :: "string \<Rightarrow> ustring" where
  "ustr s = map of_char s"

definition starts_with :: "ustring \<Rightarrow> ustring \<Rightarrow> bool" where
  "starts_with s p \<longleftrightarrow> take (length p) s = p"

definition ends_with :: "ustring \<Rightarrow> ustring \<Rightarrow> bool" where
  "ends_with s p \<longleftrightarrow> starts_with (rev s) (rev p)"

definition strip_prefix :: "ustring \<Rightarrow> ustring \<Rightarrow> ustring option" where
  "strip_prefix s p = (if starts_with s p then Some (drop (length p) s) else None)"

definition strip_suffix :: "ustring \<Rightarrow> ustring \<Rightarrow> ustring option" where
  "strip_suffix s p = (if ends_with s p then Some (take (length s - length p) s) else None)"

fun contains_str :: "ustring \<Rightarrow> ustring \<Rightarrow> bool" where
  "contains_str [] p \<longleftrightarrow> p = []"
| "contains_str (x # xs) p \<longleftrightarrow> starts_with (x # xs) p \<or> contains_str xs p"

text \<open>\<open>str::split\<close> at one character: the pieces between its occurrences.\<close>

fun split_on :: "nat \<Rightarrow> ustring \<Rightarrow> ustring list" where
  "split_on c [] = [[]]"
| "split_on c (x # xs) =
     (if x = c then [] # split_on c xs
      else (case split_on c xs of w # ws \<Rightarrow> (x # w) # ws | [] \<Rightarrow> [[x]]))"

fun join_on :: "nat \<Rightarrow> ustring list \<Rightarrow> ustring" where
  "join_on c [] = []"
| "join_on c [s] = s"
| "join_on c (s # t # ss) = s @ c # join_on c (t # ss)"

definition is_digit_cp :: "nat \<Rightarrow> bool" where
  "is_digit_cp c \<longleftrightarrow> 48 \<le> c \<and> c \<le> 57"

definition is_ascii_alphanumeric :: "nat \<Rightarrow> bool" where
  "is_ascii_alphanumeric c \<longleftrightarrow> is_digit_cp c \<or> (65 \<le> c \<and> c \<le> 90) \<or> (97 \<le> c \<and> c \<le> 122)"

definition is_hexdigit_cp :: "nat \<Rightarrow> bool" where
  "is_hexdigit_cp c \<longleftrightarrow> is_digit_cp c \<or> (65 \<le> c \<and> c \<le> 70) \<or> (97 \<le> c \<and> c \<le> 102)"

definition is_uppercase_cp :: "nat \<Rightarrow> bool" where
  "is_uppercase_cp c \<longleftrightarrow> 65 \<le> c \<and> c \<le> 90"

definition is_lower_hex_cp :: "nat \<Rightarrow> bool" where
  "is_lower_hex_cp c \<longleftrightarrow> is_digit_cp c \<or> (97 \<le> c \<and> c \<le> 102)"

abbreviation slash :: nat where "slash \<equiv> 47"


subsection \<open>Prefixes\<close>

lemma starts_with_iff: "starts_with s p \<longleftrightarrow> (\<exists>t. s = p @ t)"
  unfolding starts_with_def by (metis append_eq_conv_conj append_take_drop_id)

lemma starts_with_append [simp]: "starts_with (p @ t) p"
  by (auto simp: starts_with_iff)

lemma strip_prefix_Some_iff: "strip_prefix s p = Some t \<longleftrightarrow> s = p @ t"
  by (auto simp: strip_prefix_def starts_with_iff)

lemma strip_prefix_None_iff: "strip_prefix s p = None \<longleftrightarrow> \<not> starts_with s p"
  by (auto simp: strip_prefix_def)

lemma ustr_append [simp]: "ustr (s @ t) = ustr s @ ustr t"
  by (simp add: ustr_def)

lemma length_ustr [simp]: "length (ustr s) = length s"
  by (simp add: ustr_def)

lemma inj_of_char_nat: "inj (of_char :: char \<Rightarrow> nat)"
  by (rule injI) (simp add: of_char_eq_iff)

lemma ustr_inject [simp]: "ustr s = ustr t \<longleftrightarrow> s = t"
  unfolding ustr_def by (simp add: inj_map_eq_map [OF inj_of_char_nat])

lemma utf8_len_append [simp]: "utf8_len (s @ t) = utf8_len s + utf8_len t"
  by (simp add: utf8_len_def)

lemma utf8_len_Nil [simp]: "utf8_len [] = 0"
  by (simp add: utf8_len_def)

lemma utf8_len_ascii: "\<forall>c\<in>set s. c < 128 \<Longrightarrow> utf8_len s = length s"
  by (induction s) (simp_all add: utf8_len_def utf8_char_len_def)

lemma utf8_len_eq_0_iff [simp]: "utf8_len s = 0 \<longleftrightarrow> s = []"
  by (cases s) (simp_all add: utf8_len_def utf8_char_len_def)


subsection \<open>Splitting and joining\<close>

lemma split_on_not_Nil [simp]: "split_on c s \<noteq> []"
  by (cases s) (simp_all split: list.splits)

lemma join_on_Cons: "ss \<noteq> [] \<Longrightarrow> join_on c (s # ss) = s @ c # join_on c ss"
  by (cases ss) simp_all

lemma join_split [simp]: "join_on c (split_on c s) = s"
proof (induction s)
  case (Cons x xs)
  obtain w ws where w: "split_on c xs = w # ws"
    by (metis neq_Nil_conv split_on_not_Nil)
  with Cons show ?case by (cases ws) (auto simp: join_on_Cons)
qed simp

lemma split_on_no_sep: "w \<in> set (split_on c s) \<Longrightarrow> c \<notin> set w"
proof (induction s arbitrary: w)
  case (Cons x xs)
  obtain v vs where v: "split_on c xs = v # vs"
    by (metis neq_Nil_conv split_on_not_Nil)
  with Cons show ?case by (auto split: if_splits)
qed simp

lemma split_on_append_sep: "c \<notin> set s \<Longrightarrow> split_on c (s @ c # t) = s # split_on c t"
  by (induction s) auto

lemma split_on_no_sep_single: "c \<notin> set s \<Longrightarrow> split_on c s = [s]"
  by (induction s) auto

lemma split_join: "ss \<noteq> [] \<Longrightarrow> \<forall>s\<in>set ss. c \<notin> set s \<Longrightarrow> split_on c (join_on c ss) = ss"
proof (induction ss rule: join_on.induct)
  case (3 c s t ss)
  then show ?case by (simp add: split_on_append_sep)
qed (simp_all add: split_on_no_sep_single)


subsection \<open>Decimal digits\<close>

lemma show_nat_digits: "c \<in> set (show_nat n) \<Longrightarrow> is_digit_cp (of_char c)"
proof (induction n rule: show_nat.induct)
  case (1 n)
  have "n mod 10 < 10" by simp
  with 1 show ?case
    by (subst (asm) (2) show_nat.simps) (auto simp: is_digit_cp_def split: if_splits)
qed

fun digits_value :: "nat list \<Rightarrow> nat" where
  "digits_value ds = foldl (\<lambda>n d. 10 * n + (d - 48)) 0 ds"

lemma digits_value_snoc: "digits_value (ds @ [d]) = 10 * digits_value ds + (d - 48)"
  by simp

declare digits_value.simps [simp del]

lemma digits_value_single: "digits_value [d] = d - 48"
  by (simp add: digits_value.simps)

lemma digits_value_show: "digits_value (ustr (show_nat n)) = n"
proof (induction n rule: show_nat.induct)
  case (1 n)
  show ?case
  proof (cases "n < 10")
    case True
    then show ?thesis by (subst show_nat.simps) (simp add: ustr_def digits_value_single)
  next
    case False
    have "digits_value (ustr (show_nat n))
      = digits_value (ustr (show_nat (n div 10)) @ [48 + n mod 10])"
      using False by (subst show_nat.simps) (simp add: ustr_def)
    also have "\<dots> = 10 * (n div 10) + n mod 10"
      using 1 [OF False] by (simp only: digits_value_snoc)
    finally show ?thesis by simp
  qed
qed

lemma show_nat_inject [simp]: "show_nat m = show_nat n \<longleftrightarrow> m = n"
  by (metis digits_value_show)

lemma ustr_show_nat_digits: "c \<in> set (ustr (show_nat n)) \<Longrightarrow> is_digit_cp c"
  by (auto simp: ustr_def dest: show_nat_digits)


subsection \<open>UTF-8\<close>

text \<open>\<open>str::as_bytes\<close> and \<open>str::from_utf8\<close> (RFC 3629).\<close>

definition utf8_char :: "nat \<Rightarrow> nat list" where
  "utf8_char c =
     (if c < 128 then [c]
      else if c < 2048 then [192 + c div 64, 128 + c mod 64]
      else if c < 65536 then [224 + c div 4096, 128 + c div 64 mod 64, 128 + c mod 64]
      else [240 + c div 262144, 128 + c div 4096 mod 64, 128 + c div 64 mod 64, 128 + c mod 64])"

definition str_bytes :: "ustring \<Rightarrow> u8 list" where
  "str_bytes s = map word_of_nat (concat (map utf8_char s))"

lemma str_bytes_append [simp]: "str_bytes (s @ t) = str_bytes s @ str_bytes t"
  by (simp add: str_bytes_def)

lemma str_bytes_Nil [simp]: "str_bytes [] = []"
  by (simp add: str_bytes_def)

definition continuation :: "nat \<Rightarrow> bool" where
  "continuation b \<longleftrightarrow> 128 \<le> b \<and> b \<le> 191"

fun utf8_decode :: "nat list \<Rightarrow> ustring option" where
  "utf8_decode [] = Some []"
| "utf8_decode (a # bs) =
     (if a < 128 then map_option (Cons a) (utf8_decode bs)
      else if 194 \<le> a \<and> a \<le> 223 then
        (case bs of
           b # rest \<Rightarrow>
             if continuation b then map_option (Cons ((a - 192) * 64 + (b - 128))) (utf8_decode rest)
             else None
         | _ \<Rightarrow> None)
      else if 224 \<le> a \<and> a \<le> 239 then
        (case bs of
           b # c # rest \<Rightarrow>
             if continuation b \<and> continuation c \<and> (a = 224 \<longrightarrow> 160 \<le> b) \<and> (a = 237 \<longrightarrow> b \<le> 159)
             then map_option (Cons ((a - 224) * 4096 + (b - 128) * 64 + (c - 128))) (utf8_decode rest)
             else None
         | _ \<Rightarrow> None)
      else if 240 \<le> a \<and> a \<le> 244 then
        (case bs of
           b # c # d # rest \<Rightarrow>
             if continuation b \<and> continuation c \<and> continuation d
               \<and> (a = 240 \<longrightarrow> 144 \<le> b) \<and> (a = 244 \<longrightarrow> b \<le> 143)
             then map_option (Cons ((a - 240) * 262144 + (b - 128) * 4096 + (c - 128) * 64 + (d - 128)))
               (utf8_decode rest)
             else None
         | _ \<Rightarrow> None)
      else None)"

definition from_utf8 :: "u8 list \<Rightarrow> ustring option" where
  "from_utf8 bs = utf8_decode (map unat bs)"

lemma unat_ascii: "c < 128 \<Longrightarrow> unat (word_of_nat c :: u8) = c"
  by (simp add: unsigned_of_nat take_bit_nat_eq_self_iff)

lemma from_utf8_ascii: "list_all (\<lambda>c. c < 128) s \<Longrightarrow> from_utf8 (str_bytes s) = Some s"
  by (induction s) (auto simp: from_utf8_def str_bytes_def utf8_char_def unat_ascii)

lemma str_bytes_ascii_inject:
  "list_all (\<lambda>c. c < 128) s \<Longrightarrow> list_all (\<lambda>c. c < 128) t \<Longrightarrow> str_bytes s = str_bytes t \<longleftrightarrow> s = t"
  by (metis from_utf8_ascii option.inject)


subsection \<open>Lines and numbers\<close>

text \<open>\<open>str::lines\<close>: terminated lines lose a carriage return before the line feed.\<close>

definition strip_cr :: "ustring \<Rightarrow> ustring" where
  "strip_cr s = (if s \<noteq> [] \<and> last s = 13 then butlast s else s)"

definition str_lines :: "ustring \<Rightarrow> ustring list" where
  "str_lines s =
     (let parts = split_on 10 s in
      map strip_cr (butlast parts) @ (if last parts = [] then [] else [last parts]))"

text \<open>\<open>str::parse::<u64>\<close>: an optional plus sign and at least one digit, in range.\<close>

definition parse_u64 :: "ustring \<Rightarrow> u64 option" where
  "parse_u64 s =
     (let ds = (if s \<noteq> [] \<and> hd s = 43 then tl s else s) in
      if ds \<noteq> [] \<and> list_all is_digit_cp ds \<and> digits_value ds < 2 ^ 64
      then Some (word_of_nat (digits_value ds)) else None)"

end
