(* ===== verification/Git_Perms.thy ===== *)
theory Git_Perms
  imports Text_Tools
begin

text \<open>
  Repository permissions, from \<open>buzz-core/src/git_perms.rs\<close> and the member roles
  of \<open>buzz-core/src/channel.rs\<close>: ref patterns and their matching, the protection
  rules of a repository announcement, and the evaluation of a push.

  The two \<open>unreachable!()\<close> arms of the matcher are panics, so everything that
  matches a pattern returns an option and \<open>None\<close> is the panic.  Patterns built by
  \<open>RefPattern::parse\<close> never reach it.
\<close>

section \<open>Member roles\<close>

datatype member_role = Owner | Admin | Member | Guest | Bot

fun member_role_str :: "member_role \<Rightarrow> string" where
  "member_role_str Owner = ''owner''"
| "member_role_str Admin = ''admin''"
| "member_role_str Member = ''member''"
| "member_role_str Guest = ''guest''"
| "member_role_str Bot = ''bot''"

text \<open>The error text of \<open>FromStr\<close> is discarded by its callers.\<close>

definition member_role_from_str :: "ustring \<Rightarrow> member_role option" where
  "member_role_from_str s =
     (if s = ustr ''owner'' then Some Owner
      else if s = ustr ''admin'' then Some Admin
      else if s = ustr ''member'' then Some Member
      else if s = ustr ''guest'' then Some Guest
      else if s = ustr ''bot'' then Some Bot
      else None)"

fun permission_level :: "member_role \<Rightarrow> u8" where
  "permission_level Owner = 4"
| "permission_level Admin = 3"
| "permission_level Member = 2"
| "permission_level Guest = 1"
| "permission_level Bot = 0"

definition has_at_least :: "member_role \<Rightarrow> member_role \<Rightarrow> bool" where
  "has_at_least role required \<longleftrightarrow> permission_level role \<ge> permission_level required"


section \<open>Ref patterns\<close>

definition MAX_PROTECTION_RULES :: nat where "MAX_PROTECTION_RULES = 50"
definition MAX_PATTERN_LENGTH :: nat where "MAX_PATTERN_LENGTH = 256"
definition MAX_WILDCARDS_PER_PATTERN :: nat where "MAX_WILDCARDS_PER_PATTERN = 3"

datatype pattern_segment = Literal ustring | Wildcard | RecursiveWildcard

record ref_pattern =
  raw :: ustring
  segments :: "pattern_segment list"

datatype pattern_error =
    PatternEmpty
  | PatternTooLong
  | MissingRefsPrefix
  | InvalidSegment ustring
  | TooManyWildcards

fun parse_parts :: "nat \<Rightarrow> ustring list \<Rightarrow> (pattern_segment list, pattern_error) result" where
  "parse_parts wildcard_count [] = Ok []"
| "parse_parts wildcard_count (part # rest) =
     (if part = ustr ''**'' then
        if rest \<noteq> [] then Err (InvalidSegment (ustr ''** must be the last segment''))
        else if wildcard_count + 1 > MAX_WILDCARDS_PER_PATTERN then Err TooManyWildcards
        else bind_r (parse_parts (wildcard_count + 1) rest) (\<lambda>segs. Ok (RecursiveWildcard # segs))
      else if part = ustr ''*'' then
        if wildcard_count + 1 > MAX_WILDCARDS_PER_PATTERN then Err TooManyWildcards
        else bind_r (parse_parts (wildcard_count + 1) rest) (\<lambda>segs. Ok (Wildcard # segs))
      else if part = [] then Err (InvalidSegment [])
      else if \<exists>c\<in>set part. c \<in> {42, 63, 91, 93} then Err (InvalidSegment part)
      else if \<not> (\<forall>c\<in>set part. is_ascii_alphanumeric c \<or> c = 46 \<or> c = 95 \<or> c = 45) then
        Err (InvalidSegment part)
      else bind_r (parse_parts wildcard_count rest) (\<lambda>segs. Ok (Literal part # segs)))"

definition pattern_parse :: "ustring \<Rightarrow> (ref_pattern, pattern_error) result" where
  "pattern_parse pattern =
     (if pattern = [] then Err PatternEmpty
      else if utf8_len pattern > MAX_PATTERN_LENGTH then Err PatternTooLong
      else if \<not> starts_with pattern (ustr ''refs/'') then Err MissingRefsPrefix
      else bind_r (parse_parts 0 (split_on slash pattern))
        (\<lambda>segs. Ok \<lparr>raw = pattern, segments = segs\<rparr>))"

fun segment_matches :: "pattern_segment \<times> ustring \<Rightarrow> bool option" where
  "segment_matches (Wildcard, seg) = Some True"
| "segment_matches (Literal lit, seg) = Some (lit = seg)"
| "segment_matches (RecursiveWildcard, seg) = None"

text \<open>\<open>Iterator::all\<close>, which stops at the first refusal, over a test that may panic.\<close>

fun all_opt :: "('a \<Rightarrow> bool option) \<Rightarrow> 'a list \<Rightarrow> bool option" where
  "all_opt f [] = Some True"
| "all_opt f (x # xs) =
     (case f x of None \<Rightarrow> None | Some False \<Rightarrow> Some False | Some True \<Rightarrow> all_opt f xs)"

definition pattern_matches :: "ref_pattern \<Rightarrow> ustring \<Rightarrow> bool option" where
  "pattern_matches p ref_name =
     (let ref_segments = split_on slash ref_name; segs = segments p in
      if segs \<noteq> [] \<and> last segs = RecursiveWildcard then
        (let prefix_len = length segs - 1 in
         if length ref_segments \<le> prefix_len then Some False
         else all_opt segment_matches (zip (take prefix_len segs) (take prefix_len ref_segments)))
      else if length ref_segments \<noteq> length segs then Some False
      else all_opt segment_matches (zip segs ref_segments))"


section \<open>Protection rules\<close>

datatype update_kind = Create | FastForward | NonFastForward | Delete

definition ZERO_OID :: ustring where
  "ZERO_OID = ustr ''0000000000000000000000000000000000000000''"

definition classify :: "ustring \<Rightarrow> ustring \<Rightarrow> bool \<Rightarrow> update_kind" where
  "classify old_oid new_oid is_ancestor =
     (if old_oid = ZERO_OID then Create
      else if new_oid = ZERO_OID then Delete
      else if is_ancestor then FastForward
      else NonFastForward)"

record ref_update =
  ref_name :: ustring
  kind :: update_kind
  old_oid :: ustring
  new_oid :: ustring

record protection_rule =
  pattern :: ref_pattern
  push_role :: "member_role option"
  no_force_push :: bool
  no_delete :: bool
  require_patch :: bool

datatype rule_parse_error =
    TooFewValues
  | TooManyRules
  | InvalidPattern pattern_error
  | UnknownRule ustring
  | InvalidRole ustring

text \<open>The stricter of an existing requirement and a further one.\<close>

definition strictest :: "member_role option \<Rightarrow> member_role \<Rightarrow> member_role" where
  "strictest current role =
     (case current of
        None \<Rightarrow> role
      | Some existing \<Rightarrow>
          if permission_level role > permission_level existing then role else existing)"

fun parse_rules ::
  "protection_rule \<times> ustring list \<Rightarrow> ustring list
   \<Rightarrow> (protection_rule \<times> ustring list, rule_parse_error) result" where
  "parse_rules (rule, unknown) [] = Ok (rule, unknown)"
| "parse_rules (rule, unknown) (rule_str # rest) =
     (case strip_prefix rule_str (ustr ''push:'') of
        Some role_str \<Rightarrow>
          bind_r (ok_or (InvalidRole role_str) (member_role_from_str role_str)) (\<lambda>role.
            if role \<in> {Bot, Guest} then Err (InvalidRole role_str)
            else parse_rules
              (rule\<lparr>push_role := Some (strictest (push_role rule) role)\<rparr>, unknown) rest)
      | None \<Rightarrow>
          if rule_str = ustr ''no-force-push'' then
            parse_rules (rule\<lparr>no_force_push := True\<rparr>, unknown) rest
          else if rule_str = ustr ''no-delete'' then
            parse_rules (rule\<lparr>no_delete := True\<rparr>, unknown) rest
          else if rule_str = ustr ''require-patch'' then
            parse_rules (rule\<lparr>require_patch := True\<rparr>, unknown) rest
          else parse_rules (rule, unknown @ [rule_str]) rest)"

definition parse_protection_tag_with_warnings ::
  "ustring list \<Rightarrow> (protection_rule \<times> ustring list, rule_parse_error) result" where
  "parse_protection_tag_with_warnings values =
     (if length values < 2 then Err TooFewValues
      else bind_r (map_err InvalidPattern (pattern_parse (values ! 0))) (\<lambda>pat.
        parse_rules
          (\<lparr>pattern = pat, push_role = None, no_force_push = False, no_delete = False,
            require_patch = False\<rparr>, [])
          (drop 1 values)))"

definition parse_protection_tag :: "ustring list \<Rightarrow> (protection_rule, rule_parse_error) result" where
  "parse_protection_tag values =
     bind_r (parse_protection_tag_with_warnings values) (\<lambda>(rule, _). Ok rule)"

record parsed_protection =
  rules :: "protection_rule list"
  unknown_rules :: "ustring list"

fun parse_tags ::
  "parsed_protection \<Rightarrow> ustring list list \<Rightarrow> (parsed_protection, rule_parse_error) result" where
  "parse_tags acc [] = Ok acc"
| "parse_tags acc (tag # rest) =
     (if tag = [] \<or> hd tag \<noteq> ustr ''buzz-protect'' then parse_tags acc rest
      else if length (rules acc) \<ge> MAX_PROTECTION_RULES then Err TooManyRules
      else bind_r (parse_protection_tag_with_warnings (drop 1 tag)) (\<lambda>(rule, unknowns).
        parse_tags \<lparr>rules = rules acc @ [rule], unknown_rules = unknown_rules acc @ unknowns\<rparr> rest))"

definition parse_protection_tags ::
  "ustring list list \<Rightarrow> (parsed_protection, rule_parse_error) result" where
  "parse_protection_tags tags = parse_tags \<lparr>rules = [], unknown_rules = []\<rparr> tags"


section \<open>Evaluating a push\<close>

definition default_min_role :: "ustring \<Rightarrow> update_kind \<Rightarrow> member_role" where
  "default_min_role name k =
     (let is_branch = starts_with name (ustr ''refs/heads/'');
          is_tag = starts_with name (ustr ''refs/tags/'') in
      case k of
        Create \<Rightarrow> if is_branch \<or> is_tag then Member else Admin
      | FastForward \<Rightarrow> if is_branch then Member else if is_tag then Admin else Admin
      | NonFastForward \<Rightarrow> Admin
      | Delete \<Rightarrow> Admin)"

record effective_rules =
  er_push_role :: "member_role option"
  er_no_force_push :: bool
  er_no_delete :: bool
  er_require_patch :: bool
  has_explicit_match :: bool

fun union_rules ::
  "ustring \<Rightarrow> effective_rules \<Rightarrow> protection_rule list \<Rightarrow> effective_rules option" where
  "union_rules name acc [] = Some acc"
| "union_rules name acc (rule # rest) =
     (case pattern_matches (pattern rule) name of
        None \<Rightarrow> None
      | Some False \<Rightarrow> union_rules name acc rest
      | Some True \<Rightarrow> union_rules name
          \<lparr>er_push_role =
             (case push_role rule of
                Some role \<Rightarrow> Some (strictest (er_push_role acc) role)
              | None \<Rightarrow> er_push_role acc),
           er_no_force_push = (er_no_force_push acc \<or> no_force_push rule),
           er_no_delete = (er_no_delete acc \<or> no_delete rule),
           er_require_patch = (er_require_patch acc \<or> require_patch rule),
           has_explicit_match = True\<rparr> rest)"

definition for_ref :: "ustring \<Rightarrow> protection_rule list \<Rightarrow> effective_rules option" where
  "for_ref name rs = union_rules name
     \<lparr>er_push_role = None, er_no_force_push = False, er_no_delete = False,
      er_require_patch = False, has_explicit_match = False\<rparr> rs"

record denial =
  denial_ref :: ustring
  reason :: string

definition evaluate_effective ::
  "ref_update \<Rightarrow> member_role \<Rightarrow> effective_rules \<Rightarrow> (unit, denial) result" where
  "evaluate_effective update role effective =
     (if \<not> has_explicit_match effective then
        (let min_role = default_min_role (ref_name update) (kind update) in
         if \<not> has_at_least role min_role then
           Err \<lparr>denial_ref = ref_name update,
                reason = ''requires '' @ member_role_str min_role @ '' role (you have ''
                  @ member_role_str role @ ''), using built-in defaults''\<rparr>
         else Ok ())
      else if er_require_patch effective then
        Err \<lparr>denial_ref = ref_name update,
             reason = ''direct push denied: require-patch is set, submit a NIP-34 patch''\<rparr>
      else
        (let default_role = default_min_role (ref_name update) (kind update);
             min_role =
               (case er_push_role effective of
                  Some explicit \<Rightarrow>
                    if permission_level explicit \<ge> permission_level default_role
                    then explicit else default_role
                | None \<Rightarrow> default_role) in
         if \<not> has_at_least role min_role then
           Err \<lparr>denial_ref = ref_name update,
                reason = ''requires '' @ member_role_str min_role @ '' role (you have ''
                  @ member_role_str role @ '')''\<rparr>
         else if er_no_force_push effective \<and> kind update = NonFastForward then
           Err \<lparr>denial_ref = ref_name update,
                reason = ''non-fast-forward update denied: no-force-push is set''\<rparr>
         else if er_no_delete effective \<and> kind update = Delete then
           Err \<lparr>denial_ref = ref_name update,
                reason = ''ref deletion denied: no-delete is set''\<rparr>
         else Ok ()))"

definition evaluate_ref_update ::
  "ref_update \<Rightarrow> member_role \<Rightarrow> protection_rule list \<Rightarrow> (unit, denial) result option" where
  "evaluate_ref_update update role rs =
     map_option (evaluate_effective update role) (for_ref (ref_name update) rs)"

fun collect_denials ::
  "member_role \<Rightarrow> protection_rule list \<Rightarrow> ref_update list \<Rightarrow> denial list option" where
  "collect_denials role rs [] = Some []"
| "collect_denials role rs (u # us) =
     (case evaluate_ref_update u role rs of
        None \<Rightarrow> None
      | Some outcome \<Rightarrow>
          map_option (\<lambda>ds. case outcome of Ok _ \<Rightarrow> ds | Err d \<Rightarrow> d # ds)
            (collect_denials role rs us))"

definition evaluate_push ::
  "ref_update list \<Rightarrow> member_role \<Rightarrow> protection_rule list \<Rightarrow> (unit, denial list) result option" where
  "evaluate_push updates role rs =
     map_option (\<lambda>denials. if denials = [] then Ok () else Err denials)
       (collect_denials role rs updates)"


section \<open>The pattern language\<close>

text \<open>
  The grammar the parser accepts, as a predicate on segments, and the meaning of
  a pattern as a relation between its segments and those of a ref name.
\<close>

fun segment_text :: "pattern_segment \<Rightarrow> ustring" where
  "segment_text (Literal s) = s"
| "segment_text Wildcard = ustr ''*''"
| "segment_text RecursiveWildcard = ustr ''**''"

definition literal_char :: "nat \<Rightarrow> bool" where
  "literal_char c \<longleftrightarrow> is_ascii_alphanumeric c \<or> c = 46 \<or> c = 95 \<or> c = 45"

fun segment_ok :: "pattern_segment \<Rightarrow> bool" where
  "segment_ok (Literal s) \<longleftrightarrow> s \<noteq> [] \<and> list_all literal_char s"
| "segment_ok _ \<longleftrightarrow> True"

fun is_wild :: "pattern_segment \<Rightarrow> bool" where
  "is_wild (Literal _) = False"
| "is_wild _ = True"

definition segments_ok :: "pattern_segment list \<Rightarrow> bool" where
  "segments_ok segs \<longleftrightarrow> list_all segment_ok segs \<and> RecursiveWildcard \<notin> set (butlast segs)
     \<and> length (filter is_wild segs) \<le> 3"

fun glob :: "pattern_segment list \<Rightarrow> ustring list \<Rightarrow> bool" where
  "glob [] [] \<longleftrightarrow> True"
| "glob [RecursiveWildcard] (s # ss) \<longleftrightarrow> True"
| "glob (Wildcard # ps) (s # ss) \<longleftrightarrow> glob ps ss"
| "glob (Literal l # ps) (s # ss) \<longleftrightarrow> l = s \<and> glob ps ss"
| "glob _ _ \<longleftrightarrow> False"

lemma star_texts:
  "ustr ''*'' = [42]" "ustr ''**'' = [42, 42]"
  by (simp_all add: ustr_def)

lemma not_literal_char: "\<not> literal_char 42" "\<not> literal_char 63" "\<not> literal_char 91" "\<not> literal_char 93"
  "\<not> literal_char slash"
  by (simp_all add: literal_char_def is_ascii_alphanumeric_def is_digit_cp_def)

lemma parse_literal_guard:
  "(\<not> (\<exists>c\<in>set part. c \<in> {42, 63, 91, 93})) \<and> (\<forall>c\<in>set part. is_ascii_alphanumeric c \<or> c = 46 \<or> c = 95 \<or> c = 45)
   \<longleftrightarrow> list_all literal_char part"
  using not_literal_char by (auto simp: list_all_iff simp flip: literal_char_def)

lemma literal_not_star:
  "list_all literal_char part \<Longrightarrow> part \<noteq> ustr ''*'' \<and> part \<noteq> ustr ''**''"
  using not_literal_char by (auto simp: star_texts)

lemma parse_parts_Cons_literal:
  assumes "part \<noteq> ustr ''*''" "part \<noteq> ustr ''**''"
  shows "parse_parts n (part # rest) =
    (if part \<noteq> [] \<and> list_all literal_char part
     then bind_r (parse_parts n rest) (\<lambda>segs. Ok (Literal part # segs))
     else Err (InvalidSegment part))"
  using assms parse_literal_guard [of part] by auto

lemma segment_text_eq_star [simp]:
  "segment_ok s \<Longrightarrow> segment_text s = ustr ''*'' \<longleftrightarrow> s = Wildcard"
  "segment_ok s \<Longrightarrow> segment_text s = ustr ''**'' \<longleftrightarrow> s = RecursiveWildcard"
  "segment_ok s \<Longrightarrow> ustr ''*'' = segment_text s \<longleftrightarrow> s = Wildcard"
  "segment_ok s \<Longrightarrow> ustr ''**'' = segment_text s \<longleftrightarrow> s = RecursiveWildcard"
  using literal_not_star by (cases s; force simp: star_texts)+

lemma parse_parts_Ok_iff:
  assumes "n \<le> 3"
  shows "parse_parts n parts = Ok segs \<longleftrightarrow>
    parts = map segment_text segs \<and> list_all segment_ok segs
    \<and> RecursiveWildcard \<notin> set (butlast segs) \<and> n + length (filter is_wild segs) \<le> 3"
  using assms
proof (induction parts arbitrary: n segs)
  case Nil
  then show ?case by auto
next
  case (Cons part rest)
  show ?case
  proof (cases "part = ustr ''**'' \<or> part = ustr ''*''")
    case True
    then show ?thesis
    proof
      assume part: "part = ustr ''**''"
      show ?thesis
      proof (cases segs)
        case Cons': (Cons s ss)
        show ?thesis
        proof (cases rest)
          case Nil
          with part Cons' Cons.prems show ?thesis
            by (cases "n = 3") (auto simp: MAX_WILDCARDS_PER_PATTERN_def split: if_splits)
        next
          case (Cons r rs)
          with part Cons' show ?thesis by auto
        qed
      qed (use part Cons.prems in \<open>auto simp: result_inv\<close>)
    next
      assume part: "part = ustr ''*''"
      then have "part \<noteq> ustr ''**''" by simp
      with part Cons show ?thesis
        by (cases segs; cases "n = 3")
          (auto simp: MAX_WILDCARDS_PER_PATTERN_def result_inv split: if_splits)
    qed
  next
    case False
    show ?thesis
    proof (cases segs)
      case Nil
      with False show ?thesis
        by (auto simp: parse_parts_Cons_literal result_inv simp del: parse_parts.simps)
    next
      case Cons': (Cons s ss)
      with False Cons show ?thesis
        by (cases s)
          (auto simp: parse_parts_Cons_literal result_inv simp del: parse_parts.simps)
    qed
  qed
qed

lemma segment_text_no_slash: "segment_ok s \<Longrightarrow> slash \<notin> set (segment_text s)"
  using not_literal_char(5) by (cases s) (auto simp: star_texts list_all_iff)

lemma pattern_parse_Ok_iff:
  "pattern_parse p = Ok pat \<longleftrightarrow>
    raw pat = p \<and> utf8_len p \<le> 256 \<and> starts_with p (ustr ''refs/'')
    \<and> segments_ok (segments pat) \<and> segments pat \<noteq> []
    \<and> p = join_on slash (map segment_text (segments pat))"
  (is "_ \<longleftrightarrow> ?accepted")
proof -
  have texts: "split_on slash p = map segment_text segs
      \<longleftrightarrow> segs \<noteq> [] \<and> p = join_on slash (map segment_text segs)"
    if "list_all segment_ok segs" for segs
  proof -
    have clean: "\<forall>t\<in>set (map segment_text segs). slash \<notin> set t"
      using that by (auto simp: list_all_iff segment_text_no_slash)
    show ?thesis
    proof
      assume eq: "split_on slash p = map segment_text segs"
      then have "segs \<noteq> []" using split_on_not_Nil by (metis list.map_disc_iff)
      with eq show "segs \<noteq> [] \<and> p = join_on slash (map segment_text segs)"
        using join_split by metis
    qed (simp add: split_join [OF _ clean])
  qed
  have nonempty: "starts_with p (ustr ''refs/'') \<Longrightarrow> p \<noteq> []"
    by (auto simp: starts_with_iff ustr_def)
  have "pattern_parse p = Ok pat \<longleftrightarrow>
      p \<noteq> [] \<and> utf8_len p \<le> 256 \<and> starts_with p (ustr ''refs/'')
      \<and> parse_parts 0 (split_on slash p) = Ok (segments pat) \<and> raw pat = p"
    by (cases pat) (auto simp: pattern_parse_def MAX_PATTERN_LENGTH_def result_inv)
  also have "\<dots> \<longleftrightarrow> ?accepted"
    using texts [of "segments pat"] nonempty by (auto simp: parse_parts_Ok_iff segments_ok_def)
  finally show ?thesis .
qed

lemma glob_length: "RecursiveWildcard \<notin> set ps \<Longrightarrow> glob ps ss \<Longrightarrow> length ss = length ps"
  by (induction ps ss rule: glob.induct) auto

lemma all_opt_glob:
  "RecursiveWildcard \<notin> set ps \<Longrightarrow> length ss = length ps \<Longrightarrow>
   all_opt segment_matches (zip ps ss) = Some (glob ps ss)"
proof (induction ps arbitrary: ss)
  case (Cons q qs)
  then show ?case by (cases q; cases ss) (auto split: bool.split)
qed simp

lemma glob_snoc_recursive:
  "RecursiveWildcard \<notin> set ps \<Longrightarrow>
   glob (ps @ [RecursiveWildcard]) ss \<longleftrightarrow> length ps < length ss \<and> glob ps (take (length ps) ss)"
proof (induction ps arbitrary: ss)
  case Nil
  then show ?case by (cases ss) auto
next
  case (Cons q qs)
  then show ?case by (cases q; cases ss) auto
qed

lemma pattern_matches_glob:
  assumes "RecursiveWildcard \<notin> set (butlast (segments p))"
  shows "pattern_matches p name = Some (glob (segments p) (split_on slash name))"
proof (cases "segments p \<noteq> [] \<and> last (segments p) = RecursiveWildcard")
  case True
  then have "segments p = butlast (segments p) @ [RecursiveWildcard]"
    by (metis append_butlast_last_id)
  moreover define ps where "ps = butlast (segments p)"
  ultimately have segs: "segments p = ps @ [RecursiveWildcard]" and ps: "RecursiveWildcard \<notin> set ps"
    using assms by simp_all
  show ?thesis
    using all_opt_glob [OF ps, of "take (length ps) (split_on slash name)"]
    by (cases "length (split_on slash name) \<le> length ps")
      (simp_all add: pattern_matches_def segs glob_snoc_recursive [OF ps] Let_def)
next
  case False
  then have "RecursiveWildcard \<notin> set (segments p)"
    using assms by (metis append_butlast_last_id set_ConsD rotate1.simps(2) set_rotate1 empty_iff list.set(1))
  then show ?thesis
    using False glob_length [of "segments p" "split_on slash name"] all_opt_glob
    by (auto simp: pattern_matches_def Let_def)
qed


section \<open>What a push may do\<close>

text \<open>
  The intended policy, independent of the order and repetition of rules: the
  pusher has the built-in minimum role and satisfies every matching rule.
\<close>

definition rule_covers :: "protection_rule \<Rightarrow> ustring \<Rightarrow> bool" where
  "rule_covers rule name \<longleftrightarrow> glob (segments (pattern rule)) (split_on slash name)"

definition satisfies :: "member_role \<Rightarrow> ref_update \<Rightarrow> protection_rule \<Rightarrow> bool" where
  "satisfies role u rule \<longleftrightarrow>
     \<not> require_patch rule
     \<and> (case push_role rule of None \<Rightarrow> True | Some r \<Rightarrow> has_at_least role r)
     \<and> \<not> (no_force_push rule \<and> kind u = NonFastForward)
     \<and> \<not> (no_delete rule \<and> kind u = Delete)"

definition permitted :: "member_role \<Rightarrow> protection_rule list \<Rightarrow> ref_update \<Rightarrow> bool" where
  "permitted role rs u \<longleftrightarrow>
     has_at_least role (default_min_role (ref_name u) (kind u))
     \<and> list_all (\<lambda>rule. rule_covers rule (ref_name u) \<longrightarrow> satisfies role u rule) rs"

definition rules_ok :: "protection_rule list \<Rightarrow> bool" where
  "rules_ok rs \<longleftrightarrow> list_all (\<lambda>rule. segments_ok (segments (pattern rule))) rs"

lemma has_at_least_refl [simp]: "has_at_least role role"
  by (simp add: has_at_least_def)

lemma has_at_least_trans: "has_at_least a b \<Longrightarrow> has_at_least b c \<Longrightarrow> has_at_least a c"
  by (simp add: has_at_least_def)

lemma has_at_least_strictest [simp]:
  "has_at_least role (strictest current r) \<longleftrightarrow>
     has_at_least role r \<and> (case current of None \<Rightarrow> True | Some c \<Rightarrow> has_at_least role c)"
  by (auto simp: has_at_least_def strictest_def split: option.splits)

definition within :: "member_role \<Rightarrow> ref_update \<Rightarrow> effective_rules \<Rightarrow> bool" where
  "within role u e \<longleftrightarrow>
     \<not> er_require_patch e
     \<and> (case er_push_role e of None \<Rightarrow> True | Some r \<Rightarrow> has_at_least role r)
     \<and> \<not> (er_no_force_push e \<and> kind u = NonFastForward)
     \<and> \<not> (er_no_delete e \<and> kind u = Delete)"

lemma union_rules_within:
  assumes "rules_ok rs"
  shows "\<exists>e. union_rules name acc rs = Some e
    \<and> (within role u e \<longleftrightarrow> within role u acc
        \<and> list_all (\<lambda>rule. rule_covers rule name \<longrightarrow> satisfies role u rule) rs)
    \<and> (has_explicit_match e \<longleftrightarrow> has_explicit_match acc \<or> list_ex (\<lambda>rule. rule_covers rule name) rs)"
  using assms
proof (induction rs arbitrary: acc)
  case (Cons rule rs)
  then have m: "pattern_matches (pattern rule) name = Some (rule_covers rule name)"
    by (simp add: pattern_matches_glob rules_ok_def segments_ok_def rule_covers_def)
  show ?case
  proof (cases "rule_covers rule name")
    case True
    let ?acc = "\<lparr>er_push_role =
             (case push_role rule of
                Some role \<Rightarrow> Some (strictest (er_push_role acc) role)
              | None \<Rightarrow> er_push_role acc),
           er_no_force_push = (er_no_force_push acc \<or> no_force_push rule),
           er_no_delete = (er_no_delete acc \<or> no_delete rule),
           er_require_patch = (er_require_patch acc \<or> require_patch rule),
           has_explicit_match = True\<rparr>"
    have "within role u ?acc \<longleftrightarrow> within role u acc \<and> satisfies role u rule"
      by (auto simp: within_def satisfies_def split: option.splits)
    with Cons.IH [of ?acc] Cons.prems True m show ?thesis
      by (fastforce simp: rules_ok_def)
  next
    case False
    with Cons.IH [of acc] Cons.prems m show ?thesis by (simp add: rules_ok_def)
  qed
qed simp

lemma evaluate_ref_update_decides:
  assumes "rules_ok rs"
  shows "\<exists>outcome. evaluate_ref_update u role rs = Some outcome
    \<and> (outcome = Ok () \<longleftrightarrow> permitted role rs u)
    \<and> (\<forall>d. outcome = Err d \<longrightarrow> denial_ref d = ref_name u)"
proof -
  let ?init = "\<lparr>er_push_role = None, er_no_force_push = False, er_no_delete = False,
      er_require_patch = False, has_explicit_match = False\<rparr>"
  obtain e where e: "for_ref (ref_name u) rs = Some e"
    and w: "within role u e \<longleftrightarrow>
      list_all (\<lambda>rule. rule_covers rule (ref_name u) \<longrightarrow> satisfies role u rule) rs"
    and ex: "has_explicit_match e \<longleftrightarrow> list_ex (\<lambda>rule. rule_covers rule (ref_name u)) rs"
    using union_rules_within [OF assms, of "ref_name u" ?init role u]
    by (auto simp: for_ref_def within_def)
  have none: "\<not> has_explicit_match e \<Longrightarrow>
      list_all (\<lambda>rule. rule_covers rule (ref_name u) \<longrightarrow> satisfies role u rule) rs"
    using ex by (auto simp: list_all_iff list_ex_iff)
  have "evaluate_effective u role e = Ok () \<longleftrightarrow> permitted role rs u"
    using none w
    by (auto simp: evaluate_effective_def permitted_def within_def has_at_least_def Let_def
        split: option.splits if_splits)
  moreover have "evaluate_effective u role e = Err d \<Longrightarrow> denial_ref d = ref_name u" for d
    by (auto simp: evaluate_effective_def Let_def split: option.splits if_splits)
  ultimately show ?thesis by (simp add: evaluate_ref_update_def e)
qed

lemma collect_denials_spec:
  assumes "rules_ok rs"
  shows "\<exists>ds. collect_denials role rs us = Some ds
    \<and> map denial_ref ds = map ref_name (filter (\<lambda>u. \<not> permitted role rs u) us)"
proof (induction us)
  case (Cons u us)
  from evaluate_ref_update_decides [OF assms, of u role]
  obtain outcome where o: "evaluate_ref_update u role rs = Some outcome"
    "outcome = Ok () \<longleftrightarrow> permitted role rs u" "\<forall>d. outcome = Err d \<longrightarrow> denial_ref d = ref_name u"
    by blast
  with Cons show ?case by (cases outcome) auto
qed simp


section \<open>What an announcement says\<close>

text \<open>
  The meaning of the raw tags of an announcement, read without the parser: which
  tags are protections, which refs they cover and what each rule word demands.
\<close>

definition protects :: "ustring list \<Rightarrow> bool" where
  "protects tag \<longleftrightarrow> tag \<noteq> [] \<and> hd tag = ustr ''buzz-protect''"

definition tag_covers :: "ustring list \<Rightarrow> ustring \<Rightarrow> bool" where
  "tag_covers tag name \<longleftrightarrow>
     (case pattern_parse (tag ! 1) of Ok pat \<Rightarrow> glob (segments pat) (split_on slash name) | Err _ \<Rightarrow> False)"

definition word_ok :: "ustring \<Rightarrow> bool" where
  "word_ok w \<longleftrightarrow>
     (case strip_prefix w (ustr ''push:'') of
        None \<Rightarrow> True
      | Some t \<Rightarrow> t \<in> {ustr ''owner'', ustr ''admin'', ustr ''member''})"

definition word_allows :: "member_role \<Rightarrow> ref_update \<Rightarrow> ustring \<Rightarrow> bool" where
  "word_allows role u w \<longleftrightarrow>
     w \<noteq> ustr ''require-patch''
     \<and> (w = ustr ''no-force-push'' \<longrightarrow> kind u \<noteq> NonFastForward)
     \<and> (w = ustr ''no-delete'' \<longrightarrow> kind u \<noteq> Delete)
     \<and> (w = ustr ''push:owner'' \<longrightarrow> has_at_least role Owner)
     \<and> (w = ustr ''push:admin'' \<longrightarrow> has_at_least role Admin)
     \<and> (w = ustr ''push:member'' \<longrightarrow> has_at_least role Member)"

definition tag_ok :: "ustring list \<Rightarrow> bool" where
  "tag_ok tag \<longleftrightarrow> length tag \<ge> 3 \<and> (\<exists>pat. pattern_parse (tag ! 1) = Ok pat)
     \<and> list_all word_ok (drop 2 tag)"

definition tag_allows :: "member_role \<Rightarrow> ref_update \<Rightarrow> ustring list \<Rightarrow> bool" where
  "tag_allows role u tag \<longleftrightarrow>
     (protects tag \<and> tag_covers tag (ref_name u) \<longrightarrow> list_all (word_allows role u) (drop 2 tag))"

definition announced :: "member_role \<Rightarrow> ustring list list \<Rightarrow> ref_update \<Rightarrow> bool" where
  "announced role tags u \<longleftrightarrow>
     has_at_least role (default_min_role (ref_name u) (kind u)) \<and> list_all (tag_allows role u) tags"

lemma push_word:
  assumes "strip_prefix w (ustr ''push:'') = Some t"
  shows "w \<noteq> ustr ''require-patch''" "w \<noteq> ustr ''no-force-push''" "w \<noteq> ustr ''no-delete''"
    and "w = ustr ''push:owner'' \<longleftrightarrow> t = ustr ''owner''" "w = ustr ''push:admin'' \<longleftrightarrow> t = ustr ''admin''"
      "w = ustr ''push:member'' \<longleftrightarrow> t = ustr ''member''"
  using assms by (auto simp: strip_prefix_Some_iff ustr_def)

lemma other_word:
  assumes "strip_prefix w (ustr ''push:'') = None"
  shows "w \<noteq> ustr ''push:owner''" "w \<noteq> ustr ''push:admin''" "w \<noteq> ustr ''push:member''"
  using assms by (auto simp: strip_prefix_None_iff starts_with_iff ustr_def)

lemma member_role_from_str_push:
  "(\<exists>role. member_role_from_str t = Some role \<and> role \<notin> {Bot, Guest})
   \<longleftrightarrow> t \<in> {ustr ''owner'', ustr ''admin'', ustr ''member''}"
  by (auto simp: member_role_from_str_def)

lemma parse_rules_step:
  "parse_rules (rule, unknown) (w # ws) = Ok (rule', unknown') \<Longrightarrow>
   word_ok w \<and> (\<exists>rule1 unknown1. parse_rules (rule1, unknown1) ws = Ok (rule', unknown')
     \<and> pattern rule1 = pattern rule
     \<and> (satisfies role u rule1 \<longleftrightarrow> satisfies role u rule \<and> word_allows role u w))"
proof (cases "strip_prefix w (ustr ''push:'')")
  case None
  moreover assume "parse_rules (rule, unknown) (w # ws) = Ok (rule', unknown')"
  moreover note other_word [OF None]
  ultimately show ?thesis
    by (force simp: word_ok_def word_allows_def satisfies_def split: if_splits)
next
  case (Some t)
  assume "parse_rules (rule, unknown) (w # ws) = Ok (rule', unknown')"
  with Some obtain r where r: "member_role_from_str t = Some r" "r \<notin> {Bot, Guest}"
    and rest: "parse_rules (rule\<lparr>push_role := Some (strictest (push_role rule) r)\<rparr>, unknown) ws
      = Ok (rule', unknown')"
    by (auto simp: result_inv split: if_splits)
  have "word_ok w"
    using member_role_from_str_push [of t] r Some by (auto simp: word_ok_def)
  moreover have "word_allows role u w \<longleftrightarrow> has_at_least role r"
    using r push_word [OF Some]
    by (auto simp: word_allows_def member_role_from_str_def split: if_splits)
  then have "satisfies role u (rule\<lparr>push_role := Some (strictest (push_role rule) r)\<rparr>)
      \<longleftrightarrow> satisfies role u rule \<and> word_allows role u w"
    by (auto simp: satisfies_def split: option.splits)
  ultimately show ?thesis using rest by force
qed

lemma parse_rules_meaning:
  "parse_rules (rule, unknown) ws = Ok (rule', unknown') \<Longrightarrow>
   pattern rule' = pattern rule \<and> list_all word_ok ws
   \<and> (satisfies role u rule' \<longleftrightarrow> satisfies role u rule \<and> list_all (word_allows role u) ws)"
proof (induction ws arbitrary: rule unknown)
  case (Cons w ws)
  from parse_rules_step [OF Cons.prems, of role u] obtain rule1 unknown1 where
    "parse_rules (rule1, unknown1) ws = Ok (rule', unknown')" "pattern rule1 = pattern rule" "word_ok w"
    "satisfies role u rule1 \<longleftrightarrow> satisfies role u rule \<and> word_allows role u w"
    by blast
  with Cons.IH [of rule1 unknown1] show ?case by auto
qed simp

lemma parse_rules_total: "list_all word_ok ws \<Longrightarrow> \<exists>r. parse_rules (rule, unknown) ws = Ok r"
proof (induction ws arbitrary: rule unknown)
  case (Cons w ws)
  show ?case
  proof (cases "strip_prefix w (ustr ''push:'')")
    case (Some t)
    with Cons.prems have "t \<in> {ustr ''owner'', ustr ''admin'', ustr ''member''}"
      by (simp add: word_ok_def)
    then obtain r where "member_role_from_str t = Some r" "r \<notin> {Bot, Guest}"
      using member_role_from_str_push by blast
    with Some Cons show ?thesis by simp
  qed (use Cons in auto)
qed simp

lemma tag_parts:
  "length tag \<ge> 3 \<Longrightarrow> drop 1 tag ! 0 = tag ! 1 \<and> drop 1 (drop 1 tag) = drop 2 tag"
  by (cases tag) (simp_all add: drop_Suc)

lemma parse_tag_meaning:
  assumes "parse_protection_tag_with_warnings (drop 1 tag) = Ok (rule, unknown)"
  shows "tag_ok tag \<and> segments_ok (segments (pattern rule))
    \<and> (rule_covers rule name \<longleftrightarrow> tag_covers tag name)
    \<and> (satisfies role u rule \<longleftrightarrow> list_all (word_allows role u) (drop 2 tag))"
proof -
  from assms have len: "length tag \<ge> 3"
    by (auto simp: parse_protection_tag_with_warnings_def split: if_splits)
  with assms tag_parts [OF len] obtain pat where pat: "pattern_parse (tag ! 1) = Ok pat"
    and rules: "parse_rules
      (\<lparr>pattern = pat, push_role = None, no_force_push = False, no_delete = False,
        require_patch = False\<rparr>, []) (drop 2 tag) = Ok (rule, unknown)"
    by (auto simp: parse_protection_tag_with_warnings_def result_inv split: if_splits)
  from parse_rules_meaning [OF rules, of role u] pat len show ?thesis
    by (auto simp: tag_ok_def tag_covers_def rule_covers_def satisfies_def
        dest: pattern_parse_Ok_iff [THEN iffD1])
qed

lemma parse_tag_total:
  "tag_ok tag \<Longrightarrow> \<exists>r. parse_protection_tag_with_warnings (drop 1 tag) = Ok r"
  using tag_parts [of tag] parse_rules_total [of "drop 2 tag"]
  by (auto simp: tag_ok_def parse_protection_tag_with_warnings_def)

lemma parse_tags_meaning:
  "parse_tags acc tags = Ok p \<Longrightarrow> rules_ok (rules acc) \<Longrightarrow>
   rules_ok (rules p) \<and> list_all (\<lambda>tag. protects tag \<longrightarrow> tag_ok tag) tags
   \<and> length (rules p) = length (rules acc) + length (filter protects tags)
   \<and> (list_all (\<lambda>rule. rule_covers rule (ref_name u) \<longrightarrow> satisfies role u rule) (rules p) \<longleftrightarrow>
      list_all (\<lambda>rule. rule_covers rule (ref_name u) \<longrightarrow> satisfies role u rule) (rules acc)
      \<and> list_all (tag_allows role u) tags)"
proof (induction tags arbitrary: acc)
  case (Cons tag tags)
  show ?case
  proof (cases "protects tag")
    case True
    with Cons.prems obtain rule unknown where
      rule: "parse_protection_tag_with_warnings (drop 1 tag) = Ok (rule, unknown)"
      and rest: "parse_tags \<lparr>rules = rules acc @ [rule], unknown_rules = unknown_rules acc @ unknown\<rparr> tags
        = Ok p"
      by (auto simp: protects_def result_inv split: if_splits)
    from parse_tag_meaning [OF rule] Cons.IH [OF rest] Cons.prems True show ?thesis
      by (auto simp: rules_ok_def tag_allows_def)
  next
    case False
    then have "parse_tags acc (tag # tags) = parse_tags acc tags"
      by (auto simp: protects_def)
    with Cons.IH [of acc] Cons.prems False show ?thesis
      by (simp add: tag_allows_def)
  qed
qed simp

lemma parse_tags_total:
  "list_all (\<lambda>tag. protects tag \<longrightarrow> tag_ok tag) tags \<Longrightarrow>
   length (rules acc) + length (filter protects tags) \<le> 50 \<Longrightarrow> \<exists>p. parse_tags acc tags = Ok p"
proof (induction tags arbitrary: acc)
  case (Cons tag tags)
  show ?case
  proof (cases "protects tag")
    case True
    with Cons.prems parse_tag_total [of tag] obtain rule unknown where
      "parse_protection_tag_with_warnings (drop 1 tag) = Ok (rule, unknown)"
      by auto
    with True Cons show ?thesis
      by (auto simp: protects_def MAX_PROTECTION_RULES_def)
  next
    case False
    then have "parse_tags acc (tag # tags) = parse_tags acc tags"
      by (auto simp: protects_def)
    with Cons False show ?thesis by simp
  qed
qed simp

lemma parse_tags_bounded: "parse_tags acc tags = Ok p \<Longrightarrow> length (rules acc) \<le> 50 \<Longrightarrow> length (rules p) \<le> 50"
  by (induction tags arbitrary: acc)
    (auto simp: result_inv MAX_PROTECTION_RULES_def split: if_splits)

lemma evaluate_push_announced:
  assumes "parse_protection_tags tags = Ok p"
  shows "\<exists>outcome. evaluate_push updates role (rules p) = Some outcome
    \<and> (outcome = Ok () \<longleftrightarrow> list_all (announced role tags) updates)
    \<and> (\<forall>ds. outcome = Err ds \<longrightarrow>
         map denial_ref ds = map ref_name (filter (\<lambda>u. \<not> announced role tags u) updates))"
proof -
  from assms have parsed: "parse_tags \<lparr>rules = [], unknown_rules = []\<rparr> tags = Ok p"
    by (simp add: parse_protection_tags_def)
  from parse_tags_meaning [OF this] have ok: "rules_ok (rules p)"
    and allowed: "permitted role (rules p) u \<longleftrightarrow> announced role tags u" for u
    by (simp_all add: rules_ok_def permitted_def announced_def)
  from collect_denials_spec [OF ok, of role updates] obtain ds where
    ds: "collect_denials role (rules p) updates = Some ds"
    "map denial_ref ds = map ref_name (filter (\<lambda>u. \<not> announced role tags u) updates)"
    by (auto simp: allowed)
  moreover from ds(2) have "ds = [] \<longleftrightarrow> filter (\<lambda>u. \<not> announced role tags u) updates = []"
    by (metis map_is_Nil_conv)
  ultimately show ?thesis
    by (auto simp: evaluate_push_def filter_empty_conv list_all_iff)
qed


section \<open>Properties\<close>

lemmas git_eval =
  pattern_parse_def MAX_PATTERN_LENGTH_def MAX_WILDCARDS_PER_PATTERN_def MAX_PROTECTION_RULES_def
  ustr_def starts_with_def strip_prefix_def utf8_len_def utf8_char_len_def
  is_ascii_alphanumeric_def is_digit_cp_def parse_protection_tags_def
  parse_protection_tag_with_warnings_def member_role_from_str_def strictest_def
  announced_def tag_allows_def protects_def tag_covers_def word_allows_def has_at_least_def
  default_min_role_def

text \<open>
  C32.  The language of ref patterns.  The parser accepts exactly the texts of at
  most 256 bytes with the prefix \<open>refs/\<close>, whose segments are non-empty literals
  over the allowed alphabet or wildcards, at most three of them, with a recursive
  one only in last position; the comment on \<open>RefPattern\<close> leaves the recursive one
  out.  It keeps the text, and on an accepted pattern the matcher never reaches its
  panics and decides the segment-wise glob relation.
\<close>

theorem ref_pattern_language:
  "(pattern_parse p = Ok pat \<longleftrightarrow>
     raw pat = p \<and> utf8_len p \<le> 256 \<and> starts_with p (ustr ''refs/'')
     \<and> segments_ok (segments pat) \<and> segments pat \<noteq> []
     \<and> p = join_on slash (map segment_text (segments pat)))
   \<and> (pattern_parse p = Ok pat \<longrightarrow>
       pattern_matches pat name = Some (glob (segments pat) (split_on slash name)))"
  using pattern_parse_Ok_iff [of p pat] pattern_matches_glob [of pat name]
  by (auto simp: segments_ok_def)

theorem ref_pattern_language_witness:
  "(\<exists>pat. pattern_parse (ustr ''refs/heads/*/x.1/**'') = Ok pat
    \<and> pattern_matches pat (ustr ''refs/heads/a/x.1/b/c'') = Some True
    \<and> pattern_matches pat (ustr ''refs/heads/a/x.1'') = Some False)
   \<and> (\<exists>e. pattern_parse (ustr ''refs/heads/v*'') = Err e)"
proof -
  let ?p = "ustr ''refs/heads/*/x.1/**''"
  let ?pat = "\<lparr>raw = ?p, segments = [Literal (ustr ''refs''), Literal (ustr ''heads''), Wildcard,
    Literal (ustr ''x.1''), RecursiveWildcard]\<rparr>"
  have parsed: "pattern_parse ?p = Ok ?pat" by (simp add: git_eval)
  have yes: "glob (segments ?pat) (split_on slash (ustr ''refs/heads/a/x.1/b/c''))" by (simp add: git_eval)
  have no: "\<not> glob (segments ?pat) (split_on slash (ustr ''refs/heads/a/x.1''))" by (simp add: git_eval)
  have bad: "pattern_parse (ustr ''refs/heads/v*'') = Err (InvalidSegment (ustr ''v*''))" by (simp add: git_eval)
  show ?thesis
    using parsed bad yes no ref_pattern_language [of ?p ?pat "ustr ''refs/heads/a/x.1/b/c''"]
      ref_pattern_language [of ?p ?pat "ustr ''refs/heads/a/x.1''"]
    by auto
qed

text \<open>
  C33.  An announcement's protections are accepted exactly when every
  \<open>buzz-protect\<close> tag has a valid pattern and at least one rule word, no rule word
  demands an unknown role or \<open>bot\<close> or \<open>guest\<close>, and there are at most fifty such
  tags.  Anything else is an error, never a silently dropped rule.
\<close>

theorem protections_accepted_iff:
  "(\<exists>p. parse_protection_tags tags = Ok p) \<longleftrightarrow>
     (\<forall>tag\<in>set tags. protects tag \<longrightarrow> tag_ok tag) \<and> length (filter protects tags) \<le> 50"
proof
  let ?acc = "\<lparr>rules = [], unknown_rules = []\<rparr>"
  assume "\<exists>p. parse_protection_tags tags = Ok p"
  then obtain p where p: "parse_tags ?acc tags = Ok p"
    by (auto simp: parse_protection_tags_def)
  from parse_tags_meaning [OF this] parse_tags_bounded [OF p]
  show "(\<forall>tag\<in>set tags. protects tag \<longrightarrow> tag_ok tag) \<and> length (filter protects tags) \<le> 50"
    by (auto simp: rules_ok_def list_all_iff)
next
  assume "(\<forall>tag\<in>set tags. protects tag \<longrightarrow> tag_ok tag) \<and> length (filter protects tags) \<le> 50"
  then show "\<exists>p. parse_protection_tags tags = Ok p"
    by (auto simp: parse_protection_tags_def list_all_iff intro!: parse_tags_total)
qed

theorem protections_accepted_iff_witness:
  "(\<exists>p. parse_protection_tags [[ustr ''buzz-protect'', ustr ''refs/heads/main'', ustr ''push:admin'']] = Ok p)
   \<and> \<not> (\<exists>p. parse_protection_tags [[ustr ''buzz-protect'', ustr ''refs/heads/main'', ustr ''push:bot'']] = Ok p)
   \<and> \<not> (\<exists>p. parse_protection_tags (replicate 51 [ustr ''buzz-protect'', ustr ''refs/x'', ustr ''no-delete'']) = Ok p)"
proof -
  have pat: "\<exists>pat. pattern_parse (ustr ''refs/heads/main'') = Ok pat"
    by (simp add: git_eval)
  have "tag_ok [ustr ''buzz-protect'', ustr ''refs/heads/main'', ustr ''push:admin'']"
    using pat by (simp add: tag_ok_def word_ok_def strip_prefix_def starts_with_def ustr_def)
  moreover have "\<not> tag_ok [ustr ''buzz-protect'', ustr ''refs/heads/main'', ustr ''push:bot'']"
    by (simp add: tag_ok_def word_ok_def strip_prefix_def starts_with_def ustr_def)
  ultimately show ?thesis
    unfolding protections_accepted_iff by (simp add: protects_def)
qed

text \<open>
  C34.  A push is decided by what the announcement says: with accepted tags the
  evaluation never panics, it allows the push exactly when every update meets
  the built-in minimum role and every rule word of every protection that covers
  its ref, and otherwise it refuses the whole push and names exactly the refused
  refs in order.
\<close>

theorem announced_policy_enforced:
  assumes "parse_protection_tags tags = Ok p"
  shows "\<exists>outcome. evaluate_push updates role (rules p) = Some outcome
    \<and> (outcome = Ok () \<longleftrightarrow> list_all (announced role tags) updates)
    \<and> (\<forall>ds. outcome = Err ds \<longrightarrow>
         map denial_ref ds = map ref_name (filter (\<lambda>u. \<not> announced role tags u) updates))"
  by (rule evaluate_push_announced [OF assms])

theorem announced_policy_enforced_witness:
  "let tags = [[ustr ''buzz-protect'', ustr ''refs/heads/main'', ustr ''push:admin'', ustr ''no-delete''],
               [ustr ''buzz-protect'', ustr ''refs/heads/**'', ustr ''no-force-push'']];
       main = \<lparr>ref_name = ustr ''refs/heads/main'', kind = FastForward, old_oid = [], new_oid = []\<rparr>;
       side = \<lparr>ref_name = ustr ''refs/heads/a/b'', kind = FastForward, old_oid = [], new_oid = []\<rparr>
   in \<exists>p ds. parse_protection_tags tags = Ok p
      \<and> evaluate_push [side, main] Admin (rules p) = Some (Ok ())
      \<and> evaluate_push [side, main] Member (rules p) = Some (Err ds)
      \<and> map denial_ref ds = [ustr ''refs/heads/main'']
      \<and> (\<exists>outcome. evaluate_push [side, main\<lparr>kind := NonFastForward\<rparr>] Owner (rules p) = Some outcome
           \<and> outcome \<noteq> Ok ())"
proof -
  let ?tags = "[[ustr ''buzz-protect'', ustr ''refs/heads/main'', ustr ''push:admin'', ustr ''no-delete''],
               [ustr ''buzz-protect'', ustr ''refs/heads/**'', ustr ''no-force-push'']]"
  let ?main = "\<lparr>ref_name = ustr ''refs/heads/main'', kind = FastForward, old_oid = [], new_oid = []\<rparr>"
  let ?side = "\<lparr>ref_name = ustr ''refs/heads/a/b'', kind = FastForward, old_oid = [], new_oid = []\<rparr>"
  obtain p where p: "parse_protection_tags ?tags = Ok p"
    by (simp add: git_eval)
  have decisions: "list_all (announced Admin ?tags) [?side, ?main]"
    "filter (\<lambda>u. \<not> announced Member ?tags u) [?side, ?main] = [?main]"
    "\<not> list_all (announced Owner ?tags) [?side, ?main\<lparr>kind := NonFastForward\<rparr>]"
    by (simp_all add: git_eval)
  then have member: "\<not> list_all (announced Member ?tags) [?side, ?main]"
    by (auto simp: list_all_iff filter_eq_Cons_iff)
  from announced_policy_enforced [OF p, of "[?side, ?main]" Admin] decisions(1)
  have "evaluate_push [?side, ?main] Admin (rules p) = Some (Ok ())" by auto
  moreover from announced_policy_enforced [OF p, of "[?side, ?main]" Member] obtain outcome where
    "evaluate_push [?side, ?main] Member (rules p) = Some outcome" "outcome \<noteq> Ok ()"
    "\<forall>ds. outcome = Err ds \<longrightarrow> map denial_ref ds = [ustr ''refs/heads/main'']"
    unfolding decisions(2) using member by auto
  then obtain ds where "evaluate_push [?side, ?main] Member (rules p) = Some (Err ds)"
    "map denial_ref ds = [ustr ''refs/heads/main'']"
    by (cases outcome) auto
  moreover from announced_policy_enforced [OF p, of "[?side, ?main\<lparr>kind := NonFastForward\<rparr>]" Owner] decisions(3)
  have "\<exists>outcome. evaluate_push [?side, ?main\<lparr>kind := NonFastForward\<rparr>] Owner (rules p) = Some outcome
           \<and> outcome \<noteq> Ok ()" by auto
  ultimately show ?thesis
    unfolding Let_def by - (rule exI [of _ p], rule exI [of _ ds], intro conjI; (rule p | assumption))
qed

end
