(* ===== verification/Sort_Multiset.thy ===== *)
theory Sort_Multiset
  imports CF_Prelude "HOL-Library.Multiset"
begin

text \<open>The stable sort of the prelude permutes its input.\<close>

lemma mset_insert_by: "mset (insert_by cmp x ys) = add_mset x (mset ys)"
  by (induction ys) simp_all

lemma mset_sort_by: "mset (sort_by cmp xs) = mset xs"
  by (induction xs) (simp_all add: sort_by_def mset_insert_by)

end
