(* ===== verification/Git_Policy.thy ===== *)
theory Git_Policy
  imports Git_Perms Sort_Multiset
begin

text \<open>
  The relay's pre-receive policy endpoint, from
  \<open>buzz-relay/src/api/git/policy.rs\<close>: the canonical payload the hook signs, the
  structural checks on a callback, and the decision that composes the database
  lookups with the push evaluation of \<open>Git_Perms\<close>.

  The keyed hash, the hexadecimal codec, UUID parsing and the database are code
  of other crates; they are the fields of the record \<open>policy_env\<close> that every
  definition takes.  Text is signed as its UTF-8 encoding, which is injective and
  distributes over concatenation, so the payload is written as text and \<open>hmac\<close>
  is the keyed hash of its encoding.  Log lines are not modelled.
\<close>

section \<open>Requests\<close>

definition MAX_CALLBACK_AGE_SECS :: u64 where "MAX_CALLBACK_AGE_SECS = 30"

record hook_ref_update =
  hr_old_oid :: ustring
  hr_new_oid :: ustring
  hr_ref_name :: ustring
  hr_is_ancestor :: bool

record hook_request =
  repo_id :: ustring
  repo_owner :: ustring
  community_id :: ustring
  pusher_pubkey :: ustring
  ref_updates :: "hook_ref_update list"
  hook_timestamp :: u64
  signature :: ustring

datatype hook_response =
    Forbidden string
  | Allowed
  | Denied "denial list"

record repo_event =
  event_pubkey :: bytes
  event_tags :: "ustring list list"

record policy_env =
  hmac :: "bytes \<Rightarrow> ustring \<Rightarrow> bytes"
  hex_decode :: "ustring \<Rightarrow> bytes option"
  hex_encode :: "bytes \<Rightarrow> ustring"
  uuid_parse_str :: "ustring \<Rightarrow> uuid option"
  query_events :: "uuid \<Rightarrow> bytes \<Rightarrow> ustring \<Rightarrow> (repo_event list, unit) result"
  get_channel :: "uuid \<Rightarrow> uuid \<Rightarrow> (timestamp option, unit) result"
  is_agent_owner :: "uuid \<Rightarrow> bytes \<Rightarrow> bytes \<Rightarrow> (bool, unit) result"
  get_member_role :: "uuid \<Rightarrow> uuid \<Rightarrow> bytes \<Rightarrow> (ustring option, unit) result"


section \<open>The signed payload\<close>

definition show_len :: "ustring \<Rightarrow> ustring" where
  "show_len s = ustr (show_nat (utf8_len s))"

abbreviation colon :: nat where "colon \<equiv> 58"
abbreviation bar :: nat where "bar \<equiv> 124"

definition ref_payload :: "hook_ref_update \<Rightarrow> ustring" where
  "ref_payload r =
     hr_old_oid r @ hr_new_oid r @ show_len (hr_ref_name r) @ [colon] @ hr_ref_name r
     @ (if hr_is_ancestor r then ustr ''1'' else ustr ''0'')"

definition refs_sorted :: "hook_request \<Rightarrow> hook_ref_update list" where
  "refs_sorted req = sort_by (\<lambda>a b. cmp_of (hr_ref_name a) (hr_ref_name b)) (ref_updates req)"

definition hmac_payload :: "hook_request \<Rightarrow> ustring" where
  "hmac_payload req =
     show_len (repo_id req) @ [colon] @ repo_id req @ [bar]
     @ repo_owner req @ [bar]
     @ community_id req @ [bar]
     @ pusher_pubkey req @ [bar]
     @ concat (map ref_payload (refs_sorted req)) @ [bar]
     @ ustr (show_nat (unat (hook_timestamp req)))"

definition compute_hmac :: "policy_env \<Rightarrow> bytes \<Rightarrow> hook_request \<Rightarrow> bytes" where
  "compute_hmac E secret req = hmac E secret (hmac_payload req)"

definition verify_hmac :: "policy_env \<Rightarrow> bytes \<Rightarrow> hook_request \<Rightarrow> bool" where
  "verify_hmac E secret req =
     (case hex_decode E (signature req) of
        Some provided \<Rightarrow> compute_hmac E secret req = provided
      | None \<Rightarrow> False)"

definition generate_hook_hmac ::
  "policy_env \<Rightarrow> bytes \<Rightarrow> ustring \<Rightarrow> ustring \<Rightarrow> ustring \<Rightarrow> ustring \<Rightarrow> hook_ref_update list \<Rightarrow> u64
   \<Rightarrow> ustring" where
  "generate_hook_hmac E secret repo owner community pusher updates time =
     hex_encode E (compute_hmac E secret
       \<lparr>repo_id = repo, repo_owner = owner, community_id = community, pusher_pubkey = pusher,
        ref_updates = updates, hook_timestamp = time, signature = []\<rparr>)"


section \<open>The decision\<close>

definition is_pubkey_hex :: "ustring \<Rightarrow> bool" where
  "is_pubkey_hex s \<longleftrightarrow>
     \<not> (utf8_len s \<noteq> 64 \<or> \<not> (\<forall>c\<in>set s. is_hexdigit_cp c \<and> \<not> is_uppercase_cp c))"

definition check_ref_update :: "hook_ref_update \<Rightarrow> (unit, string) result" where
  "check_ref_update r =
     (if utf8_len (hr_old_oid r) \<noteq> 40 \<or> \<not> (\<forall>c\<in>set (hr_old_oid r). is_hexdigit_cp c)
      then Err ''invalid old_oid''
      else if utf8_len (hr_new_oid r) \<noteq> 40 \<or> \<not> (\<forall>c\<in>set (hr_new_oid r). is_hexdigit_cp c)
      then Err ''invalid new_oid''
      else if hr_ref_name r = [] \<or> utf8_len (hr_ref_name r) > 256
        \<or> \<not> starts_with (hr_ref_name r) (ustr ''refs/'')
        \<or> contains_str (hr_ref_name r) (ustr ''..'')
        \<or> (\<exists>b\<in>set (hr_ref_name r). b \<le> 32 \<or> b = 127)
      then Err ''invalid ref_name''
      else Ok ())"

text \<open>Step 1: the structural checks, in the order of the handler.\<close>

definition check_structure :: "policy_env \<Rightarrow> hook_request \<Rightarrow> (uuid, string) result" where
  "check_structure E req =
     (if repo_id req = [] \<or> utf8_len (repo_id req) > 64 then Err ''invalid repo_id''
      else if \<not> is_pubkey_hex (repo_owner req) then Err ''invalid repo_owner''
      else if \<not> is_pubkey_hex (pusher_pubkey req) then Err ''invalid pusher_pubkey''
      else bind_r (ok_or ''invalid community_id'' (uuid_parse_str E (community_id req))) (\<lambda>community.
        if ref_updates req = [] \<or> length (ref_updates req) > 500 then Err ''invalid ref_updates count''
        else then_r (for_each check_ref_update (ref_updates req)) (Ok community)))"

definition saturating_sub :: "u64 \<Rightarrow> u64 \<Rightarrow> u64" where
  "saturating_sub a b = (if b \<le> a then a - b else 0)"

text \<open>Steps 2 and 3: the signature and the time window.\<close>

definition check_authentic :: "policy_env \<Rightarrow> bytes \<Rightarrow> u64 \<Rightarrow> hook_request \<Rightarrow> (unit, string) result" where
  "check_authentic E secret now req =
     (if \<not> verify_hmac E secret req then Err ''signature verification failed''
      else if saturating_sub now (hook_timestamp req) > MAX_CALLBACK_AGE_SECS then Err ''callback expired''
      else if saturating_sub (hook_timestamp req) now > 5 then Err ''callback timestamp invalid''
      else Ok ())"

text \<open>Steps 4 and 5: the announcement and its rules.\<close>

definition key_bytes :: "policy_env \<Rightarrow> string \<Rightarrow> ustring \<Rightarrow> (bytes, string) result" where
  "key_bytes E message s =
     (case hex_decode E s of
        Some b \<Rightarrow> if length b = 32 then Ok b else Err message
      | None \<Rightarrow> Err message)"

definition resolve_repo ::
  "policy_env \<Rightarrow> uuid \<Rightarrow> bytes \<Rightarrow> hook_request \<Rightarrow> (repo_event, string) result" where
  "resolve_repo E community owner_bytes req =
     (case query_events E community owner_bytes (repo_id req) of
        Ok events \<Rightarrow> if events \<noteq> [] then Ok (last events) else Err ''repository not found''
      | Err _ \<Rightarrow> Err ''internal error'')"

text \<open>Step 6: the bound channel, and that it is not archived.\<close>

definition bound_channel :: "policy_env \<Rightarrow> ustring list list \<Rightarrow> uuid option" where
  "bound_channel E tags =
     Option.bind (find (\<lambda>t. t \<noteq> [] \<and> hd t = ustr ''buzz-channel'') tags)
       (\<lambda>t. if length t > 1 then uuid_parse_str E (t ! 1) else None)"

definition check_channel :: "policy_env \<Rightarrow> uuid \<Rightarrow> uuid option \<Rightarrow> (unit, string) result" where
  "check_channel E community channel_id =
     (case channel_id of
        None \<Rightarrow> Ok ()
      | Some ch_id \<Rightarrow>
          (case get_channel E community ch_id of
             Ok archived_at \<Rightarrow>
               if archived_at \<noteq> None then Err ''channel is archived (read-only)'' else Ok ()
           | Err _ \<Rightarrow> Err ''internal error''))"

text \<open>Step 7: the role of the pusher; step 8: bots push as members.\<close>

definition resolve_role ::
  "policy_env \<Rightarrow> uuid \<Rightarrow> bytes \<Rightarrow> uuid option \<Rightarrow> repo_event \<Rightarrow> hook_request \<Rightarrow> (member_role, string) result" where
  "resolve_role E community owner_bytes channel_id ev req =
     (let repo_owner_hex = hex_encode E (event_pubkey ev) in
      bind_r (key_bytes E ''invalid pusher pubkey'' (pusher_pubkey req)) (\<lambda>pusher_bytes.
      let is_repo_owner = pusher_pubkey req = repo_owner_hex in
      bind_r (if is_repo_owner then Ok False
              else map_err (\<lambda>_. ''internal error'') (is_agent_owner E community owner_bytes pusher_bytes))
        (\<lambda>is_managed_agent_owner.
      if is_repo_owner \<or> is_managed_agent_owner then Ok Owner
      else (case channel_id of
          None \<Rightarrow> Err ''no channel binding''
        | Some ch_id \<Rightarrow>
            (case get_member_role E community ch_id pusher_bytes of
               Ok (Some role_str) \<Rightarrow> ok_or ''internal error'' (member_role_from_str role_str)
             | Ok None \<Rightarrow> Err ''not a channel member''
             | Err _ \<Rightarrow> Err ''internal error'')))))"

fun git_role :: "member_role \<Rightarrow> member_role" where
  "git_role Bot = Member"
| "git_role other = other"

text \<open>Step 9: classification and evaluation.\<close>

definition classify_update :: "hook_ref_update \<Rightarrow> ref_update" where
  "classify_update r =
     \<lparr>ref_name = hr_ref_name r,
      kind = classify (hr_old_oid r) (hr_new_oid r) (hr_is_ancestor r),
      old_oid = hr_old_oid r, new_oid = hr_new_oid r\<rparr>"

definition authorize ::
  "policy_env \<Rightarrow> uuid \<Rightarrow> hook_request \<Rightarrow> (member_role \<times> repo_event \<times> parsed_protection, string) result" where
  "authorize E community req =
     bind_r (key_bytes E ''invalid repo owner'' (repo_owner req)) (\<lambda>owner_bytes.
     bind_r (resolve_repo E community owner_bytes req) (\<lambda>ev.
     bind_r (map_err (\<lambda>_. ''malformed protection rules'') (parse_protection_tags (event_tags ev))) (\<lambda>parsed.
     let channel_id = bound_channel E (event_tags ev) in
     then_r (check_channel E community channel_id)
       (bind_r (resolve_role E community owner_bytes channel_id ev req) (\<lambda>role.
        Ok (git_role role, ev, parsed))))))"

definition hook_policy_check ::
  "policy_env \<Rightarrow> bytes \<Rightarrow> u64 \<Rightarrow> hook_request \<Rightarrow> hook_response option" where
  "hook_policy_check E secret now req =
     (case bind_r (check_structure E req) (\<lambda>community.
             then_r (check_authentic E secret now req) (authorize E community req)) of
        Err message \<Rightarrow> Some (Forbidden message)
      | Ok (role, _, parsed) \<Rightarrow>
          map_option (\<lambda>outcome. case outcome of Ok _ \<Rightarrow> Allowed | Err denials \<Rightarrow> Denied denials)
            (evaluate_push (map classify_update (ref_updates req)) role (rules parsed)))"


section \<open>What the endpoint admits\<close>

definition ref_update_ok :: "hook_ref_update \<Rightarrow> bool" where
  "ref_update_ok r \<longleftrightarrow>
     length (hr_old_oid r) = 40 \<and> list_all is_hexdigit_cp (hr_old_oid r)
     \<and> length (hr_new_oid r) = 40 \<and> list_all is_hexdigit_cp (hr_new_oid r)
     \<and> utf8_len (hr_ref_name r) \<le> 256 \<and> starts_with (hr_ref_name r) (ustr ''refs/'')
     \<and> \<not> contains_str (hr_ref_name r) (ustr ''..'')
     \<and> list_all (\<lambda>c. 32 < c \<and> c \<noteq> 127) (hr_ref_name r)"

definition request_ok :: "policy_env \<Rightarrow> hook_request \<Rightarrow> bool" where
  "request_ok E req \<longleftrightarrow>
     repo_id req \<noteq> [] \<and> utf8_len (repo_id req) \<le> 64
     \<and> length (repo_owner req) = 64 \<and> list_all is_lower_hex_cp (repo_owner req)
     \<and> length (pusher_pubkey req) = 64 \<and> list_all is_lower_hex_cp (pusher_pubkey req)
     \<and> uuid_parse_str E (community_id req) \<noteq> None
     \<and> ref_updates req \<noteq> [] \<and> length (ref_updates req) \<le> 500
     \<and> list_all ref_update_ok (ref_updates req)"

definition timely :: "u64 \<Rightarrow> u64 \<Rightarrow> bool" where
  "timely now t \<longleftrightarrow> unat now \<le> unat t + 30 \<and> unat t \<le> unat now + 5"

text \<open>The role a pusher holds in the repository, from the database's answers.\<close>

definition holds_role ::
  "policy_env \<Rightarrow> uuid \<Rightarrow> bytes \<Rightarrow> bytes \<Rightarrow> repo_event \<Rightarrow> ustring \<Rightarrow> member_role \<Rightarrow> bool" where
  "holds_role E community owner_bytes pusher_bytes ev pusher role \<longleftrightarrow>
     (if pusher = hex_encode E (event_pubkey ev)
         \<or> is_agent_owner E community owner_bytes pusher_bytes = Ok True
      then role = Owner
      else is_agent_owner E community owner_bytes pusher_bytes = Ok False
        \<and> (\<exists>ch r. bound_channel E (event_tags ev) = Some ch
             \<and> get_member_role E community ch pusher_bytes = Ok (Some r)
             \<and> member_role_from_str r = Some role))"

definition admits :: "policy_env \<Rightarrow> uuid \<Rightarrow> hook_request \<Rightarrow> repo_event \<Rightarrow> member_role \<Rightarrow> bool" where
  "admits E community req ev role \<longleftrightarrow>
     (\<exists>owner_bytes pusher_bytes events.
        hex_decode E (repo_owner req) = Some owner_bytes \<and> length owner_bytes = 32
        \<and> hex_decode E (pusher_pubkey req) = Some pusher_bytes \<and> length pusher_bytes = 32
        \<and> query_events E community owner_bytes (repo_id req) = Ok events \<and> events \<noteq> [] \<and> ev = last events
        \<and> (\<forall>ch. bound_channel E (event_tags ev) = Some ch \<longrightarrow> get_channel E community ch = Ok None)
        \<and> holds_role E community owner_bytes pusher_bytes ev (pusher_pubkey req) role)
     \<and> (\<exists>p. parse_protection_tags (event_tags ev) = Ok p)"

lemma hexdigit_ascii: "is_hexdigit_cp c \<Longrightarrow> c < 128"
  by (auto simp: is_hexdigit_cp_def is_digit_cp_def)

lemma hexdigit_lower: "is_hexdigit_cp c \<and> \<not> is_uppercase_cp c \<longleftrightarrow> is_lower_hex_cp c"
  by (auto simp: is_hexdigit_cp_def is_lower_hex_cp_def is_uppercase_cp_def is_digit_cp_def)

lemma is_pubkey_hex_iff: "is_pubkey_hex s \<longleftrightarrow> length s = 64 \<and> list_all is_lower_hex_cp s"
proof -
  have "list_all is_lower_hex_cp s \<Longrightarrow> utf8_len s = length s"
    by (rule utf8_len_ascii) (auto simp: list_all_iff simp flip: hexdigit_lower dest: hexdigit_ascii)
  then show ?thesis
    by (auto simp: is_pubkey_hex_def hexdigit_lower list_all_iff)
qed

lemma hex_field_iff:
  "\<not> (utf8_len s \<noteq> n \<or> \<not> (\<forall>c\<in>set s. is_hexdigit_cp c)) \<longleftrightarrow> length s = n \<and> list_all is_hexdigit_cp s"
proof -
  have "list_all is_hexdigit_cp s \<Longrightarrow> utf8_len s = length s"
    by (rule utf8_len_ascii) (auto simp: list_all_iff dest: hexdigit_ascii)
  then show ?thesis by (auto simp: list_all_iff)
qed

lemma check_ref_update_Ok: "check_ref_update r = Ok () \<longleftrightarrow> ref_update_ok r"
proof -
  have "check_ref_update r = Ok () \<longleftrightarrow>
      \<not> (utf8_len (hr_old_oid r) \<noteq> 40 \<or> \<not> (\<forall>c\<in>set (hr_old_oid r). is_hexdigit_cp c))
      \<and> \<not> (utf8_len (hr_new_oid r) \<noteq> 40 \<or> \<not> (\<forall>c\<in>set (hr_new_oid r). is_hexdigit_cp c))
      \<and> \<not> (hr_ref_name r = [] \<or> utf8_len (hr_ref_name r) > 256
        \<or> \<not> starts_with (hr_ref_name r) (ustr ''refs/'')
        \<or> contains_str (hr_ref_name r) (ustr ''..'')
        \<or> (\<exists>b\<in>set (hr_ref_name r). b \<le> 32 \<or> b = 127))"
    unfolding check_ref_update_def by (simp only: if_Err_Ok_iff simp_thms)
  also have "\<dots> \<longleftrightarrow> ref_update_ok r"
    unfolding hex_field_iff ref_update_ok_def
    by (auto simp: list_all_iff not_le starts_with_iff ustr_def)
  finally show ?thesis .
qed

lemma check_structure_Ok:
  "check_structure E req = Ok community \<longleftrightarrow>
     request_ok E req \<and> uuid_parse_str E (community_id req) = Some community"
  unfolding check_structure_def request_ok_def
  by (auto simp: result_inv is_pubkey_hex_iff check_ref_update_Ok list_all_iff not_less)

lemma saturating_sub_less: "saturating_sub a b > n \<longleftrightarrow> unat a > unat b + unat n"
  by (auto simp: saturating_sub_def word_less_nat_alt word_le_nat_alt unat_sub_if')

lemma check_authentic_Ok:
  "check_authentic E secret now req = Ok () \<longleftrightarrow> verify_hmac E secret req \<and> timely now (hook_timestamp req)"
  by (auto simp: check_authentic_def timely_def result_inv saturating_sub_less MAX_CALLBACK_AGE_SECS_def)

lemma key_bytes_Ok: "key_bytes E message s = Ok b \<longleftrightarrow> hex_decode E s = Some b \<and> length b = 32"
  by (auto simp: key_bytes_def split: option.splits)

lemma resolve_role_Ok:
  "resolve_role E community owner_bytes (bound_channel E (event_tags ev)) ev req = Ok role \<longleftrightarrow>
     (\<exists>pusher_bytes. hex_decode E (pusher_pubkey req) = Some pusher_bytes \<and> length pusher_bytes = 32
        \<and> holds_role E community owner_bytes pusher_bytes ev (pusher_pubkey req) role)"
proof (cases "\<exists>b. hex_decode E (pusher_pubkey req) = Some b \<and> length b = 32")
  case True
  then obtain b where b: "hex_decode E (pusher_pubkey req) = Some b" "length b = 32" by blast
  then have "key_bytes E ''invalid pusher pubkey'' (pusher_pubkey req) = Ok b"
    by (simp add: key_bytes_Ok)
  with b show ?thesis
    by (cases "is_agent_owner E community owner_bytes b")
      (auto simp: resolve_role_def holds_role_def result_inv Let_def split: option.split result.split)
next
  case False
  then have "key_bytes E ''invalid pusher pubkey'' (pusher_pubkey req) \<noteq> Ok b" for b
    by (auto simp: key_bytes_Ok)
  with False show ?thesis by (auto simp: resolve_role_def result_inv)
qed

lemma authorize_Ok:
  "authorize E community req = Ok (role', ev, parsed) \<longleftrightarrow>
     (\<exists>role. role' = git_role role \<and> admits E community req ev role)
     \<and> parse_protection_tags (event_tags ev) = Ok parsed"
proof -
  have repo: "resolve_repo E community owner_bytes req = Ok ev \<longleftrightarrow>
      (\<exists>events. query_events E community owner_bytes (repo_id req) = Ok events \<and> events \<noteq> [] \<and> ev = last events)"
    for owner_bytes ev
    by (auto simp: resolve_repo_def split: result.splits)
  have channel: "check_channel E community ch = Ok () \<longleftrightarrow> (\<forall>c. ch = Some c \<longrightarrow> get_channel E community c = Ok None)"
    for ch
    by (auto simp: check_channel_def split: option.splits result.splits)
  show ?thesis
    unfolding authorize_def admits_def
    by (auto simp: result_inv key_bytes_Ok repo channel resolve_role_Ok Let_def)
qed

definition push_admitted :: "policy_env \<Rightarrow> bytes \<Rightarrow> u64 \<Rightarrow> hook_request \<Rightarrow> bool" where
  "push_admitted E secret now req \<longleftrightarrow>
     request_ok E req \<and> verify_hmac E secret req \<and> timely now (hook_timestamp req)
     \<and> (\<exists>community ev role. uuid_parse_str E (community_id req) = Some community
          \<and> admits E community req ev role
          \<and> list_all (announced (git_role role) (event_tags ev)) (map classify_update (ref_updates req)))"

lemma hook_admission_iff:
  "\<exists>r. hook_policy_check E secret now req = Some r
    \<and> (r = Allowed \<longleftrightarrow> push_admitted E secret now req)"
    (is "\<exists>r. _ \<and> (_ \<longleftrightarrow> ?admitted)")
proof (cases "bind_r (check_structure E req) (\<lambda>community.
             then_r (check_authentic E secret now req) (authorize E community req))")
  case (Err e)
  have "\<not> ?admitted"
  proof
    assume ?admitted
    then obtain community ev role p where
      "uuid_parse_str E (community_id req) = Some community" "request_ok E req"
      "check_authentic E secret now req = Ok ()" "admits E community req ev role"
      "parse_protection_tags (event_tags ev) = Ok p"
      unfolding push_admitted_def check_authentic_Ok admits_def by blast
    then have "check_structure E req = Ok community" "authorize E community req = Ok (git_role role, ev, p)"
      by (auto simp: check_structure_Ok authorize_Ok)
    with \<open>check_authentic E secret now req = Ok ()\<close> Err show False by simp
  qed
  with Err show ?thesis by (simp add: hook_policy_check_def)
next
  case (Ok x)
  obtain role' ev p where x: "x = (role', ev, p)" by (cases x)
  with Ok obtain community where
    valid: "request_ok E req" "uuid_parse_str E (community_id req) = Some community"
    and authentic: "verify_hmac E secret req" "timely now (hook_timestamp req)"
    and auth: "authorize E community req = Ok (role', ev, p)"
    by (auto simp: result_inv check_structure_Ok check_authentic_Ok)
  from auth obtain role where role: "role' = git_role role" "admits E community req ev role"
    and p: "parse_protection_tags (event_tags ev) = Ok p"
    by (auto simp: authorize_Ok)
  have unique: "ev'' = ev \<and> git_role role'' = git_role role"
    if "admits E community req ev'' role''" for ev'' role''
  proof -
    from that obtain p'' where "parse_protection_tags (event_tags ev'') = Ok p''"
      by (auto simp: admits_def)
    with that have "authorize E community req = Ok (git_role role'', ev'', p'')"
      unfolding authorize_Ok by blast
    with auth role(1) show ?thesis by simp
  qed
  from evaluate_push_announced [OF p, of "map classify_update (ref_updates req)" role']
  obtain outcome where outcome:
    "evaluate_push (map classify_update (ref_updates req)) role' (rules p) = Some outcome"
    "outcome = Ok () \<longleftrightarrow> list_all (announced role' (event_tags ev)) (map classify_update (ref_updates req))"
    by blast
  have "?admitted \<longleftrightarrow> list_all (announced role' (event_tags ev)) (map classify_update (ref_updates req))"
  proof
    assume ?admitted
    then obtain ev2 role2 where "admits E community req ev2 role2"
      "list_all (announced (git_role role2) (event_tags ev2)) (map classify_update (ref_updates req))"
      unfolding push_admitted_def valid(2) by blast
    with unique role(1) show "list_all (announced role' (event_tags ev)) (map classify_update (ref_updates req))"
      by metis
  next
    assume "list_all (announced role' (event_tags ev)) (map classify_update (ref_updates req))"
    with valid authentic role show ?admitted unfolding push_admitted_def by blast
  qed
  with outcome Ok x show ?thesis
    by (cases outcome) (auto simp: hook_policy_check_def)
qed


section \<open>The payload is unambiguous\<close>

text \<open>
  What the endpoint needs of the \<open>uuid\<close> crate here: none of the formats its
  parser accepts contains a vertical bar.
\<close>

definition uuid_text_ok :: "policy_env \<Rightarrow> bool" where
  "uuid_text_ok E \<longleftrightarrow> (\<forall>s. uuid_parse_str E s \<noteq> None \<longrightarrow> bar \<notin> set s)"

lemma delimited_inject:
  "c \<notin> set xs \<Longrightarrow> c \<notin> set ys \<Longrightarrow> xs @ c # as = ys @ c # bs \<longleftrightarrow> xs = ys \<and> as = bs"
  by (induction xs arbitrary: ys; case_tac ys) auto

lemma utf8_prefix_inject:
  assumes "s @ a = t @ b" and "utf8_len s = utf8_len t"
  shows "s = t \<and> a = b"
proof -
  from assms(1) obtain u where "(s = t @ u \<and> u @ a = b) \<or> (s @ u = t \<and> a = u @ b)"
    by (auto simp: append_eq_append_conv2)
  with assms(2) show ?thesis by auto
qed

lemma show_len_no_sep: "colon \<notin> set (show_len s)" "bar \<notin> set (show_len s)"
  by (auto simp: show_len_def is_digit_cp_def dest!: ustr_show_nat_digits)

lemma prefixed_inject:
  assumes "show_len s @ colon # s @ a = show_len t @ colon # t @ b"
  shows "s = t \<and> a = b"
proof -
  from assms have "show_len s = show_len t" "s @ a = t @ b"
    by (simp_all add: delimited_inject show_len_no_sep)
  then show ?thesis by (intro utf8_prefix_inject) (simp_all add: show_len_def)
qed

lemma ref_payload_inject:
  assumes "ref_update_ok r" "ref_update_ok q" and "ref_payload r @ a = ref_payload q @ b"
  shows "r = q \<and> a = b"
proof -
  let ?flag = "\<lambda>r. if hr_is_ancestor r then ustr ''1'' else ustr ''0''"
  from assms have "hr_old_oid r = hr_old_oid q" "hr_new_oid r = hr_new_oid q"
    "show_len (hr_ref_name r) @ colon # hr_ref_name r @ ?flag r @ a
      = show_len (hr_ref_name q) @ colon # hr_ref_name q @ ?flag q @ b"
    by (simp_all add: ref_payload_def ref_update_ok_def)
  moreover from prefixed_inject [OF this(3)] have "hr_ref_name r = hr_ref_name q" "?flag r @ a = ?flag q @ b"
    by auto
  ultimately show ?thesis
    by (auto simp: ustr_def split: if_splits)
qed

lemma bar_not_hex: "is_hexdigit_cp c \<Longrightarrow> c \<noteq> bar"
  by (auto simp: is_hexdigit_cp_def is_digit_cp_def)

lemma ref_payload_hd: "ref_update_ok r \<Longrightarrow> \<exists>c cs. ref_payload r = c # cs \<and> c \<noteq> bar"
  by (cases "hr_old_oid r") (auto simp: ref_payload_def ref_update_ok_def dest: bar_not_hex)

lemma refs_payload_inject:
  "list_all ref_update_ok rs \<Longrightarrow> list_all ref_update_ok qs \<Longrightarrow>
   concat (map ref_payload rs) @ bar # a = concat (map ref_payload qs) @ bar # b \<Longrightarrow> rs = qs \<and> a = b"
proof (induction rs arbitrary: qs)
  case Nil
  then show ?case by (cases qs) (auto dest: ref_payload_hd)
next
  case (Cons r rs)
  show ?case
  proof (cases qs)
    case Nil
    with Cons.prems show ?thesis by (auto dest: ref_payload_hd)
  next
    case Cons': (Cons q qs')
    with Cons.prems ref_payload_inject [of r q] have "r = q"
      "concat (map ref_payload rs) @ bar # a = concat (map ref_payload qs') @ bar # b"
      by auto
    with Cons Cons' show ?thesis by auto
  qed
qed

lemma set_refs_sorted: "set (refs_sorted req) = set (ref_updates req)"
  unfolding refs_sorted_def by (rule comparison.set_sort_by [OF comparison_key])

lemma lower_hex_no_bar: "list_all is_lower_hex_cp s \<Longrightarrow> bar \<notin> set s"
  by (auto simp: list_all_iff is_lower_hex_cp_def is_digit_cp_def)

lemma hmac_payload_inject:
  assumes "uuid_text_ok E" "request_ok E r" "request_ok E q" "hmac_payload r = hmac_payload q"
  shows "repo_id r = repo_id q \<and> repo_owner r = repo_owner q \<and> community_id r = community_id q
    \<and> pusher_pubkey r = pusher_pubkey q \<and> refs_sorted r = refs_sorted q
    \<and> hook_timestamp r = hook_timestamp q"
proof -
  have refs: "list_all ref_update_ok (refs_sorted x)" if "request_ok E x" for x
    using that by (simp add: request_ok_def list_all_iff set_refs_sorted)
  have bars: "bar \<notin> set (repo_owner x)" "bar \<notin> set (community_id x)" "bar \<notin> set (pusher_pubkey x)"
    if "request_ok E x" for x
    using that assms(1) by (auto simp: request_ok_def uuid_text_ok_def lower_hex_no_bar)
  let ?tail = "\<lambda>x. concat (map ref_payload (refs_sorted x)) @ bar # ustr (show_nat (unat (hook_timestamp x)))"
  let ?rest = "\<lambda>x. bar # repo_owner x @ bar # community_id x @ bar # pusher_pubkey x @ bar # ?tail x"
  from assms(4) have "show_len (repo_id r) @ colon # repo_id r @ ?rest r
      = show_len (repo_id q) @ colon # repo_id q @ ?rest q"
    by (simp add: hmac_payload_def)
  from prefixed_inject [OF this] have id: "repo_id r = repo_id q"
    and rest: "repo_owner r @ bar # community_id r @ bar # pusher_pubkey r @ bar # ?tail r
      = repo_owner q @ bar # community_id q @ bar # pusher_pubkey q @ bar # ?tail q"
    by simp_all
  from rest have owner: "repo_owner r = repo_owner q"
    and rest: "community_id r @ bar # pusher_pubkey r @ bar # ?tail r
      = community_id q @ bar # pusher_pubkey q @ bar # ?tail q"
    by (simp_all only: delimited_inject [OF bars(1) [OF assms(2)] bars(1) [OF assms(3)]])
  from rest have community: "community_id r = community_id q"
    and rest: "pusher_pubkey r @ bar # ?tail r = pusher_pubkey q @ bar # ?tail q"
    by (simp_all only: delimited_inject [OF bars(2) [OF assms(2)] bars(2) [OF assms(3)]])
  from rest have pusher: "pusher_pubkey r = pusher_pubkey q" and tail: "?tail r = ?tail q"
    by (simp_all only: delimited_inject [OF bars(3) [OF assms(2)] bars(3) [OF assms(3)]])
  from refs_payload_inject [OF refs [OF assms(2)] refs [OF assms(3)] tail]
  have "refs_sorted r = refs_sorted q" "unat (hook_timestamp r) = unat (hook_timestamp q)"
    by simp_all
  with id owner community pusher show ?thesis by (simp add: word_unat_eq_iff)
qed

lemma admits_cong:
  "repo_owner r = repo_owner q \<Longrightarrow> pusher_pubkey r = pusher_pubkey q \<Longrightarrow> repo_id r = repo_id q \<Longrightarrow>
   admits E community r ev role = admits E community q ev role"
  by (simp add: admits_def)


section \<open>A concrete callback\<close>

text \<open>
  One repository whose owner pushes two branches, with the external functions
  instantiated: the hexadecimal codec is the real one, the keyed hash a constant.
\<close>

fun hex_pairs :: "ustring \<Rightarrow> bytes option" where
  "hex_pairs [] = Some []"
| "hex_pairs [c] = None"
| "hex_pairs (a # b # rest) =
     (let digit = \<lambda>c. if is_digit_cp c then c - 48 else c - 87 in
      map_option (Cons (word_of_nat (16 * digit a + digit b))) (hex_pairs rest))"

definition hex_text :: "bytes \<Rightarrow> ustring" where
  "hex_text bs = concat (map (\<lambda>b. let digit = \<lambda>n. if n < 10 then n + 48 else n + 87 in
     [digit (unat b div 16), digit (unat b mod 16)]) bs)"

definition demo_env :: policy_env where
  "demo_env = \<lparr>hmac = (\<lambda>_ _. [0]), hex_decode = hex_pairs, hex_encode = hex_text,
     uuid_parse_str = (\<lambda>s. if s = ustr ''c1'' then Some 1 else None),
     query_events = (\<lambda>_ owner _. Ok [\<lparr>event_pubkey = owner,
       event_tags = [[ustr ''buzz-protect'', ustr ''refs/heads/*'', ustr ''no-delete'']]\<rparr>]),
     get_channel = (\<lambda>_ _. Err ()), is_agent_owner = (\<lambda>_ _ _. Ok False),
     get_member_role = (\<lambda>_ _ _. Err ())\<rparr>"

definition demo_update :: "string \<Rightarrow> hook_ref_update" where
  "demo_update name = \<lparr>hr_old_oid = replicate 40 48, hr_new_oid = replicate 40 49,
     hr_ref_name = ustr name, hr_is_ancestor = False\<rparr>"

definition demo_request :: "hook_ref_update list \<Rightarrow> hook_request" where
  "demo_request us = \<lparr>repo_id = ustr ''repo'', repo_owner = replicate 64 97, community_id = ustr ''c1'',
     pusher_pubkey = replicate 64 97, ref_updates = us, hook_timestamp = 100, signature = ustr ''00''\<rparr>"

abbreviation demo_a :: hook_ref_update where "demo_a \<equiv> demo_update ''refs/heads/a''"
abbreviation demo_b :: hook_ref_update where "demo_b \<equiv> demo_update ''refs/heads/b''"

lemma hex_replicate:
  "hex_pairs (replicate (2 * n) 97) = Some (replicate n 170)" "hex_text (replicate n 170) = replicate (2 * n) 97"
  by (induction n) (simp_all add: is_digit_cp_def hex_text_def Let_def)

lemma demo_hex: "hex_pairs (replicate 64 97) = Some (replicate 32 170)" "hex_text (replicate 32 170) = replicate 64 97"
  using hex_replicate [of 32] by simp_all

lemma demo_ref_ok: "ref_update_ok demo_a" "ref_update_ok demo_b"
  by (simp_all add: demo_update_def ref_update_ok_def is_hexdigit_cp_def is_digit_cp_def utf8_len_def
      utf8_char_len_def starts_with_def ustr_def list_all_iff)

lemma demo_request_ok: "set us = {demo_a, demo_b} \<Longrightarrow> length us = 2 \<Longrightarrow> request_ok demo_env (demo_request us)"
  using demo_ref_ok
  by (auto simp: demo_request_def demo_env_def request_ok_def utf8_len_def utf8_char_len_def ustr_def
      is_lower_hex_cp_def list_all_iff)

lemma zero_oid: "ZERO_OID = replicate 40 48"
  by (simp add: ZERO_OID_def ustr_def numeral_eq_Suc)

lemma demo_admitted: "push_admitted demo_env [] 103 (demo_request [demo_a, demo_b])"
proof -
  let ?ev = "\<lparr>event_pubkey = replicate 32 170,
    event_tags = [[ustr ''buzz-protect'', ustr ''refs/heads/*'', ustr ''no-delete'']]\<rparr>"
  have "\<exists>p. parse_protection_tags (event_tags ?ev) = Ok p"
    by (simp add: git_eval)
  then have "admits demo_env 1 (demo_request [demo_a, demo_b]) ?ev Owner"
    by (simp add: admits_def holds_role_def demo_env_def demo_request_def demo_hex bound_channel_def ustr_def)
  moreover have "list_all (announced Owner (event_tags ?ev))
      (map classify_update (ref_updates (demo_request [demo_a, demo_b])))"
    by (simp add: demo_request_def demo_update_def classify_update_def classify_def zero_oid git_eval)
  moreover have "verify_hmac demo_env [] (demo_request [demo_a, demo_b])"
    by (simp add: verify_hmac_def compute_hmac_def demo_env_def demo_request_def ustr_def is_digit_cp_def)
  moreover have "timely 103 (hook_timestamp (demo_request [demo_a, demo_b]))"
    "uuid_parse_str demo_env (community_id (demo_request [demo_a, demo_b])) = Some 1"
    by (simp_all add: timely_def demo_request_def demo_env_def)
  moreover have "request_ok demo_env (demo_request [demo_a, demo_b])"
    by (rule demo_request_ok) simp_all
  ultimately show ?thesis
    unfolding push_admitted_def by (metis git_role.simps(2))
qed

lemma demo_payload: "hmac_payload (demo_request [demo_a, demo_b]) = hmac_payload (demo_request [demo_b, demo_a])"
  by (simp add: hmac_payload_def refs_sorted_def demo_request_def demo_update_def sort_by_def cmp_of_def ustr_def)


section \<open>Properties\<close>

text \<open>
  C35.  The pre-receive endpoint always answers, and it allows a push exactly when
  the callback is well formed, correctly signed and inside the time window, the
  repository's announcement is found in the same community and its channel is
  not archived, the pusher holds a role through the repository key, a managed
  agent or the bound channel, and the announced policy allows every ref update
  for that role, bots counting as members.  Every lookup failure refuses.
\<close>

theorem hook_admission:
  "\<exists>r. hook_policy_check E secret now req = Some r
    \<and> (r = Allowed \<longleftrightarrow>
         request_ok E req \<and> verify_hmac E secret req \<and> timely now (hook_timestamp req)
         \<and> (\<exists>community ev role. uuid_parse_str E (community_id req) = Some community
              \<and> admits E community req ev role
              \<and> list_all (announced (git_role role) (event_tags ev)) (map classify_update (ref_updates req))))"
  using hook_admission_iff [of E secret now req] by (simp only: push_admitted_def)

text \<open>
  C36.  The signed payload is unambiguous: two well-formed callbacks with the same
  payload name the same repository, owner, community, pusher and time, and the
  same ref updates equally often, so they differ in the order of the ref updates
  at most, and a signature can never be carried over to a callback with a
  different decision.
\<close>

theorem signed_payload_determines:
  assumes "uuid_text_ok E" "request_ok E r" "request_ok E q" "hmac_payload r = hmac_payload q"
  shows "repo_id r = repo_id q \<and> repo_owner r = repo_owner q \<and> community_id r = community_id q
    \<and> pusher_pubkey r = pusher_pubkey q \<and> hook_timestamp r = hook_timestamp q
    \<and> mset (ref_updates r) = mset (ref_updates q)
    \<and> (signature r = signature q \<longrightarrow>
        (hook_policy_check E secret now r = Some Allowed \<longleftrightarrow> hook_policy_check E secret now q = Some Allowed))"
proof -
  note same = hmac_payload_inject [OF assms]
  then have updates: "mset (ref_updates r) = mset (ref_updates q)"
    by (metis mset_sort_by refs_sorted_def)
  have mac: "signature r = signature q \<Longrightarrow> verify_hmac E secret r = verify_hmac E secret q"
    using assms(4) unfolding verify_hmac_def compute_hmac_def by (simp split: option.split)
  have "list_all P (map classify_update (ref_updates r)) = list_all P (map classify_update (ref_updates q))" for P
    using mset_eq_setD [OF updates] by (auto simp: list_all_iff)
  then have "push_admitted E secret now r = push_admitted E secret now q" if "signature r = signature q"
    using assms(2,3) same mac [OF that] admits_cong [of r q E] unfolding push_admitted_def by simp
  with hook_admission_iff [of E secret now r] hook_admission_iff [of E secret now q]
  have "signature r = signature q \<longrightarrow>
      (hook_policy_check E secret now r = Some Allowed \<longleftrightarrow> hook_policy_check E secret now q = Some Allowed)"
    by auto
  with same updates show ?thesis by blast
qed

theorem signed_payload_determines_witness:
  "hook_policy_check demo_env [] 103 (demo_request [demo_a, demo_b]) = Some Allowed
   \<and> hook_policy_check demo_env [] 103 (demo_request [demo_b, demo_a]) = Some Allowed"
proof -
  have "uuid_text_ok demo_env"
    by (auto simp: uuid_text_ok_def demo_env_def ustr_def split: if_splits)
  moreover have "request_ok demo_env (demo_request [demo_a, demo_b])"
    and "request_ok demo_env (demo_request [demo_b, demo_a])"
    by (auto intro!: demo_request_ok)
  moreover have "signature (demo_request [demo_a, demo_b]) = signature (demo_request [demo_b, demo_a])"
    by (simp add: demo_request_def)
  ultimately have "hook_policy_check demo_env [] 103 (demo_request [demo_a, demo_b]) = Some Allowed
      \<longleftrightarrow> hook_policy_check demo_env [] 103 (demo_request [demo_b, demo_a]) = Some Allowed"
    using signed_payload_determines [OF _ _ _ demo_payload] by blast
  moreover from hook_admission_iff [of demo_env "[]" 103 "demo_request [demo_a, demo_b]"] demo_admitted
  have "hook_policy_check demo_env [] 103 (demo_request [demo_a, demo_b]) = Some Allowed" by auto
  ultimately show ?thesis by simp
qed

end
