(* ===== verification/Git_Manifest.thy ===== *)
theory Git_Manifest
  imports Text_Tools
begin

text \<open>
  The manifest of a repository, from \<open>buzz-relay/src/api/git/manifest.rs\<close>: the
  predicates on names and digests, validation, the canonical form, and the key
  of the mutable pointer.

  A \<open>BTreeMap\<close> is its entries in key order.  \<open>serde_json\<close> encodes and decodes; both
  directions are parameters.
\<close>

section \<open>Ordered maps\<close>

type_synonym ref_map = "(ustring \<times> ustring) list"

fun bt_insert :: "ustring \<Rightarrow> ustring \<Rightarrow> ref_map \<Rightarrow> ref_map" where
  "bt_insert k v [] = [(k, v)]"
| "bt_insert k v ((k', v') # m) =
     (if k < k' then (k, v) # (k', v') # m
      else if k = k' then (k, v) # m
      else (k', v') # bt_insert k v m)"

definition bt_contains :: "ref_map \<Rightarrow> ustring \<Rightarrow> bool" where
  "bt_contains m k \<longleftrightarrow> map_of m k \<noteq> None"

definition bt_ok :: "ref_map \<Rightarrow> bool" where
  "bt_ok m \<longleftrightarrow> sorted_wrt (<) (map fst m)"

lemma map_of_bt_insert [simp]: "bt_ok m \<Longrightarrow> map_of (bt_insert k v m) = (map_of m)(k \<mapsto> v)"
proof (induction m)
  case (Cons e m)
  then show ?case by (cases e) (auto simp: bt_ok_def fun_eq_iff)
qed auto

lemma fst_set_bt_insert: "fst ` set (bt_insert k v m) = insert k (fst ` set m)"
  by (induction k v m rule: bt_insert.induct) auto

lemma bt_ok_insert [simp]: "bt_ok m \<Longrightarrow> bt_ok (bt_insert k v m)"
proof (induction m)
  case (Cons e m)
  obtain k' v' where e: "e = (k', v')" by (cases e)
  have "\<forall>x\<in>set (map fst (bt_insert k v m)). k' < x" if "k' < k"
    using Cons.prems that fst_set_bt_insert [of k v m] by (auto simp: bt_ok_def e)
  with Cons e show ?case by (auto simp: bt_ok_def not_less order_le_less)
qed (simp add: bt_ok_def)

lemma bt_ok_Nil [simp]: "bt_ok []"
  by (simp add: bt_ok_def)

lemma length_bt_insert:
  "bt_ok m \<Longrightarrow> length (bt_insert k v m) = (if bt_contains m k then length m else length m + 1)"
proof (induction m)
  case (Cons e m)
  obtain k' v' where e: "e = (k', v')" by (cases e)
  have "k < k' \<Longrightarrow> map_of m k = None"
    using Cons.prems by (force simp: bt_ok_def e map_of_eq_None_iff)
  with Cons e show ?case by (auto simp: bt_ok_def bt_contains_def)
qed (simp add: bt_contains_def)


section \<open>The manifest\<close>

definition MANIFEST_VERSION :: u32 where "MANIFEST_VERSION = 1"
definition MAX_MANIFEST_PACKS :: nat where "MAX_MANIFEST_PACKS = 128"
definition PACK_COMPACTION_THRESHOLD :: nat where "PACK_COMPACTION_THRESHOLD = MAX_MANIFEST_PACKS * 3 div 4"
definition MAX_MANIFEST_REFS :: nat where "MAX_MANIFEST_REFS = 10000"

record manifest =
  version :: u32
  head :: ustring
  refs :: ref_map
  packs :: "ustring list"
  parent :: "ustring option"

datatype manifest_error =
    Serde string
  | UnsupportedVersion u32 u32
  | UnsafeRefName ustring
  | MalformedOid ustring ustring
  | EmptyHead
  | MalformedParent ustring
  | TooManyPacks nat nat
  | TooManyRefs nat nat
  | MalformedPackKey ustring

definition is_safe_refname :: "ustring \<Rightarrow> bool" where
  "is_safe_refname s =
     (if \<not> starts_with s (ustr ''refs/'') then False
      else if contains_str s (ustr ''..'') \<or> contains_str s (ustr ''//'')
        \<or> starts_with s (ustr ''/'') \<or> ends_with s (ustr ''/'') then False
      else list_all (\<lambda>c. is_ascii_alphanumeric c \<or> c = 47 \<or> c = 95 \<or> c = 46 \<or> c = 45) s)"

definition is_hex_oid :: "ustring \<Rightarrow> bool" where
  "is_hex_oid s \<longleftrightarrow> (utf8_len s = 40 \<or> utf8_len s = 64) \<and> list_all is_hexdigit_cp s"

definition is_manifest_digest :: "ustring \<Rightarrow> bool" where
  "is_manifest_digest s \<longleftrightarrow> utf8_len s = 64 \<and> list_all is_lower_hex_cp s"

definition is_pack_key :: "ustring \<Rightarrow> bool" where
  "is_pack_key s = (case strip_prefix s (ustr ''packs/'') of Some d \<Rightarrow> is_manifest_digest d | None \<Rightarrow> False)"

definition pointer_key :: "uuid_api \<Rightarrow> uuid \<Rightarrow> ustring \<Rightarrow> ustring \<Rightarrow> ustring" where
  "pointer_key U community owner repo =
     (let repo = (case strip_suffix repo (ustr ''.git'') of Some r \<Rightarrow> r | None \<Rightarrow> repo) in
      ustr ''repos/'' @ ustr (uuid_display U community) @ ustr ''/'' @ owner @ ustr ''/'' @ repo
      @ ustr ''/pointer'')"

definition validate_ref :: "ustring \<times> ustring \<Rightarrow> (unit, manifest_error) result" where
  "validate_ref entry =
     (let (refname, oid) = entry in
      if \<not> is_safe_refname refname then Err (UnsafeRefName refname)
      else if \<not> is_hex_oid oid then Err (MalformedOid refname oid)
      else Ok ())"

definition manifest_validate :: "manifest \<Rightarrow> (unit, manifest_error) result" where
  "manifest_validate m =
     (if length (packs m) > MAX_MANIFEST_PACKS then Err (TooManyPacks (length (packs m)) MAX_MANIFEST_PACKS)
      else if length (refs m) > MAX_MANIFEST_REFS then Err (TooManyRefs (length (refs m)) MAX_MANIFEST_REFS)
      else if head m = [] then Err EmptyHead
      else if \<not> is_safe_refname (head m) then Err (UnsafeRefName (head m))
      else then_r (for_each validate_ref (refs m))
        (then_r (for_each (\<lambda>pack. if \<not> is_pack_key pack then Err (MalformedPackKey pack) else Ok ()) (packs m))
          (case parent m of
             Some p \<Rightarrow> if \<not> is_manifest_digest p then Err (MalformedParent p) else Ok ()
           | None \<Rightarrow> Ok ())))"

definition sort_dedup :: "ustring list \<Rightarrow> ustring list" where
  "sort_dedup xs = remdups_adj (sort xs)"

text \<open>The JSON codec of the manifest: \<open>serde_json::to_vec\<close> and \<open>from_slice\<close>.\<close>

record manifest_codec =
  to_vec :: "manifest \<Rightarrow> (bytes, string) result"
  from_slice :: "bytes \<Rightarrow> (manifest, string) result"

definition canonical_bytes :: "manifest_codec \<Rightarrow> manifest \<Rightarrow> (bytes, manifest_error) result" where
  "canonical_bytes J m = map_err Serde (to_vec J (m\<lparr>packs := sort_dedup (packs m)\<rparr>))"

definition manifest_from_bytes :: "manifest_codec \<Rightarrow> bytes \<Rightarrow> (manifest, manifest_error) result" where
  "manifest_from_bytes J bs =
     bind_r (map_err Serde (from_slice J bs)) (\<lambda>m.
       if version m \<noteq> MANIFEST_VERSION then Err (UnsupportedVersion (version m) MANIFEST_VERSION)
       else Ok m)"


section \<open>Valid manifests\<close>

definition manifest_ok :: "manifest \<Rightarrow> bool" where
  "manifest_ok m \<longleftrightarrow>
     length (packs m) \<le> 128 \<and> length (refs m) \<le> 10000 \<and> is_safe_refname (head m)
     \<and> list_all (\<lambda>(refname, oid). is_safe_refname refname \<and> is_hex_oid oid) (refs m)
     \<and> list_all is_pack_key (packs m)
     \<and> (case parent m of None \<Rightarrow> True | Some p \<Rightarrow> is_manifest_digest p)"

lemma safe_refname_not_empty: "\<not> is_safe_refname []"
  by (simp add: is_safe_refname_def starts_with_def ustr_def)

lemma manifest_validate_Ok: "manifest_validate m = Ok () \<longleftrightarrow> manifest_ok m"
proof -
  have refs: "validate_ref e = Ok () \<longleftrightarrow> (case e of (refname, oid) \<Rightarrow> is_safe_refname refname \<and> is_hex_oid oid)" for e
    by (auto simp: validate_ref_def split: prod.splits)
  show ?thesis
    unfolding manifest_validate_def manifest_ok_def
    using safe_refname_not_empty
    by (auto simp: result_inv refs list_all_iff MAX_MANIFEST_PACKS_def MAX_MANIFEST_REFS_def not_less
        split: option.splits)
qed

lemma sort_dedup_spec [simp]:
  "set (sort_dedup xs) = set xs" "distinct (sort_dedup xs)" "sorted (sort_dedup xs)"
  "length (sort_dedup xs) = card (set xs)"
proof -
  have "sorted (remdups_adj ys) \<and> distinct (remdups_adj ys)" if "sorted ys" for ys :: "ustring list"
    using that by (induction ys rule: remdups_adj.induct) (auto simp: order_le_less)
  from this [of "sort xs"] show sorted: "sorted (sort_dedup xs)" and distinct: "distinct (sort_dedup xs)"
    by (simp_all add: sort_dedup_def)
  show set: "set (sort_dedup xs) = set xs" by (simp add: sort_dedup_def)
  show "length (sort_dedup xs) = card (set xs)"
    using distinct_card [OF distinct] set by simp
qed

lemma sort_dedup_idem [simp]: "sort_dedup (sort_dedup xs) = sort_dedup xs"
proof -
  have "remdups_adj ys = ys" if "sorted ys" "distinct ys" for ys :: "ustring list"
    using that by (induction ys rule: remdups_adj.induct) auto
  then show ?thesis
    using sort_dedup_spec(2,3) [of xs] by (metis sort_dedup_def sorted_sort_id)
qed

lemma manifest_ok_sort_dedup: "manifest_ok m \<Longrightarrow> manifest_ok (m\<lparr>packs := sort_dedup (packs m)\<rparr>)"
  using card_length [of "packs m"] by (auto simp: manifest_ok_def list_all_iff)

end
