(* ===== verification/Git_Store.thy ===== *)
theory Git_Store
  imports Git_Manifest
begin

text \<open>
  The object-store client of the Git service, from
  \<open>buzz-relay/src/api/git/store.rs\<close>.

  Pushes run concurrently and every await on the store is a point where others
  may act, so code that talks to the store is a program: a tree of store
  requests, each with what the code does on every answer.  \<open>bind_p\<close> sequences
  programs as \<open>.await\<close> does.  The store itself is an external service; the locale
  \<open>object_store\<close> states what its documentation promises about conditional
  writes, reads and entity tags, and leaves open whether a request that ends in
  any other error was applied.  Quoted input in error texts is left out.
\<close>

section \<open>Programs over the store\<close>

datatype s3_error = HttpFailWithBody nat string | Reqwest | Http | Io | OtherS3 string

record response =
  status_code :: nat
  headers :: "string \<Rightarrow> ustring option"
  resp_body :: bytes

record head_result =
  content_length :: "int option"

datatype precond = IfNoneMatchStar | IfMatch ustring

datatype 'r prog =
    Return 'r
  | PutObject ustring bytes precond "(response, s3_error) result \<Rightarrow> 'r prog"
  | GetObject ustring "(response, s3_error) result \<Rightarrow> 'r prog"
  | HeadObject ustring "(head_result \<times> nat, s3_error) result \<Rightarrow> 'r prog"

primrec bind_p :: "'a prog \<Rightarrow> ('a \<Rightarrow> 'b prog) \<Rightarrow> 'b prog" where
  "bind_p (Return x) f = f x"
| "bind_p (PutObject k v c g) f = PutObject k v c (\<lambda>r. bind_p (g r) f)"
| "bind_p (GetObject k g) f = GetObject k (\<lambda>r. bind_p (g r) f)"
| "bind_p (HeadObject k g) f = HeadObject k (\<lambda>r. bind_p (g r) f)"

text \<open>The question-mark operator, with the conversion of the error type.\<close>

definition try_p :: "('e \<Rightarrow> 'f) \<Rightarrow> ('a, 'e) result prog \<Rightarrow> ('a \<Rightarrow> ('b, 'f) result prog) \<Rightarrow> ('b, 'f) result prog" where
  "try_p conv p f = bind_p p (\<lambda>r. case r of Ok x \<Rightarrow> f x | Err e \<Rightarrow> Return (Err (conv e)))"

definition lift_r :: "('a, 'e) result \<Rightarrow> ('a \<Rightarrow> ('b, 'e) result prog) \<Rightarrow> ('b, 'e) result prog" where
  "lift_r m f = (case m of Ok x \<Rightarrow> f x | Err e \<Rightarrow> Return (Err e))"

text \<open>
  \<open>tokio::time::timeout\<close>: the operation is dropped at some await.  The argument
  is the number of requests that were sent before the deadline, if it passed.
\<close>

primrec cut_p :: "'r prog \<Rightarrow> nat \<Rightarrow> 'r option prog" where
  "cut_p (Return x) n = Return (if n = 0 then None else Some x)"
| "cut_p (PutObject k v c g) n =
     (case n of 0 \<Rightarrow> Return None | Suc m \<Rightarrow> PutObject k v c (\<lambda>r. cut_p (g r) m))"
| "cut_p (GetObject k g) n = (case n of 0 \<Rightarrow> Return None | Suc m \<Rightarrow> GetObject k (\<lambda>r. cut_p (g r) m))"
| "cut_p (HeadObject k g) n = (case n of 0 \<Rightarrow> Return None | Suc m \<Rightarrow> HeadObject k (\<lambda>r. cut_p (g r) m))"

definition timeout_p :: "nat option \<Rightarrow> 'r prog \<Rightarrow> 'r option prog" where
  "timeout_p deadline p =
     (case deadline of None \<Rightarrow> bind_p p (\<lambda>x. Return (Some x)) | Some n \<Rightarrow> cut_p p n)"


section \<open>The client\<close>

datatype cas_outcome = Won ustring | LostRace

record probe_failure =
  probe_phase :: string
  probe_round :: nat
  probe_key :: ustring
  probe_reason :: ustring

datatype store_error =
    NotFound ustring
  | ObjectTooLarge ustring nat u64
  | DigestMismatch ustring ustring ustring
  | Backend s3_error
  | Config string
  | Probe probe_failure

text \<open>
  What the client takes from other crates: SHA-256 in lowercase hexadecimal, and
  which strings are legal header values.
\<close>

record store_env =
  sha256_hex :: "bytes \<Rightarrow> ustring"
  header_value_ok :: "ustring \<Rightarrow> bool"

definition content_key :: "store_env \<Rightarrow> ustring \<Rightarrow> bytes \<Rightarrow> ustring" where
  "content_key G prefix bs = prefix @ ustr ''/'' @ sha256_hex G bs"

definition idx_key_for_pack_digest :: "ustring \<Rightarrow> (ustring, store_error) result" where
  "idx_key_for_pack_digest pack_digest =
     (if utf8_len pack_digest \<noteq> 64 \<or> \<not> list_all is_hexdigit_cp pack_digest
      then Err (Backend (HttpFailWithBody 400 ''invalid pack digest for idx sidecar''))
      else Ok (ustr ''idx/'' @ pack_digest))"

definition is_success :: "nat \<Rightarrow> bool" where
  "is_success status \<longleftrightarrow> 200 \<le> status \<and> status < 300"

text \<open>The outcome of a create-only write: a refused precondition means already present.\<close>

definition classify_create ::
  "ustring \<Rightarrow> (response, s3_error) result \<Rightarrow> (ustring, store_error) result" where
  "classify_create key outcome =
     (case outcome of
        Ok resp \<Rightarrow>
          if is_success (status_code resp) then Ok key
          else Err (Backend (HttpFailWithBody (status_code resp) ''unexpected status''))
      | Err (HttpFailWithBody code message) \<Rightarrow>
          if code = 412 then Ok key else Err (Backend (HttpFailWithBody code message))
      | Err e \<Rightarrow> Err (Backend e))"

definition put_immutable :: "store_env \<Rightarrow> ustring \<Rightarrow> bytes \<Rightarrow> (ustring, store_error) result prog" where
  "put_immutable G prefix bs =
     (let key = content_key G prefix bs in
      PutObject key bs IfNoneMatchStar (\<lambda>r. Return (classify_create key r)))"

definition put_pack :: "store_env \<Rightarrow> bytes \<Rightarrow> (ustring, store_error) result prog" where
  "put_pack G bs = put_immutable G (ustr ''packs'') bs"

definition put_manifest :: "store_env \<Rightarrow> bytes \<Rightarrow> (ustring, store_error) result prog" where
  "put_manifest G bs = put_immutable G (ustr ''manifests'') bs"

definition put_idx :: "ustring \<Rightarrow> bytes \<Rightarrow> (ustring, store_error) result prog" where
  "put_idx pack_digest idx_bytes =
     lift_r (idx_key_for_pack_digest pack_digest) (\<lambda>key.
       PutObject key idx_bytes IfNoneMatchStar (\<lambda>r. Return (classify_create key r)))"

definition not_found_or :: "ustring \<Rightarrow> s3_error \<Rightarrow> store_error" where
  "not_found_or key e =
     (case e of HttpFailWithBody code _ \<Rightarrow> if code = 404 then NotFound key else Backend e | _ \<Rightarrow> Backend e)"

definition store_get :: "ustring \<Rightarrow> (bytes, store_error) result prog" where
  "store_get key =
     GetObject key (\<lambda>r. Return (case r of Ok resp \<Rightarrow> Ok (resp_body resp) | Err e \<Rightarrow> Err (not_found_or key e)))"

definition verify_digest :: "store_env \<Rightarrow> ustring \<Rightarrow> ustring \<Rightarrow> bytes \<Rightarrow> (bytes, store_error) result" where
  "verify_digest G key expected bs =
     (let actual = sha256_hex G bs in
      if actual \<noteq> expected then Err (DigestMismatch key expected actual) else Ok bs)"

definition get_verified :: "store_env \<Rightarrow> ustring \<Rightarrow> ustring \<Rightarrow> (bytes, store_error) result prog" where
  "get_verified G key expected =
     try_p id (store_get key) (\<lambda>bs. Return (verify_digest G key expected bs))"

definition content_length_u64 :: "int \<Rightarrow> nat" where
  "content_length_u64 n = (if n < 0 then 2 ^ 64 - 1 else nat n)"

definition get_limited :: "ustring \<Rightarrow> u64 \<Rightarrow> (bytes, store_error) result prog" where
  "get_limited key max_bytes =
     HeadObject key (\<lambda>r. case r of
       Err e \<Rightarrow> Return (Err (not_found_or key e))
     | Ok (meta, status) \<Rightarrow>
         if status = 404 then Return (Err (NotFound key))
         else if \<not> is_success status then
           Return (Err (Backend (HttpFailWithBody status ''unexpected status'')))
         else
           (let get = try_p id (store_get key) (\<lambda>bs.
              if length bs > unat max_bytes then Return (Err (ObjectTooLarge key (length bs) max_bytes))
              else Return (Ok bs)) in
            case content_length meta of
              Some n \<Rightarrow>
                if content_length_u64 n > unat max_bytes
                then Return (Err (ObjectTooLarge key (content_length_u64 n) max_bytes))
                else get
            | None \<Rightarrow> get))"

definition get_verified_limited ::
  "store_env \<Rightarrow> ustring \<Rightarrow> ustring \<Rightarrow> u64 \<Rightarrow> (bytes, store_error) result prog" where
  "get_verified_limited G key expected max_bytes =
     try_p id (get_limited key max_bytes) (\<lambda>bs. Return (verify_digest G key expected bs))"

definition etag_header :: "response \<Rightarrow> ustring option" where
  "etag_header resp = (case headers resp ''etag'' of Some e \<Rightarrow> Some e | None \<Rightarrow> headers resp ''ETag'')"

definition get_pointer :: "ustring \<Rightarrow> ((ustring \<times> bytes) option, store_error) result prog" where
  "get_pointer key =
     GetObject key (\<lambda>r. Return (case r of
       Ok resp \<Rightarrow>
         (case etag_header resp of
            Some etag \<Rightarrow> Ok (Some (etag, resp_body resp))
          | None \<Rightarrow> Err (Backend (HttpFailWithBody 500 ''GET pointer: response missing ETag'')))
     | Err (HttpFailWithBody code message) \<Rightarrow>
         if code = 404 then Ok None else Err (Backend (HttpFailWithBody code message))
     | Err e \<Rightarrow> Err (Backend e)))"

definition classify_cas :: "(response, s3_error) result \<Rightarrow> (cas_outcome, store_error) result" where
  "classify_cas outcome =
     (case outcome of
        Ok resp \<Rightarrow>
          if is_success (status_code resp) then
            (case etag_header resp of
               Some etag \<Rightarrow> Ok (Won etag)
             | None \<Rightarrow> Err (Backend (HttpFailWithBody (status_code resp)
                 ''CAS succeeded but response missing ETag header (backend does not satisfy ETag-token consistency)'')))
          else Err (Backend (HttpFailWithBody (status_code resp) ''unexpected status''))
      | Err (HttpFailWithBody code message) \<Rightarrow>
          if code = 412 then Ok LostRace else Err (Backend (HttpFailWithBody code message))
      | Err e \<Rightarrow> Err (Backend e))"

definition put_pointer :: "store_env \<Rightarrow> ustring \<Rightarrow> bytes \<Rightarrow> precond \<Rightarrow> (cas_outcome, store_error) result prog" where
  "put_pointer G key body cond =
     (let send = PutObject key body cond (\<lambda>r. Return (classify_cas r)) in
      case cond of
        IfNoneMatchStar \<Rightarrow> send
      | IfMatch tag \<Rightarrow>
          if header_value_ok G tag then send
          else Return (Err (Backend (HttpFailWithBody 400 ''invalid etag''))))"

end
