(* ===== verification/Git_Publish.thy ===== *)
theory Git_Publish
  imports Git_Store
begin

text \<open>
  Publishing a push, from \<open>buzz-relay/src/api/git/cas_publish.rs\<close>, and loading the
  state a push starts from, from \<open>buzz-relay/src/api/git/hydrate.rs\<close>.

  The Git subprocesses and the temporary files are outside the model: the record
  \<open>git_env\<close> holds what they answer.  Metrics and log lines are omitted.  Error texts
  that print an operating-system error are those the environment supplies, and
  the keys, paths and quoted input that others embed are left out.
\<close>

section \<open>Types\<close>

datatype cas_error =
    Conflict manifest ustring
  | ManifestReadFailed string
  | ManifestInvalid manifest_error
  | CasBackend store_error
  | PackCapture string
  | ResourceLimit string

record publish_limits =
  parent_hydrated_bytes :: u64
  max_pack_bytes :: u64
  max_repo_bytes :: u64

record cas_success =
  success_manifest :: manifest
  success_key :: ustring

record parent_state =
  if_match :: "ustring option"
  parent_digest :: "ustring option"
  parent_manifest :: manifest

definition parent_state_fresh :: parent_state where
  "parent_state_fresh =
     \<lparr>if_match = None, parent_digest = None,
      parent_manifest = \<lparr>version = MANIFEST_VERSION, head = [], refs = [], packs = [], parent = None\<rparr>\<rparr>"

definition parent_state_from_loaded :: "ustring \<Rightarrow> ustring \<Rightarrow> manifest \<Rightarrow> parent_state" where
  "parent_state_from_loaded etag digest m =
     \<lparr>if_match = Some etag, parent_digest = Some digest, parent_manifest = m\<rparr>"

text \<open>
  A pack written by the compaction run: its size and index size when they were
  checked, and its bytes and index bytes when they were read for the upload.
\<close>

record compacted_pack =
  pack_size :: u64
  idx_size :: u64
  pack_read :: "(bytes, string) result"
  idx_read :: "bytes option"

text \<open>
  The answers of the environment: \<open>git for-each-ref\<close> (size of the output and its
  text, if UTF-8), \<open>git symbolic-ref\<close> (its output, if it succeeded), \<open>git
  pack-objects\<close> on a revision list, the index of a pack, the compaction permit,
  \<open>git count-objects\<close>, the packs of a compaction run in name order, and whether
  its deadline passed.
\<close>

record git_env =
  for_each_ref :: "(nat \<times> ustring option, cas_error) result"
  symbolic_ref :: "(ustring option, cas_error) result"
  pack_objects :: "ustring \<Rightarrow> (bytes, cas_error) result"
  index_pack :: "bytes \<Rightarrow> bytes option"
  compaction_permit :: "(unit, cas_error) result"
  count_objects :: "(nat \<times> ustring, cas_error) result"
  compact_objects :: "ustring \<Rightarrow> (compacted_pack list, cas_error) result"
  compaction_deadline :: "nat option"


section \<open>The workspace after receive-pack\<close>

definition MAX_REF_SNAPSHOT_BYTES :: nat where "MAX_REF_SNAPSHOT_BYTES = 4 * 1024 * 1024"

definition splitn2 :: "nat \<Rightarrow> ustring \<Rightarrow> ustring \<times> ustring option" where
  "splitn2 c s =
     (takeWhile (\<lambda>x. x \<noteq> c) s,
      case dropWhile (\<lambda>x. x \<noteq> c) s of [] \<Rightarrow> None | _ # rest \<Rightarrow> Some rest)"

fun collect_refs :: "ref_map \<Rightarrow> ustring list \<Rightarrow> (ref_map, cas_error) result" where
  "collect_refs acc [] = Ok acc"
| "collect_refs acc (line # rest) =
     (case splitn2 32 line of
        (name, None) \<Rightarrow> collect_refs acc rest
      | (name, Some oid) \<Rightarrow>
          if utf8_len oid \<noteq> 40 \<or> \<not> list_all is_hexdigit_cp oid then collect_refs acc rest
          else if length acc \<ge> MAX_MANIFEST_REFS \<and> \<not> bt_contains acc name then
            Err (ResourceLimit ''workspace contains more than 10000 refs'')
          else collect_refs (bt_insert name oid acc) rest)"

definition snapshot_workspace_state :: "git_env \<Rightarrow> (ref_map \<times> ustring, cas_error) result" where
  "snapshot_workspace_state E =
     bind_r (for_each_ref E) (\<lambda>(len, text).
       if len > MAX_REF_SNAPSHOT_BYTES then
         Err (ResourceLimit (''ref snapshot is '' @ show_nat len @ '' bytes (max ''
           @ show_nat MAX_REF_SNAPSHOT_BYTES @ '')''))
       else
         bind_r (collect_refs [] (str_lines (case text of Some t \<Rightarrow> t | None \<Rightarrow> []))) (\<lambda>refs_after.
         bind_r (symbolic_ref E) (\<lambda>out.
           Ok (refs_after, case out of Some t \<Rightarrow> trim t | None \<Rightarrow> []))))"

definition resolve_published_head :: "ref_map \<Rightarrow> ustring \<Rightarrow> ustring \<Rightarrow> ustring" where
  "resolve_published_head m observed_head parent_head =
     (let is_branch = \<lambda>name. starts_with name (ustr ''refs/heads/'');
          is_published_branch = \<lambda>name. is_branch name \<and> bt_contains m name in
      if is_published_branch observed_head then observed_head
      else if is_published_branch parent_head then parent_head
      else case find (bt_contains m) [ustr ''refs/heads/main'', ustr ''refs/heads/master''] of
        Some preferred \<Rightarrow> preferred
      | None \<Rightarrow>
          (case find is_branch (map fst m) of
             Some branch \<Rightarrow> branch
           | None \<Rightarrow> if observed_head \<noteq> [] then observed_head else parent_head))"


section \<open>Packs\<close>

definition digest_from_pack_key :: "ustring \<Rightarrow> (ustring, cas_error) result" where
  "digest_from_pack_key key =
     ok_or (CasBackend (Backend (HttpFailWithBody 500 ''put_pack returned non-standard key'')))
       (opt_filter (\<lambda>d. utf8_len d = 64 \<and> list_all is_hexdigit_cp d)
         (strip_prefix key (ustr ''packs/'')))"

text \<open>The sidecar write is best effort: a failure is logged and the push goes on.\<close>

definition write_idx_sidecar :: "git_env \<Rightarrow> ustring \<Rightarrow> bytes \<Rightarrow> unit prog" where
  "write_idx_sidecar E pack_key pack_bytes =
     (case digest_from_pack_key pack_key of
        Err _ \<Rightarrow> Return ()
      | Ok pack_digest \<Rightarrow>
          (case index_pack E pack_bytes of
             None \<Rightarrow> Return ()
           | Some idx \<Rightarrow> bind_p (put_idx pack_digest idx) (\<lambda>_. Return ())))"

definition revision_lines :: "ref_map \<Rightarrow> ref_map \<Rightarrow> ustring" where
  "revision_lines refs_before refs_after =
     concat (map (\<lambda>e. snd e @ [10]) refs_after) @ concat (map (\<lambda>e. 94 # snd e @ [10]) refs_before)"

definition capture_pack :: "git_env \<Rightarrow> ref_map \<Rightarrow> ref_map \<Rightarrow> u64 \<Rightarrow> (bytes option, cas_error) result" where
  "capture_pack E refs_before refs_after max_bytes =
     (if refs_after = [] then Ok None
      else bind_r (pack_objects E (revision_lines refs_before refs_after)) (\<lambda>out.
        if length out > unat max_bytes then
          Err (ResourceLimit (''pack-objects output is '' @ show_nat (length out) @ '' bytes (max ''
            @ show_nat (unat max_bytes) @ '')''))
        else if length out = 0 then Ok None
        else Ok (Some out)))"

definition should_compact :: "nat \<Rightarrow> nat \<Rightarrow> bool" where
  "should_compact parent_pack_count threshold \<longleftrightarrow> parent_pack_count \<ge> threshold"

definition compacted_pack_set_is_usable :: "nat \<Rightarrow> nat \<Rightarrow> bool" where
  "compacted_pack_set_is_usable parent_pack_count compacted_pack_count \<longleftrightarrow>
     compacted_pack_count < parent_pack_count
     \<or> (parent_pack_count \<ge> MAX_MANIFEST_PACKS \<and> compacted_pack_count \<le> MAX_MANIFEST_PACKS)"

definition MAX_COMPACTION_OBJECTS :: u64 where "MAX_COMPACTION_OBJECTS = 1000000"
definition MAX_COUNT_OBJECTS_OUTPUT_BYTES :: nat where "MAX_COUNT_OBJECTS_OUTPUT_BYTES = 64 * 1024"

definition parse_count :: "ustring \<Rightarrow> string \<Rightarrow> (u64, cas_error) result" where
  "parse_count output name =
     ok_or (PackCapture (''count-objects omitted '' @ name))
       (Option.bind (find (\<lambda>line. starts_with line (ustr name)) (str_lines output))
         (\<lambda>line. parse_u64 (trim (drop (length name) line))))"

definition enforce_compaction_object_limit :: "git_env \<Rightarrow> (unit, cas_error) result" where
  "enforce_compaction_object_limit E =
     bind_r (count_objects E) (\<lambda>(len, output).
       if len > MAX_COUNT_OBJECTS_OUTPUT_BYTES then
         Err (ResourceLimit (''count-objects output is '' @ show_nat len @ '' bytes (max ''
           @ show_nat MAX_COUNT_OBJECTS_OUTPUT_BYTES @ '')''))
       else
         bind_r (parse_count output ''count:'') (\<lambda>loose.
         bind_r (parse_count output ''in-pack:'') (\<lambda>packed.
         bind_r (ok_or (ResourceLimit ''compaction object count overflowed u64'') (checked_add loose packed))
           (\<lambda>object_count.
             if object_count > MAX_COMPACTION_OBJECTS then
               Err (ResourceLimit (''repository has '' @ show_nat (unat object_count)
                 @ '' objects (compaction max 1000000)''))
             else Ok ()))))"

fun check_compacted_sizes :: "publish_limits \<Rightarrow> u64 \<Rightarrow> compacted_pack list \<Rightarrow> (u64, cas_error) result" where
  "check_compacted_sizes limits used [] = Ok used"
| "check_compacted_sizes limits used (p # rest) =
     (if pack_size p > max_pack_bytes limits then
        Err (ResourceLimit (''compacted pack is '' @ show_nat (unat (pack_size p)) @ '' bytes (max ''
          @ show_nat (unat (max_pack_bytes limits)) @ '')''))
      else bind_r (ok_or (ResourceLimit ''compacted byte count overflowed u64'') (checked_add used (pack_size p)))
        (\<lambda>used.
          if used > max_repo_bytes limits then
            Err (ResourceLimit (''compacted repo needs '' @ show_nat (unat used) @ '' bytes (max ''
              @ show_nat (unat (max_repo_bytes limits)) @ '')''))
          else if idx_size p > max_pack_bytes limits then
            Err (ResourceLimit (''compacted idx is '' @ show_nat (unat (idx_size p)) @ '' bytes (max ''
              @ show_nat (unat (max_pack_bytes limits)) @ '')''))
          else check_compacted_sizes limits used rest))"

fun unique_tips :: "ustring list \<Rightarrow> ref_map \<Rightarrow> ustring" where
  "unique_tips seen [] = []"
| "unique_tips seen ((name, oid) # rest) =
     (if oid \<in> set seen then unique_tips seen rest else oid @ [10] @ unique_tips (oid # seen) rest)"

definition capture_compacted_packs ::
  "git_env \<Rightarrow> ref_map \<Rightarrow> publish_limits \<Rightarrow> (compacted_pack list \<times> u64, cas_error) result" where
  "capture_compacted_packs E refs_after limits =
     (if refs_after = [] then Ok ([], 0)
      else then_r (enforce_compaction_object_limit E)
        (bind_r (compact_objects E (unique_tips [] refs_after)) (\<lambda>ps.
          if length ps > MAX_MANIFEST_PACKS then
            Err (ResourceLimit (''compaction produced '' @ show_nat (length ps) @ '' packs (max 128)''))
          else bind_r (check_compacted_sizes limits 0 ps) (\<lambda>used. Ok (ps, used)))))"

definition len_u64 :: "nat \<Rightarrow> u64" where
  "len_u64 n = (if n < 2 ^ 64 then word_of_nat n else - 1)"

fun upload_packs :: "store_env \<Rightarrow> compacted_pack list \<Rightarrow> (ustring list, cas_error) result prog" where
  "upload_packs G [] = Return (Ok [])"
| "upload_packs G (p # rest) =
     lift_r (map_err PackCapture (pack_read p)) (\<lambda>bs.
       if len_u64 (length bs) \<noteq> pack_size p then
         Return (Err (PackCapture ''compacted pack changed after size validation''))
       else try_p CasBackend (put_pack G bs) (\<lambda>pack_key.
         lift_r (digest_from_pack_key pack_key) (\<lambda>pack_digest.
           bind_p (case idx_read p of
                     Some idx \<Rightarrow> bind_p (put_idx pack_digest idx) (\<lambda>_. Return ())
                   | None \<Rightarrow> Return ())
             (\<lambda>_. try_p id (upload_packs G rest) (\<lambda>keys. Return (Ok (pack_key # keys)))))))"

definition upload_compacted_packs ::
  "store_env \<Rightarrow> compacted_pack list \<Rightarrow> (ustring list, cas_error) result prog" where
  "upload_compacted_packs G ps =
     try_p id (upload_packs G ps) (\<lambda>keys. Return (Ok (sort_dedup keys)))"

definition prepare_compaction ::
  "store_env \<Rightarrow> git_env \<Rightarrow> ref_map \<Rightarrow> publish_limits \<Rightarrow> nat \<Rightarrow> (ustring list, cas_error) result prog" where
  "prepare_compaction G E refs_after limits packs_before =
     lift_r (capture_compacted_packs E refs_after limits) (\<lambda>(ps, _).
       if \<not> compacted_pack_set_is_usable packs_before (length ps) then
         Return (Err (ResourceLimit (''compaction did not reduce pack count (before ''
           @ show_nat packs_before @ '', after '' @ show_nat (length ps) @ '')'')))
       else upload_compacted_packs G ps)"


section \<open>The manifest of the push\<close>

definition compose_after ::
  "manifest \<Rightarrow> ustring option \<Rightarrow> ustring \<Rightarrow> ref_map \<Rightarrow> ustring option \<Rightarrow> manifest" where
  "compose_after pm digest h m new_pack_key =
     (let ps = (case new_pack_key of
                  Some k \<Rightarrow> if \<not> list_ex (\<lambda>p. p = k) (packs pm) then packs pm @ [k] else packs pm
                | None \<Rightarrow> packs pm) in
      \<lparr>version = MANIFEST_VERSION, head = h, refs = m, packs = sort_dedup ps, parent = digest\<rparr>)"

definition compose_compacted_after ::
  "ustring option \<Rightarrow> ustring \<Rightarrow> ref_map \<Rightarrow> ustring list \<Rightarrow> manifest" where
  "compose_compacted_after digest h m keys =
     \<lparr>version = MANIFEST_VERSION, head = h, refs = m, packs = sort_dedup keys, parent = digest\<rparr>"

definition digest_from_manifest_key :: "ustring \<Rightarrow> (ustring, cas_error) result" where
  "digest_from_manifest_key key =
     ok_or (CasBackend (Backend (HttpFailWithBody 500 ''put_manifest returned non-standard key'')))
       (strip_prefix key (ustr ''manifests/''))"

text \<open>
  The compaction attempt: \<open>Ok (Some m)\<close> is a compacted manifest, an error is
  remembered as the reason for falling back to a delta pack.
\<close>

definition attempt_compaction ::
  "store_env \<Rightarrow> git_env \<Rightarrow> parent_state \<Rightarrow> publish_limits \<Rightarrow> nat \<Rightarrow> ustring \<Rightarrow> ref_map
   \<Rightarrow> (manifest option, cas_error) result prog" where
  "attempt_compaction G E ps limits threshold h refs_after =
     (let packs_before = length (packs (parent_manifest ps)) in
      if \<not> should_compact packs_before threshold then Return (Ok None)
      else lift_r (compaction_permit E) (\<lambda>_.
        bind_p (timeout_p (compaction_deadline E) (prepare_compaction G E refs_after limits packs_before))
          (\<lambda>r. Return (case r of
             None \<Rightarrow> Err (PackCapture ''pack compaction operation timed out after 600 seconds'')
           | Some (Err e) \<Rightarrow> Err e
           | Some (Ok keys) \<Rightarrow> Ok (Some (compose_compacted_after (parent_digest ps) h refs_after keys))))))"

definition delta_manifest ::
  "store_env \<Rightarrow> git_env \<Rightarrow> parent_state \<Rightarrow> publish_limits \<Rightarrow> cas_error option \<Rightarrow> ustring \<Rightarrow> ref_map
   \<Rightarrow> (manifest, cas_error) result prog" where
  "delta_manifest G E ps limits compaction_failure h refs_after =
     (let packs_before = length (packs (parent_manifest ps));
          finish = \<lambda>new_pack_key. Return (Ok
            (compose_after (parent_manifest ps) (parent_digest ps) h refs_after new_pack_key)) in
      lift_r (capture_pack E (refs (parent_manifest ps)) refs_after (max_pack_bytes limits)) (\<lambda>pack_bytes.
        if pack_bytes \<noteq> None \<and> packs_before \<ge> MAX_MANIFEST_PACKS then
          Return (Err (case compaction_failure of
              Some e \<Rightarrow> e
            | None \<Rightarrow> ResourceLimit (''repository already names '' @ show_nat packs_before
                @ '' packs and compaction failed'')))
        else (case pack_bytes of
            None \<Rightarrow> finish None
          | Some bs \<Rightarrow>
              lift_r (ok_or (ResourceLimit ''repo byte count overflowed u64'')
                  (checked_add (parent_hydrated_bytes limits) (len_u64 (length bs)))) (\<lambda>total_bytes.
                if total_bytes > max_repo_bytes limits then
                  Return (Err (ResourceLimit (''repo would need '' @ show_nat (unat total_bytes)
                    @ '' hydrated bytes (max '' @ show_nat (unat (max_repo_bytes limits)) @ '')'')))
                else try_p CasBackend (put_pack G bs) (\<lambda>pack_key.
                  bind_p (write_idx_sidecar E pack_key bs) (\<lambda>_. finish (Some pack_key)))))))"


section \<open>The commit\<close>

definition read_winner_after_conflict ::
  "store_env \<Rightarrow> manifest_codec \<Rightarrow> ustring \<Rightarrow> (manifest \<times> ustring, cas_error) result prog" where
  "read_winner_after_conflict G J pkey =
     try_p CasBackend (get_pointer pkey) (\<lambda>found.
       case found of
         None \<Rightarrow> Return (Err (ManifestReadFailed ''pointer vanished after LostRace (no-delete rule violated)''))
       | Some (_, body) \<Rightarrow>
           (case from_utf8 body of
              None \<Rightarrow> Return (Err (ManifestReadFailed ''winner pointer body not utf-8''))
            | Some text \<Rightarrow>
                (let digest = trim text in
                 if utf8_len digest \<noteq> 64 \<or> \<not> list_all is_hexdigit_cp digest then
                   Return (Err (ManifestReadFailed (''winner pointer body is not a 64-char hex digest (got ''
                     @ show_nat (utf8_len digest) @ '' chars)'')))
                 else
                   (let manifest_key = ustr ''manifests/'' @ digest in
                    try_p (\<lambda>e. case e of
                        DigestMismatch _ _ _ \<Rightarrow> ManifestReadFailed ''winner manifest digest mismatch''
                      | NotFound _ \<Rightarrow> ManifestReadFailed ''winner pointer names missing manifest''
                      | other \<Rightarrow> CasBackend other)
                      (get_verified G manifest_key digest) (\<lambda>bs.
                    Return (case manifest_from_bytes J bs of
                        Ok winner \<Rightarrow> Ok (winner, manifest_key)
                      | Err _ \<Rightarrow> Err (ManifestReadFailed ''parse winner manifest'')))))))"

definition commit_manifest ::
  "store_env \<Rightarrow> manifest_codec \<Rightarrow> ustring \<Rightarrow> parent_state \<Rightarrow> manifest \<Rightarrow> (cas_success, cas_error) result prog" where
  "commit_manifest G J pkey ps m_after =
     lift_r (map_err ManifestInvalid (manifest_validate m_after)) (\<lambda>_.
     lift_r (map_err ManifestInvalid (canonical_bytes J m_after)) (\<lambda>manifest_bytes.
     try_p CasBackend (put_manifest G manifest_bytes) (\<lambda>manifest_key.
     lift_r (digest_from_manifest_key manifest_key) (\<lambda>manifest_digest.
     let cond = (case if_match ps of Some e \<Rightarrow> IfMatch e | None \<Rightarrow> IfNoneMatchStar) in
     try_p CasBackend (put_pointer G pkey (str_bytes manifest_digest) cond) (\<lambda>outcome.
       case outcome of
         Won _ \<Rightarrow> Return (Ok \<lparr>success_manifest = m_after, success_key = manifest_key\<rparr>)
       | LostRace \<Rightarrow>
           try_p id (read_winner_after_conflict G J pkey)
             (\<lambda>(winner, winner_key). Return (Err (Conflict winner winner_key))))))))"

definition cas_publish_inner ::
  "store_env \<Rightarrow> manifest_codec \<Rightarrow> git_env \<Rightarrow> ustring \<Rightarrow> parent_state \<Rightarrow> publish_limits \<Rightarrow> nat
   \<Rightarrow> (cas_success, cas_error) result prog" where
  "cas_publish_inner G J E pkey ps limits threshold =
     lift_r (snapshot_workspace_state E) (\<lambda>(refs_after, head_observed).
       let h = resolve_published_head refs_after head_observed (head (parent_manifest ps)) in
       bind_p (attempt_compaction G E ps limits threshold h refs_after) (\<lambda>attempt.
         case attempt of
           Ok (Some m_after) \<Rightarrow> commit_manifest G J pkey ps m_after
         | Ok None \<Rightarrow>
             try_p id (delta_manifest G E ps limits None h refs_after) (commit_manifest G J pkey ps)
         | Err e \<Rightarrow>
             try_p id (delta_manifest G E ps limits (Some e) h refs_after) (commit_manifest G J pkey ps)))"

definition cas_publish ::
  "uuid_api \<Rightarrow> store_env \<Rightarrow> manifest_codec \<Rightarrow> git_env \<Rightarrow> uuid \<Rightarrow> ustring \<Rightarrow> ustring \<Rightarrow> parent_state
   \<Rightarrow> publish_limits \<Rightarrow> (cas_success, cas_error) result prog" where
  "cas_publish U G J E community owner repo ps limits =
     cas_publish_inner G J E (pointer_key U community owner repo) ps limits PACK_COMPACTION_THRESHOLD"


section \<open>Loading the published state\<close>

definition MAX_MANIFEST_BYTES :: u64 where "MAX_MANIFEST_BYTES = 4 * 1024 * 1024"

datatype hydrate_error =
    InvalidPointer
  | HydrateManifest manifest_error
  | HydrateStore store_error
  | Hydrate string
  | HydrateResourceLimit string

definition hydrate_store_error :: "store_error \<Rightarrow> hydrate_error" where
  "hydrate_store_error e =
     (case e of
        ObjectTooLarge key sz limit \<Rightarrow>
          HydrateResourceLimit (''object is '' @ show_nat sz @ '' bytes (max '' @ show_nat (unat limit) @ '')'')
      | other \<Rightarrow> HydrateStore other)"

definition load_pointer ::
  "uuid_api \<Rightarrow> store_env \<Rightarrow> manifest_codec \<Rightarrow> uuid \<Rightarrow> ustring \<Rightarrow> ustring
   \<Rightarrow> ((ustring \<times> ustring \<times> manifest) option, hydrate_error) result prog" where
  "load_pointer U G J community owner repo =
     try_p HydrateStore (get_pointer (pointer_key U community owner repo)) (\<lambda>found.
       case found of
         None \<Rightarrow> Return (Ok None)
       | Some (etag, pointer_bytes) \<Rightarrow>
           (case from_utf8 pointer_bytes of
              None \<Rightarrow> Return (Err InvalidPointer)
            | Some text \<Rightarrow>
                (let digest = trim text in
                 if utf8_len digest \<noteq> 64 \<or> \<not> list_all is_hexdigit_cp digest then Return (Err InvalidPointer)
                 else
                   try_p hydrate_store_error
                     (get_verified_limited G (ustr ''manifests/'' @ digest) digest MAX_MANIFEST_BYTES)
                     (\<lambda>bs. Return
                       (bind_r (map_err HydrateManifest (manifest_from_bytes J bs)) (\<lambda>m.
                        then_r (map_err HydrateManifest (manifest_validate m))
                          (Ok (Some (etag, digest, m)))))))))"

definition load_manifest_for_read ::
  "uuid_api \<Rightarrow> store_env \<Rightarrow> manifest_codec \<Rightarrow> uuid \<Rightarrow> ustring \<Rightarrow> ustring
   \<Rightarrow> (manifest option, hydrate_error) result prog" where
  "load_manifest_for_read U G J community owner repo =
     try_p id (load_pointer U G J community owner repo)
       (\<lambda>found. Return (Ok (map_option (\<lambda>(_, _, m). m) found)))"

text \<open>
  Materialising a manifest: \<open>materialize_pack\<close> is the pack cache's answer for one
  pack, and \<open>local\<close> the outcome of the temporary repository and its files.
\<close>

record hydrate_env =
  materialize_pack :: "ustring \<Rightarrow> (u64, hydrate_error) result"
  local :: "(unit, hydrate_error) result"

fun hydrate_packs :: "hydrate_env \<Rightarrow> publish_limits \<Rightarrow> u64 \<Rightarrow> ustring list \<Rightarrow> (u64, hydrate_error) result" where
  "hydrate_packs H limits used [] = Ok used"
| "hydrate_packs H limits used (key # rest) =
     bind_r (ok_or (Hydrate ''malformed pack key'') (strip_prefix key (ustr ''packs/''))) (\<lambda>digest.
     bind_r (materialize_pack H digest) (\<lambda>pack_bytes.
       if pack_bytes > max_pack_bytes limits then
         Err (HydrateResourceLimit (''pack is '' @ show_nat (unat pack_bytes) @ '' bytes (max ''
           @ show_nat (unat (max_pack_bytes limits)) @ '')''))
       else bind_r (ok_or (HydrateResourceLimit ''repo byte count overflowed u64'') (checked_add used pack_bytes))
         (\<lambda>used.
           if used > max_repo_bytes limits then
             Err (HydrateResourceLimit (''repo needs '' @ show_nat (unat used) @ '' hydrated bytes (max ''
               @ show_nat (unat (max_repo_bytes limits)) @ '')''))
           else hydrate_packs H limits used rest)))"

definition hydrate_ref :: "ustring \<times> ustring \<Rightarrow> (unit, hydrate_error) result" where
  "hydrate_ref entry =
     (let (refname, oid) = entry in
      if \<not> is_safe_refname refname then Err (Hydrate ''manifest contains unsafe refname'')
      else if \<not> is_hex_oid oid then Err (Hydrate ''manifest ref has malformed oid'')
      else Ok ())"

definition materialize_manifest ::
  "hydrate_env \<Rightarrow> publish_limits \<Rightarrow> manifest \<Rightarrow> (u64, hydrate_error) result" where
  "materialize_manifest H limits m =
     then_r (local H)
       (bind_r (hydrate_packs H limits 0 (packs m)) (\<lambda>used.
        then_r (for_each hydrate_ref (refs m))
          (if \<not> is_safe_refname (head m) then Err (Hydrate ''manifest head is not a safe ref name'')
           else Ok used)))"

definition hydrate_for_write ::
  "uuid_api \<Rightarrow> store_env \<Rightarrow> manifest_codec \<Rightarrow> hydrate_env \<Rightarrow> publish_limits \<Rightarrow> uuid \<Rightarrow> ustring \<Rightarrow> ustring
   \<Rightarrow> (u64 \<times> parent_state, hydrate_error) result prog" where
  "hydrate_for_write U G J H limits community owner repo =
     try_p id (load_pointer U G J community owner repo) (\<lambda>found.
       case found of
         Some (etag, digest, m) \<Rightarrow>
           lift_r (materialize_manifest H limits m) (\<lambda>used.
             Return (Ok (used, parent_state_from_loaded etag digest m)))
       | None \<Rightarrow> lift_r (local H) (\<lambda>_. Return (Ok (0, parent_state_fresh))))"

end
