(* ===== verification/Git_Concurrency.thy ===== *)
theory Git_Concurrency
  imports Git_Publish
begin

text \<open>
  Programs over a shared store, run concurrently.  The first part is the
  interface of the store; the second a pool of programs whose requests
  interleave; the third the reasoning principle the publication proofs use: a
  program is \<open>safe\<close> when, whatever the others do within a guarantee relation, each
  of its own requests stays within it and its result satisfies a postcondition.
\<close>

section \<open>The interface of the store\<close>

type_synonym contents = "ustring \<Rightarrow> bytes option"

definition precond_holds :: "(bytes \<Rightarrow> ustring) \<Rightarrow> precond \<Rightarrow> bytes option \<Rightarrow> bool" where
  "precond_holds etag_of cond current =
     (case cond of
        IfNoneMatchStar \<Rightarrow> current = None
      | IfMatch e \<Rightarrow> (case current of Some v \<Rightarrow> etag_of v = e | None \<Rightarrow> False))"

text \<open>
  A conditional write touches one key.  Success means the precondition held and
  the object is stored, a 412 that it did not hold and nothing changed; after
  any other answer the write may or may not have been applied.
\<close>

definition put_effect ::
  "(bytes \<Rightarrow> ustring) \<Rightarrow> contents \<Rightarrow> ustring \<Rightarrow> bytes \<Rightarrow> precond \<Rightarrow> (response, s3_error) result \<Rightarrow> contents \<Rightarrow> bool" where
  "put_effect etag_of c k v cond res c' \<longleftrightarrow>
     (c' = c \<or> precond_holds etag_of cond (c k) \<and> c' = c(k \<mapsto> v))
     \<and> (\<forall>resp. res = Ok resp \<and> is_success (status_code resp) \<longrightarrow>
          precond_holds etag_of cond (c k) \<and> c' = c(k \<mapsto> v))
     \<and> (\<forall>m. res = Err (HttpFailWithBody 412 m) \<longrightarrow> \<not> precond_holds etag_of cond (c k) \<and> c' = c)"

text \<open>A read answers with the object and its entity tag, a 404 means there is none.\<close>

definition get_effect ::
  "(bytes \<Rightarrow> ustring) \<Rightarrow> contents \<Rightarrow> ustring \<Rightarrow> (response, s3_error) result \<Rightarrow> bool" where
  "get_effect etag_of c k res \<longleftrightarrow>
     (\<forall>resp. res = Ok resp \<longrightarrow>
        c k = Some (resp_body resp)
        \<and> (\<forall>e. etag_header resp = Some e \<longrightarrow> e = etag_of (resp_body resp)))
     \<and> (\<forall>m. res = Err (HttpFailWithBody 404 m) \<longrightarrow> c k = None)"

text \<open>An entity tag identifies the bytes of the object.\<close>

locale object_store =
  fixes put_rel :: "'b \<Rightarrow> ustring \<Rightarrow> bytes \<Rightarrow> precond \<Rightarrow> (response, s3_error) result \<Rightarrow> 'b \<Rightarrow> bool"
    and get_rel :: "'b \<Rightarrow> ustring \<Rightarrow> (response, s3_error) result \<Rightarrow> bool"
    and head_rel :: "'b \<Rightarrow> ustring \<Rightarrow> (head_result \<times> nat, s3_error) result \<Rightarrow> bool"
    and contents :: "'b \<Rightarrow> contents"
    and etag_of :: "bytes \<Rightarrow> ustring"
  assumes etag_inj: "inj etag_of"
    and put_law: "put_rel b k v cond res b' \<Longrightarrow> put_effect etag_of (contents b) k v cond res (contents b')"
    and get_law: "get_rel b k res \<Longrightarrow> get_effect etag_of (contents b) k res"
begin

lemma precond_IfMatch:
  "precond_holds etag_of (IfMatch (etag_of v)) current \<longleftrightarrow> current = Some v"
  using etag_inj by (auto simp: precond_holds_def inj_eq split: option.splits)

lemma put_applied_or_not:
  "put_rel b k v cond res b' \<Longrightarrow> contents b' = contents b \<or> contents b' = (contents b)(k \<mapsto> v)"
  by (drule put_law) (auto simp: put_effect_def)

text \<open>Two writes conditioned on the same tag cannot both succeed on a changed value.\<close>

lemma one_winner:
  assumes "put_rel b k v (IfMatch e) (Ok r) b1" "is_success (status_code r)" "etag_of v \<noteq> e"
    and "put_rel b1 k w (IfMatch e) (Ok s) b2"
  shows "\<not> is_success (status_code s)"
  using put_law [OF assms(1)] put_law [OF assms(4)] assms(2,3)
  by (auto simp: put_effect_def precond_holds_def)

end

text \<open>
  A conforming store: a map in memory that answers at once, may lose a request
  without applying it, and may lose the answer of an applied one.
\<close>

definition mem_etag :: "bytes \<Rightarrow> ustring" where
  "mem_etag v = map unat v"

definition mem_response :: "bytes \<Rightarrow> response" where
  "mem_response v = \<lparr>status_code = 200, headers = (\<lambda>h. if h = ''etag'' then Some (mem_etag v) else None),
     resp_body = v\<rparr>"

definition mem_put ::
  "contents \<Rightarrow> ustring \<Rightarrow> bytes \<Rightarrow> precond \<Rightarrow> (response, s3_error) result \<Rightarrow> contents \<Rightarrow> bool" where
  "mem_put c k v cond res c' \<longleftrightarrow>
     (if precond_holds mem_etag cond (c k)
      then (res = Ok (mem_response v) \<or> res = Err Reqwest) \<and> c' = c(k \<mapsto> v) \<or> res = Err Reqwest \<and> c' = c
      else (res = Err (HttpFailWithBody 412 []) \<or> res = Err Reqwest) \<and> c' = c)"

definition mem_get :: "contents \<Rightarrow> ustring \<Rightarrow> (response, s3_error) result \<Rightarrow> bool" where
  "mem_get c k res \<longleftrightarrow>
     res = Err Reqwest
     \<or> res = (case c k of Some v \<Rightarrow> Ok (mem_response v) | None \<Rightarrow> Err (HttpFailWithBody 404 []))"

definition mem_head :: "contents \<Rightarrow> ustring \<Rightarrow> (head_result \<times> nat, s3_error) result \<Rightarrow> bool" where
  "mem_head c k res \<longleftrightarrow>
     res = (case c k of
        Some v \<Rightarrow> Ok (\<lparr>content_length = Some (int (length v))\<rparr>, 200)
      | None \<Rightarrow> Err (HttpFailWithBody 404 []))"

lemma inj_mem_etag: "inj mem_etag"
proof -
  have "inj (unat :: u8 \<Rightarrow> nat)" by (rule injI) (simp add: word_unat_eq_iff)
  then show ?thesis by (auto simp: mem_etag_def inj_map_eq_map intro: injI)
qed

interpretation mem: object_store mem_put mem_get mem_head id mem_etag
proof
  show "inj mem_etag" by (rule inj_mem_etag)
  show "put_effect mem_etag (id b) k v cond res (id b')" if "mem_put b k v cond res b'" for b k v cond res b'
    using that by (auto simp: mem_put_def put_effect_def split: if_splits)
  show "get_effect mem_etag (id b) k res" if "mem_get b k res" for b k res
    using that by (auto simp: mem_get_def get_effect_def etag_header_def mem_response_def split: option.splits)
qed


section \<open>Interleaved programs\<close>

type_synonym 'r pool = "nat \<Rightarrow> 'r prog option"

text \<open>
  One event is a program starting or one request being answered.  Thread \<open>i\<close> runs
  \<open>program i\<close>, and \<open>B\<close> is the set of byte strings that occur in uploads of the run.
\<close>

inductive pool_step ::
  "('b \<Rightarrow> ustring \<Rightarrow> bytes \<Rightarrow> precond \<Rightarrow> (response, s3_error) result \<Rightarrow> 'b \<Rightarrow> bool)
   \<Rightarrow> ('b \<Rightarrow> ustring \<Rightarrow> (response, s3_error) result \<Rightarrow> bool)
   \<Rightarrow> ('b \<Rightarrow> ustring \<Rightarrow> (head_result \<times> nat, s3_error) result \<Rightarrow> bool)
   \<Rightarrow> (nat \<Rightarrow> 'r prog) \<Rightarrow> bytes set
   \<Rightarrow> 'b \<times> 'r pool \<Rightarrow> nat \<Rightarrow> 'b \<times> 'r pool \<Rightarrow> bool"
  for put_rel get_rel head_rel program B where
  pool_start: "pool i = None \<Longrightarrow>
     pool_step put_rel get_rel head_rel program B (b, pool) i (b, pool(i \<mapsto> program i))"
| pool_put: "pool i = Some (PutObject k v cond f) \<Longrightarrow> v \<in> B \<Longrightarrow> put_rel b k v cond res b' \<Longrightarrow>
     pool_step put_rel get_rel head_rel program B (b, pool) i (b', pool(i \<mapsto> f res))"
| pool_get: "pool i = Some (GetObject k f) \<Longrightarrow> get_rel b k res \<Longrightarrow>
     pool_step put_rel get_rel head_rel program B (b, pool) i (b, pool(i \<mapsto> f res))"
| pool_head: "pool i = Some (HeadObject k f) \<Longrightarrow> head_rel b k res \<Longrightarrow>
     pool_step put_rel get_rel head_rel program B (b, pool) i (b, pool(i \<mapsto> f res))"

inductive_cases pool_stepE: "pool_step put_rel get_rel head_rel program B s i t"


section \<open>Safe programs\<close>

primrec safe ::
  "(contents \<Rightarrow> bool) \<Rightarrow> (contents \<Rightarrow> contents \<Rightarrow> bool)
   \<Rightarrow> (contents \<Rightarrow> ustring \<Rightarrow> bytes \<Rightarrow> precond \<Rightarrow> (response, s3_error) result \<Rightarrow> contents \<Rightarrow> bool)
   \<Rightarrow> (contents \<Rightarrow> ustring \<Rightarrow> (response, s3_error) result \<Rightarrow> bool)
   \<Rightarrow> ('r \<Rightarrow> contents \<Rightarrow> bool) \<Rightarrow> 'r prog \<Rightarrow> contents \<Rightarrow> bool" where
  "safe I R put get Q (Return r) = (\<lambda>c. \<forall>c'. R c c' \<longrightarrow> I c' \<longrightarrow> Q r c')"
| "safe I R put get Q (PutObject k v cond f) = (\<lambda>c. \<forall>c'. R c c' \<longrightarrow> I c' \<longrightarrow>
     (\<forall>res c''. put c' k v cond res c'' \<longrightarrow> R c' c'' \<and> I c'' \<and> safe I R put get Q (f res) c''))"
| "safe I R put get Q (GetObject k f) = (\<lambda>c. \<forall>c'. R c c' \<longrightarrow> I c' \<longrightarrow>
     (\<forall>res. get c' k res \<longrightarrow> safe I R put get Q (f res) c'))"
| "safe I R put get Q (HeadObject k f) = (\<lambda>c. \<forall>c'. R c c' \<longrightarrow> I c' \<longrightarrow> (\<forall>res. safe I R put get Q (f res) c'))"

text \<open>The guarantee is reflexive and transitive, as what others do over time must be.\<close>

locale guarantee =
  fixes I :: "contents \<Rightarrow> bool"
    and R :: "contents \<Rightarrow> contents \<Rightarrow> bool"
    and put :: "contents \<Rightarrow> ustring \<Rightarrow> bytes \<Rightarrow> precond \<Rightarrow> (response, s3_error) result \<Rightarrow> contents \<Rightarrow> bool"
    and get :: "contents \<Rightarrow> ustring \<Rightarrow> (response, s3_error) result \<Rightarrow> bool"
  assumes R_refl: "I c \<Longrightarrow> R c c"
    and R_trans: "R c1 c2 \<Longrightarrow> R c2 c3 \<Longrightarrow> R c1 c3"
begin

lemma safe_stable: "safe I R put get Q p c \<Longrightarrow> R c c' \<Longrightarrow> safe I R put get Q p c'"
  by (cases p) (auto intro: R_trans)

lemma safe_Return: "(\<And>c'. R c c' \<Longrightarrow> I c' \<Longrightarrow> Q r c') \<Longrightarrow> safe I R put get Q (Return r) c"
  by simp

lemma safe_bind:
  "safe I R put get (\<lambda>x c'. safe I R put get Q (f x) c') p c \<Longrightarrow> I c \<Longrightarrow> safe I R put get Q (bind_p p f) c"
proof (induction p arbitrary: c)
  case (Return x)
  then show ?case using R_refl by simp
qed auto

lemma safe_weaken:
  "safe I R put get Q p c \<Longrightarrow> (\<And>r c'. R c c' \<Longrightarrow> I c' \<Longrightarrow> Q r c' \<Longrightarrow> Q' r c') \<Longrightarrow> safe I R put get Q' p c"
proof (induction p arbitrary: c)
  case (PutObject k v cond f)
  show ?case unfolding safe.simps
  proof (intro allI impI conjI)
    fix c1 res c2
    assume c1: "R c c1" "I c1" and put: "put c1 k v cond res c2"
    with PutObject.prems(1) have c2: "R c1 c2" "I c2" "safe I R put get Q (f res) c2" by auto
    then show "R c1 c2" "I c2" by blast+
    have "R c c2" using c1(1) c2(1) by (rule R_trans)
    with PutObject.IH [OF _ c2(3)] PutObject.prems(2) show "safe I R put get Q' (f res) c2"
      by (meson R_trans rangeI)
  qed
next
  case (GetObject k f)
  then show ?case unfolding safe.simps by (meson R_trans rangeI)
next
  case (HeadObject k f)
  then show ?case unfolding safe.simps by (meson R_trans rangeI)
qed auto

lemma safe_seq:
  assumes "safe I R put get P p c" "I c"
    and "\<And>x c'. R c c' \<Longrightarrow> I c' \<Longrightarrow> P x c' \<Longrightarrow> safe I R put get Q (f x) c'"
  shows "safe I R put get Q (bind_p p f) c"
  using assms by (blast intro: safe_bind safe_weaken)

lemma safe_try:
  assumes "safe I R put get P p c" "I c"
    and "\<And>x c'. R c c' \<Longrightarrow> I c' \<Longrightarrow> P (Ok x) c' \<Longrightarrow> safe I R put get Q (f x) c'"
    and "\<And>e c'. R c c' \<Longrightarrow> I c' \<Longrightarrow> P (Err e) c' \<Longrightarrow> safe I R put get Q (Return (Err (conv e))) c'"
  shows "safe I R put get Q (try_p conv p f) c"
  unfolding try_p_def
proof (rule safe_seq [OF assms(1,2)])
  fix x c'
  assume "R c c'" "I c'" "P x c'"
  then show "safe I R put get Q (case x of Ok y \<Rightarrow> f y | Err e \<Rightarrow> Return (Err (conv e))) c'"
    using assms(3,4) by (cases x) (simp_all del: safe.simps)
qed

lemma safe_lift:
  assumes "\<And>x. m = Ok x \<Longrightarrow> safe I R put get Q (f x) c"
    and "\<And>e. m = Err e \<Longrightarrow> safe I R put get Q (Return (Err e)) c"
  shows "safe I R put get Q (lift_r m f) c"
  using assms unfolding lift_r_def by (cases m) auto

lemma safe_cut:
  "safe I R put get Q p c \<Longrightarrow>
   safe I R put get (\<lambda>r c'. case r of None \<Rightarrow> True | Some x \<Rightarrow> Q x c') (cut_p p n) c"
  by (induction p arbitrary: c n) (auto split: nat.splits)

lemma safe_timeout:
  assumes "safe I R put get Q p c"
  shows "safe I R put get (\<lambda>r c'. case r of None \<Rightarrow> True | Some x \<Rightarrow> Q x c') (timeout_p n p) c"
proof (cases n)
  case None
  have "safe I R put get (\<lambda>r c'. case r of None \<Rightarrow> True | Some x \<Rightarrow> Q x c') (bind_p p (\<lambda>x. Return (Some x))) c"
    using assms(1) by (induction p arbitrary: c) auto
  with None show ?thesis by (simp add: timeout_p_def)
next
  case (Some k)
  then show ?thesis unfolding timeout_p_def using safe_cut [OF assms(1)] by simp
qed

end

text \<open>A pool of safe programs keeps the invariant, the guarantee and every postcondition.\<close>

locale safe_pool =
  store: object_store put_rel get_rel head_rel contents etag_of +
  guarantee I R "\<lambda>c k v cond res c'. v \<in> B \<and> put_effect etag_of c k v cond res c'" "get_effect etag_of"
  for put_rel :: "'b \<Rightarrow> ustring \<Rightarrow> bytes \<Rightarrow> precond \<Rightarrow> (response, s3_error) result \<Rightarrow> 'b \<Rightarrow> bool"
    and get_rel head_rel contents etag_of I R B +
  fixes program :: "nat \<Rightarrow> 'r prog" and Q :: "nat \<Rightarrow> 'r \<Rightarrow> contents \<Rightarrow> bool"
  assumes program_safe: "I c \<Longrightarrow>
    safe I R (\<lambda>c k v cond res c'. v \<in> B \<and> put_effect etag_of c k v cond res c') (get_effect etag_of)
      (Q i) (program i) c"
begin

abbreviation runs_safe :: "nat \<Rightarrow> 'r prog \<Rightarrow> contents \<Rightarrow> bool" where
  "runs_safe i \<equiv> safe I R (\<lambda>c k v cond res c'. v \<in> B \<and> put_effect etag_of c k v cond res c')
     (get_effect etag_of) (Q i)"

definition pool_safe :: "'b \<times> 'r pool \<Rightarrow> bool" where
  "pool_safe s \<longleftrightarrow> I (contents (fst s)) \<and>
     (\<forall>i p. snd s i = Some p \<longrightarrow> runs_safe i p (contents (fst s)))"

lemma pool_safe_update:
  assumes "pool_safe (b, pool)" "R (contents b) (contents b')" "I (contents b')"
    and "runs_safe i p (contents b')"
  shows "pool_safe (b', pool(i \<mapsto> p)) \<and> R (contents b) (contents b')"
  using assms by (auto simp: pool_safe_def simp del: safe.simps intro: safe_stable)

lemma pool_step_safe:
  assumes "pool_step put_rel get_rel head_rel program B s i t" and "pool_safe s"
  shows "pool_safe t \<and> R (contents (fst s)) (contents (fst t))"
  using assms(1)
proof cases
  case (pool_start pool b)
  then have "I (contents b)" using assms(2) by (simp add: pool_safe_def)
  with assms(2) pool_start program_safe R_refl show ?thesis
    using pool_safe_update [of b pool b i "program i"] by simp
next
  case (pool_put pool k v cond f b res b')
  then have inv: "I (contents b)" and prog: "runs_safe i (PutObject k v cond f) (contents b)"
    using assms(2) by (simp_all add: pool_safe_def del: safe.simps)
  from prog [unfolded safe.simps, rule_format, OF R_refl [OF inv] inv] pool_put store.put_law
  have "R (contents b) (contents b') \<and> I (contents b') \<and> runs_safe i (f res) (contents b')"
    by blast
  with assms(2) pool_put show ?thesis
    using pool_safe_update [of b pool b' i "f res"] by simp
next
  case (pool_get pool k f b res)
  then have inv: "I (contents b)" and prog: "runs_safe i (GetObject k f) (contents b)"
    using assms(2) by (simp_all add: pool_safe_def del: safe.simps)
  from prog [unfolded safe.simps, rule_format, OF R_refl [OF inv] inv] pool_get store.get_law
  have "runs_safe i (f res) (contents b)" by blast
  with assms(2) pool_get inv R_refl show ?thesis
    using pool_safe_update [of b pool b i "f res"] by simp
next
  case (pool_head pool k f b res)
  then have inv: "I (contents b)" and prog: "runs_safe i (HeadObject k f) (contents b)"
    using assms(2) by (simp_all add: pool_safe_def del: safe.simps)
  from prog [unfolded safe.simps, rule_format, OF R_refl [OF inv] inv]
  have "runs_safe i (f res) (contents b)" by blast
  with assms(2) pool_head inv R_refl show ?thesis
    using pool_safe_update [of b pool b i "f res"] by simp
qed

lemma pool_run_safe:
  "steps (pool_step put_rel get_rel head_rel program B) s es t \<Longrightarrow> pool_safe s \<Longrightarrow>
   pool_safe t \<and> R (contents (fst s)) (contents (fst t))"
proof (induction rule: steps.induct)
  case (steps_Nil s)
  then show ?case by (auto simp: pool_safe_def R_refl)
next
  case (steps_snoc s es t e u)
  then show ?case using pool_step_safe R_trans by blast
qed

lemma pool_start_safe: "I (contents b) \<Longrightarrow> pool_safe (b, \<lambda>_. None)"
  by (simp add: pool_safe_def)

text \<open>A returned result satisfies its postcondition from then on.\<close>

lemma pool_result:
  assumes "steps (pool_step put_rel get_rel head_rel program B) s es t" "pool_safe s"
    and "snd s i = Some (Return r)"
  shows "Q i r (contents (fst t))"
  using pool_run_safe [OF assms(1,2)] assms(2,3) by (force simp: pool_safe_def)

end

end
