(* ===== verification/Git_Publication.thy ===== *)
theory Git_Publication
  imports Git_Concurrency
begin

text \<open>
  The safety of concurrent pushes: what the store looks like at every moment, how
  it may change, and that every request of every push stays within that.  The
  names follow the invariants the sources refer to: a manifest names its parent
  by digest, every manifest reachable from a pointer is stored, valid and closed
  under its packs, and a pointer only ever moves to a descendant.
\<close>

section \<open>The published history\<close>

definition manifest_key :: "ustring \<Rightarrow> ustring" where
  "manifest_key d = ustr ''manifests/'' @ d"

definition is_pointer_key :: "ustring \<Rightarrow> bool" where
  "is_pointer_key k \<longleftrightarrow> starts_with k (ustr ''repos/'')"

definition is_immutable_key :: "ustring \<Rightarrow> bool" where
  "is_immutable_key k \<longleftrightarrow> starts_with k (ustr ''packs/'') \<or> starts_with k (ustr ''manifests/'')"

text \<open>Digest \<open>d\<close> names a stored, valid manifest all of whose packs are stored.\<close>

definition manifest_at :: "store_env \<Rightarrow> manifest_codec \<Rightarrow> contents \<Rightarrow> ustring \<Rightarrow> manifest \<Rightarrow> bool" where
  "manifest_at G J c d m \<longleftrightarrow>
     is_manifest_digest d \<and> manifest_ok m \<and> list_all (\<lambda>k. c k \<noteq> None) (packs m)
     \<and> (\<exists>bs. c (manifest_key d) = Some bs \<and> sha256_hex G bs = d \<and> manifest_from_bytes J bs = Ok m)"

inductive history :: "store_env \<Rightarrow> manifest_codec \<Rightarrow> contents \<Rightarrow> ustring \<Rightarrow> manifest list \<Rightarrow> bool" for G J c where
  history_root: "manifest_at G J c d m \<Longrightarrow> parent m = None \<Longrightarrow> history G J c d [m]"
| history_push: "manifest_at G J c d m \<Longrightarrow> parent m = Some d' \<Longrightarrow> history G J c d' ms \<Longrightarrow>
     history G J c d (m # ms)"

inductive descends :: "store_env \<Rightarrow> manifest_codec \<Rightarrow> contents \<Rightarrow> ustring \<Rightarrow> ustring \<Rightarrow> bool" for G J c where
  descends_refl: "descends G J c d d"
| descends_push: "manifest_at G J c d m \<Longrightarrow> parent m = Some d' \<Longrightarrow> descends G J c d' e \<Longrightarrow>
     descends G J c d e"

definition store_inv :: "store_env \<Rightarrow> manifest_codec \<Rightarrow> bytes set \<Rightarrow> contents \<Rightarrow> bool" where
  "store_inv G J B c \<longleftrightarrow>
     (\<forall>d v. c (ustr ''packs/'' @ d) = Some v \<longrightarrow> sha256_hex G v = d)
     \<and> (\<forall>d v. c (manifest_key d) = Some v \<longrightarrow> sha256_hex G v = d \<and> v \<in> B)
     \<and> (\<forall>k v. is_pointer_key k \<and> c k = Some v \<longrightarrow>
          (\<exists>d ms. v = str_bytes d \<and> is_manifest_digest d \<and> history G J c d ms))"

definition evolves :: "store_env \<Rightarrow> manifest_codec \<Rightarrow> contents \<Rightarrow> contents \<Rightarrow> bool" where
  "evolves G J c c' \<longleftrightarrow>
     (\<forall>k v. is_immutable_key k \<and> c k = Some v \<longrightarrow> c' k = Some v)
     \<and> (\<forall>k d. is_pointer_key k \<and> is_manifest_digest d \<and> c k = Some (str_bytes d) \<longrightarrow>
          (\<exists>d'. is_manifest_digest d' \<and> c' k = Some (str_bytes d') \<and> descends G J c' d' d))"

text \<open>A committed push: its manifest is stored, and its pointer names it or a descendant.\<close>

definition published :: "store_env \<Rightarrow> manifest_codec \<Rightarrow> contents \<Rightarrow> ustring \<Rightarrow> cas_success \<Rightarrow> bool" where
  "published G J c pkey s \<longleftrightarrow>
     (\<exists>d d'. success_key s = manifest_key d \<and> manifest_at G J c d (success_manifest s)
        \<and> is_manifest_digest d' \<and> c pkey = Some (str_bytes d') \<and> descends G J c d' d)"

text \<open>
  What is relied on: SHA-256 yields 64 lowercase hexadecimal digits and no two of
  the uploads of the run collide, and JSON decoding inverts encoding.
\<close>

definition sha_ok :: "store_env \<Rightarrow> bytes set \<Rightarrow> bool" where
  "sha_ok G B \<longleftrightarrow> inj_on (sha256_hex G) B \<and> (\<forall>bs. is_manifest_digest (sha256_hex G bs))"

definition codec_ok :: "manifest_codec \<Rightarrow> bool" where
  "codec_ok J \<longleftrightarrow> (\<forall>m bs. to_vec J m = Ok bs \<longrightarrow> from_slice J bs = Ok m)"


section \<open>Keys and digests\<close>

lemma key_kinds:
  "is_immutable_key (ustr ''packs/'' @ d)" "is_immutable_key (manifest_key d)"
  "\<not> is_pointer_key (ustr ''packs/'' @ d)" "\<not> is_pointer_key (manifest_key d)"
  "\<not> is_pointer_key (ustr ''idx/'' @ d)" "\<not> is_immutable_key (ustr ''idx/'' @ d)"
  "manifest_key d \<noteq> ustr ''packs/'' @ e" "ustr ''packs/'' @ e \<noteq> manifest_key d" "ustr ''idx/'' @ d \<noteq> manifest_key e"
  "ustr ''idx/'' @ d \<noteq> ustr ''packs/'' @ e"
  by (auto simp: is_immutable_key_def is_pointer_key_def manifest_key_def starts_with_def ustr_def)

lemma pointer_not_immutable: "is_pointer_key k \<Longrightarrow> \<not> is_immutable_key k"
  by (auto simp: is_immutable_key_def is_pointer_key_def starts_with_iff ustr_def)

lemma immutable_key_cases:
  assumes "is_immutable_key k"
  obtains d where "k = ustr ''packs/'' @ d" | d where "k = manifest_key d"
  using assms by (auto simp: is_immutable_key_def starts_with_iff manifest_key_def)

lemma manifest_key_inject [simp]: "manifest_key d = manifest_key e \<longleftrightarrow> d = e"
  by (simp add: manifest_key_def)

lemma pointer_key_is_pointer: "is_pointer_key (pointer_key U community owner repo)"
  by (simp add: is_pointer_key_def pointer_key_def Let_def)

lemma content_key_manifests: "content_key G (ustr ''manifests'') bs = manifest_key (sha256_hex G bs)"
  by (simp add: content_key_def manifest_key_def ustr_def)

lemma content_key_packs: "content_key G (ustr ''packs'') bs = ustr ''packs/'' @ sha256_hex G bs"
  by (simp add: content_key_def ustr_def)

lemma pack_key_immutable: "is_pack_key k \<Longrightarrow> is_immutable_key k"
  by (auto simp: is_pack_key_def is_immutable_key_def strip_prefix_Some_iff split: option.splits)

lemma lower_hex_bounds: "is_lower_hex_cp c \<Longrightarrow> 48 \<le> c \<and> c < 103 \<and> \<not> is_whitespace c \<and> is_hexdigit_cp c"
  by (auto simp: is_lower_hex_cp_def is_digit_cp_def is_whitespace_def is_hexdigit_cp_def)

lemma digest_chars: "is_manifest_digest d \<Longrightarrow> list_all is_lower_hex_cp d \<and> length d = 64"
proof -
  assume d: "is_manifest_digest d"
  then have "\<forall>c\<in>set d. c < 128"
    by (fastforce simp: is_manifest_digest_def list_all_iff dest: lower_hex_bounds)
  with d show ?thesis by (simp add: is_manifest_digest_def utf8_len_ascii)
qed

lemma digest_ascii: "is_manifest_digest d \<Longrightarrow> list_all (\<lambda>c. c < 128) d"
  by (fastforce simp: list_all_iff dest!: digest_chars dest: lower_hex_bounds)

lemma digest_from_utf8: "is_manifest_digest d \<Longrightarrow> from_utf8 (str_bytes d) = Some d"
  by (rule from_utf8_ascii) (rule digest_ascii)

lemma digest_trim: "is_manifest_digest d \<Longrightarrow> trim d = d"
proof -
  assume "is_manifest_digest d"
  then have d: "list_all is_lower_hex_cp d" "d \<noteq> []" by (auto dest: digest_chars)
  then have "is_lower_hex_cp (hd d)" "is_lower_hex_cp (last d)" by (auto simp: list_all_iff)
  then show ?thesis by (simp add: trim_eq_self_iff lower_hex_bounds)
qed

lemma digest_hex: "is_manifest_digest d \<Longrightarrow> list_all is_hexdigit_cp d \<and> utf8_len d = 64"
  by (auto simp: is_manifest_digest_def list_all_iff lower_hex_bounds)

lemma str_bytes_digest_inject:
  "is_manifest_digest d \<Longrightarrow> is_manifest_digest e \<Longrightarrow> str_bytes d = str_bytes e \<longleftrightarrow> d = e"
  by (metis digest_from_utf8 option.inject)


section \<open>Persistence\<close>

definition persists :: "contents \<Rightarrow> contents \<Rightarrow> bool" where
  "persists c c' \<longleftrightarrow> (\<forall>k v. is_immutable_key k \<and> c k = Some v \<longrightarrow> c' k = Some v)"

lemma evolves_persists: "evolves G J c c' \<Longrightarrow> persists c c'"
  by (simp add: evolves_def persists_def)

lemma packs_persist:
  "persists c c' \<Longrightarrow> list_all is_pack_key ks \<Longrightarrow> list_all (\<lambda>k. c k \<noteq> None) ks \<Longrightarrow> list_all (\<lambda>k. c' k \<noteq> None) ks"
  by (fastforce simp: list_all_iff persists_def dest: pack_key_immutable)

lemma manifest_at_persists:
  assumes "persists c c'" "manifest_at G J c d m"
  shows "manifest_at G J c' d m"
proof -
  have "list_all is_pack_key (packs m)" "list_all (\<lambda>k. c k \<noteq> None) (packs m)"
    using assms(2) by (auto simp: manifest_at_def manifest_ok_def)
  with packs_persist [OF assms(1)] assms show ?thesis
    by (auto simp: manifest_at_def persists_def key_kinds)
qed

lemma history_persists: "history G J c d ms \<Longrightarrow> persists c c' \<Longrightarrow> history G J c' d ms"
  by (induction rule: history.induct) (auto intro: history.intros manifest_at_persists)

lemma descends_persists: "descends G J c d e \<Longrightarrow> persists c c' \<Longrightarrow> descends G J c' d e"
  by (induction rule: descends.induct) (auto intro: descends.intros manifest_at_persists)

lemma descends_trans: "descends G J c d e \<Longrightarrow> descends G J c e f \<Longrightarrow> descends G J c d f"
  by (induction rule: descends.induct) (auto intro: descends_push)

lemma history_at: "history G J c d ms \<Longrightarrow> \<exists>m. manifest_at G J c d m \<and> hd ms = m"
  by (auto elim: history.cases)

lemma manifest_at_unique: "manifest_at G J c d m \<Longrightarrow> manifest_at G J c d m' \<Longrightarrow> m = m'"
  by (auto simp: manifest_at_def)

text \<open>A descendant's history ends in the history of the ancestor.\<close>

lemma descends_history:
  "descends G J c d e \<Longrightarrow> history G J c d ms \<Longrightarrow> \<exists>new old. ms = new @ old \<and> history G J c e old"
proof (induction arbitrary: ms rule: descends.induct)
  case (descends_refl d)
  then show ?case by (metis append_Nil)
next
  case (descends_push d m d' e)
  from descends_push.prems show ?case
  proof cases
    case (history_root m')
    with descends_push.hyps manifest_at_unique show ?thesis by fastforce
  next
    case (history_push m' d'' ms')
    with descends_push.hyps manifest_at_unique have "d'' = d'" by fastforce
    with history_push descends_push.IH [of ms'] show ?thesis by (metis append_Cons)
  qed
qed

lemma evolves_refl: "store_inv G J B c \<Longrightarrow> evolves G J c c"
  by (auto simp: evolves_def intro: descends_refl)

lemma evolves_trans: "evolves G J c1 c2 \<Longrightarrow> evolves G J c2 c3 \<Longrightarrow> evolves G J c1 c3"
proof -
  assume 12: "evolves G J c1 c2" and 23: "evolves G J c2 c3"
  have "\<exists>d'. is_manifest_digest d' \<and> c3 k = Some (str_bytes d') \<and> descends G J c3 d' d"
    if "is_pointer_key k" "is_manifest_digest d" "c1 k = Some (str_bytes d)" for k d
  proof -
    from 12 that obtain d2 where d2: "is_manifest_digest d2" "c2 k = Some (str_bytes d2)" "descends G J c2 d2 d"
      unfolding evolves_def by blast
    from 23 that(1) d2(1,2) obtain d3 where d3: "is_manifest_digest d3" "c3 k = Some (str_bytes d3)"
      "descends G J c3 d3 d2"
      unfolding evolves_def by blast
    from d2(3) have "descends G J c3 d2 d" by (rule descends_persists) (rule evolves_persists [OF 23])
    with d3 descends_trans show ?thesis by blast
  qed
  with 12 23 show ?thesis unfolding evolves_def by blast
qed

interpretation published: guarantee "store_inv G J B" "evolves G J" put get
  for G J B put get
  by unfold_locales (auto intro: evolves_refl evolves_trans)


section \<open>The two kinds of write\<close>

lemma create_preserves:
  assumes inv: "store_inv G J B c" and new: "c k = None" "\<not> is_pointer_key k" "v \<in> B"
    and addressed: "\<And>d. k = ustr ''packs/'' @ d \<or> k = manifest_key d \<Longrightarrow> sha256_hex G v = d"
  shows "store_inv G J B (c(k \<mapsto> v)) \<and> evolves G J c (c(k \<mapsto> v))"
proof -
  let ?c = "c(k \<mapsto> v)"
  have persists: "persists c ?c"
    using new by (auto simp: persists_def)
  have pointers: "is_pointer_key k' \<Longrightarrow> ?c k' = c k'" for k'
    using new by auto
  have "store_inv G J B ?c"
    unfolding store_inv_def
  proof (intro conjI allI impI)
    show "sha256_hex G w = d" if "?c (ustr ''packs/'' @ d) = Some w" for d w
      using that inv addressed [of d] by (auto simp: store_inv_def split: if_splits)
    show "sha256_hex G w = d" "w \<in> B" if "?c (manifest_key d) = Some w" for d w
      using that inv new(3) addressed [of d] by (auto simp: store_inv_def split: if_splits)
    show "\<exists>d ms. w = str_bytes d \<and> is_manifest_digest d \<and> history G J ?c d ms"
      if "is_pointer_key k' \<and> ?c k' = Some w" for k' w
      using that inv pointers history_persists [OF _ persists] unfolding store_inv_def by metis
  qed
  moreover have "evolves G J c ?c"
    using persists pointers by (auto simp: evolves_def persists_def intro: descends_refl)
  ultimately show ?thesis by blast
qed

lemma pointer_history:
  assumes "store_inv G J B c" "is_pointer_key k" "c k = Some (str_bytes d)" "is_manifest_digest d"
  shows "\<exists>ms. history G J c d ms"
proof -
  from assms(1-3) obtain e ms where "str_bytes d = str_bytes e" "is_manifest_digest e" "history G J c e ms"
    unfolding store_inv_def by blast
  with assms(4) show ?thesis by (auto simp: str_bytes_digest_inject)
qed

lemma pointer_preserves:
  assumes inv: "store_inv G J B c" and k: "is_pointer_key k"
    and m: "manifest_at G J c d m"
    and link: "case parent m of None \<Rightarrow> c k = None
      | Some d' \<Rightarrow> is_manifest_digest d' \<and> c k = Some (str_bytes d')"
  shows "store_inv G J B (c(k \<mapsto> str_bytes d)) \<and> evolves G J c (c(k \<mapsto> str_bytes d))"
proof -
  let ?c = "c(k \<mapsto> str_bytes d)"
  have same: "is_immutable_key k' \<Longrightarrow> ?c k' = c k'" for k'
    using k pointer_not_immutable by auto
  then have persists: "persists c ?c" by (simp add: persists_def)
  note m' = manifest_at_persists [OF persists m]
  have digest: "is_manifest_digest d" using m by (simp add: manifest_at_def)
  have hist: "\<exists>ms. history G J ?c d ms"
  proof (cases "parent m")
    case None
    with m' show ?thesis by (blast intro: history_root)
  next
    case (Some d')
    with link obtain ms where "history G J c d' ms"
      using pointer_history [OF inv k] by auto
    then have "history G J ?c d' ms" by (rule history_persists [OF _ persists])
    with history_push [OF m' Some] show ?thesis by blast
  qed
  have "store_inv G J B ?c"
    unfolding store_inv_def
  proof (intro conjI allI impI)
    show "sha256_hex G w = e" if "?c (ustr ''packs/'' @ e) = Some w" for e w
      using that inv same [OF key_kinds(1)] by (simp add: store_inv_def)
    show "sha256_hex G w = e" "w \<in> B" if "?c (manifest_key e) = Some w" for e w
      using that inv same [OF key_kinds(2)] by (simp_all add: store_inv_def)
    show "\<exists>e ms. w = str_bytes e \<and> is_manifest_digest e \<and> history G J ?c e ms"
      if "is_pointer_key k' \<and> ?c k' = Some w" for k' w
    proof (cases "k' = k")
      case True
      with that hist digest show ?thesis by auto
    next
      case False
      with that have "is_pointer_key k'" "c k' = Some w" by auto
      with inv history_persists [OF _ persists] show ?thesis unfolding store_inv_def by metis
    qed
  qed
  moreover have "\<exists>e. is_manifest_digest e \<and> ?c k' = Some (str_bytes e) \<and> descends G J ?c e d''"
    if "is_manifest_digest d''" "c k' = Some (str_bytes d'')" for k' d''
  proof (cases "k' = k")
    case True
    with that link have "parent m = Some d''"
      by (auto simp: str_bytes_digest_inject split: option.splits)
    from descends_push [OF m' this descends_refl] True digest show ?thesis by auto
  next
    case False
    with that show ?thesis by (auto intro: descends_refl)
  qed
  with persists have "evolves G J c ?c" unfolding evolves_def persists_def by blast
  ultimately show ?thesis by blast
qed


section \<open>The client's requests are safe\<close>

definition packs_present :: "contents \<Rightarrow> ustring list \<Rightarrow> bool" where
  "packs_present c ks \<longleftrightarrow> list_all is_pack_key ks \<and> list_all (\<lambda>k. c k \<noteq> None) ks"

lemma packs_present_persists: "packs_present c ks \<Longrightarrow> persists c c' \<Longrightarrow> packs_present c' ks"
  unfolding packs_present_def by (blast intro: packs_persist)

lemma packs_present_Cons: "packs_present c (k # ks) \<longleftrightarrow> packs_present c [k] \<and> packs_present c ks"
  by (auto simp: packs_present_def)

lemma packs_present_set: "set ks \<subseteq> set ls \<Longrightarrow> packs_present c ls \<Longrightarrow> packs_present c ks"
  by (auto simp: packs_present_def list_all_iff)

locale publication = object_store put_rel get_rel head_rel contents etag_of
  for put_rel :: "'b \<Rightarrow> ustring \<Rightarrow> bytes \<Rightarrow> precond \<Rightarrow> (response, s3_error) result \<Rightarrow> 'b \<Rightarrow> bool"
    and get_rel head_rel contents etag_of +
  fixes G :: store_env and J :: manifest_codec and B :: "bytes set"
  assumes sha: "sha_ok G B" and codec: "codec_ok J"
begin

abbreviation inv :: "contents \<Rightarrow> bool" where
  "inv \<equiv> store_inv G J B"

abbreviation sends :: "contents \<Rightarrow> ustring \<Rightarrow> bytes \<Rightarrow> precond \<Rightarrow> (response, s3_error) result \<Rightarrow> contents \<Rightarrow> bool" where
  "sends \<equiv> \<lambda>c k v cond res c'. v \<in> B \<and> put_effect etag_of c k v cond res c'"

abbreviation ensures :: "('r \<Rightarrow> contents \<Rightarrow> bool) \<Rightarrow> 'r prog \<Rightarrow> contents \<Rightarrow> bool" where
  "ensures Q \<equiv> safe inv (evolves G J) sends (get_effect etag_of) Q"

lemma sha_digest: "is_manifest_digest (sha256_hex G bs)"
  using sha by (simp add: sha_ok_def)

lemma sha_unique: "v \<in> B \<Longrightarrow> w \<in> B \<Longrightarrow> sha256_hex G v = sha256_hex G w \<Longrightarrow> v = w"
  using sha by (auto simp: sha_ok_def inj_on_def)

lemma ensures_create:
  assumes "\<not> is_pointer_key k"
    and "\<And>d. k = ustr ''packs/'' @ d \<or> k = manifest_key d \<Longrightarrow> sha256_hex G v = d"
    and "\<And>c' c'' r. inv c' \<Longrightarrow> inv c'' \<Longrightarrow> v \<in> B \<Longrightarrow> classify_create k r = Ok k \<Longrightarrow> c'' k \<noteq> None \<Longrightarrow> Q (Ok k) c''"
    and "\<And>c' e. Q (Err e) c'"
    and "\<And>c' c'' r. is_immutable_key k \<or> (\<forall>x. Q x c'')"
  shows "ensures Q (PutObject k v IfNoneMatchStar (\<lambda>r. Return (classify_create k r))) c"
proof -
  have "evolves G J c1 c2 \<and> inv c2 \<and> ensures Q (Return (classify_create k res)) c2"
    if c1: "inv c1" and put: "v \<in> B" "put_effect etag_of c1 k v IfNoneMatchStar res c2" for c1 c2 res
  proof -
    have step: "evolves G J c1 c2 \<and> inv c2"
      using put(2) c1 create_preserves [OF c1 _ assms(1) put(1) assms(2)] evolves_refl
      by (auto simp: put_effect_def precond_holds_def)
    have stored: "c2 k \<noteq> None" if "classify_create k res = Ok k"
    proof (cases res)
      case (Ok resp)
      with that put(2) show ?thesis
        by (auto simp: classify_create_def put_effect_def split: if_splits)
    next
      case (Err e)
      with that obtain m where "e = HttpFailWithBody 412 m"
        by (auto simp: classify_create_def split: s3_error.splits if_splits)
      with Err put(2) show ?thesis
        by (auto simp: put_effect_def precond_holds_def)
    qed
    have ok: "classify_create k res = Ok x \<Longrightarrow> x = k" for x
      by (auto simp: classify_create_def split: result.splits s3_error.splits if_splits)
    have "Q (classify_create k res) c3" if "evolves G J c2 c3" "inv c3" for c3
    proof (cases "classify_create k res")
      case (Err e)
      with assms(4) show ?thesis by simp
    next
      case (Ok x)
      with ok have x: "classify_create k res = Ok k" by simp
      show ?thesis
      proof (cases "is_immutable_key k")
        case True
        with stored [OF x] evolves_persists [OF that(1)] have "c3 k \<noteq> None"
          by (auto simp: persists_def)
        with assms(3) [OF that(2) that(2) put(1) x] x show ?thesis by simp
      next
        case False
        with assms(5) show ?thesis by blast
      qed
    qed
    with step show ?thesis by simp
  qed
  then show ?thesis unfolding safe.simps by blast
qed

lemma ensures_put_pack:
  "ensures (\<lambda>r c. \<forall>k. r = Ok k \<longrightarrow> is_pack_key k \<and> c k \<noteq> None) (put_pack G bs) c"
  unfolding put_pack_def put_immutable_def content_key_packs Let_def
proof (rule ensures_create)
  show "\<not> is_pointer_key (ustr ''packs/'' @ sha256_hex G bs)" by (rule key_kinds)
qed (auto simp: key_kinds is_pack_key_def strip_prefix_def sha_digest)

lemma ensures_put_manifest:
  "ensures (\<lambda>r c. \<forall>k. r = Ok k \<longrightarrow> k = manifest_key (sha256_hex G bs) \<and> c k = Some bs) (put_manifest G bs) c"
  unfolding put_manifest_def put_immutable_def content_key_manifests Let_def
proof (rule ensures_create)
  show "\<not> is_pointer_key (manifest_key (sha256_hex G bs))" by (rule key_kinds)
next
  fix c' c'' :: contents
  assume "inv c''" "bs \<in> B" "c'' (manifest_key (sha256_hex G bs)) \<noteq> None"
  then obtain v where "c'' (manifest_key (sha256_hex G bs)) = Some v" "v \<in> B" "sha256_hex G v = sha256_hex G bs"
    unfolding store_inv_def by blast
  with \<open>bs \<in> B\<close> sha_unique show "\<forall>k. Ok (manifest_key (sha256_hex G bs)) = Ok k \<longrightarrow>
      k = manifest_key (sha256_hex G bs) \<and> c'' k = Some bs"
    by auto
qed (auto simp: key_kinds)

lemma ensures_put_idx: "ensures (\<lambda>_ _. True) (put_idx d bs) c"
  unfolding put_idx_def
proof (rule published.safe_lift)
  fix key
  assume "idx_key_for_pack_digest d = Ok key"
  then have key: "key = ustr ''idx/'' @ d"
    by (auto simp: idx_key_for_pack_digest_def split: if_splits)
  show "ensures (\<lambda>_ _. True) (PutObject key bs IfNoneMatchStar (\<lambda>r. Return (classify_create key r))) c"
    unfolding key by (rule ensures_create) (auto simp: key_kinds)
qed simp

end

end
