(* ===== verification/Git_Commit.thy ===== *)
theory Git_Commit
  imports Git_Publication
begin

text \<open>
  What each step of a push guarantees, whatever other pushes do meanwhile: the
  packs a manifest names are stored before it is written, the manifest before
  its pointer, and a pointer only moves from the state the push was hydrated
  from.
\<close>

declare safe.simps [simp del]

section \<open>Programs that yield a result\<close>

definition yields_ok :: "('a \<Rightarrow> contents \<Rightarrow> bool) \<Rightarrow> ('a, 'e) result \<Rightarrow> contents \<Rightarrow> bool" where
  "yields_ok Q r c \<longleftrightarrow> (\<forall>x. r = Ok x \<longrightarrow> Q x c)"

lemma yields_ok_simps [simp]: "yields_ok Q (Ok x) c \<longleftrightarrow> Q x c" "yields_ok Q (Err e) c"
  by (simp_all add: yields_ok_def)

text \<open>The parent state of a push: its packs are stored, and its tag is the one of the pointer that names it.\<close>

definition parent_ok :: "(bytes \<Rightarrow> ustring) \<Rightarrow> contents \<Rightarrow> parent_state \<Rightarrow> bool" where
  "parent_ok etag_of c ps \<longleftrightarrow>
     packs_present c (packs (parent_manifest ps))
     \<and> (case parent_digest ps of
          None \<Rightarrow> if_match ps = None
        | Some d \<Rightarrow> is_manifest_digest d \<and> if_match ps = Some (etag_of (str_bytes d)))"

text \<open>A manifest ready to commit on top of a parent.\<close>

definition committable :: "contents \<Rightarrow> parent_state \<Rightarrow> manifest \<Rightarrow> bool" where
  "committable c ps m \<longleftrightarrow>
     version m = MANIFEST_VERSION \<and> parent m = parent_digest ps
     \<and> sort_dedup (packs m) = packs m \<and> packs_present c (packs m)"

lemma parent_ok_persists: "parent_ok etag_of c ps \<Longrightarrow> persists c c' \<Longrightarrow> parent_ok etag_of c' ps"
  unfolding parent_ok_def by (blast intro: packs_present_persists)

lemma committable_persists: "committable c ps m \<Longrightarrow> persists c c' \<Longrightarrow> committable c' ps m"
  unfolding committable_def by (blast intro: packs_present_persists)

lemmas packs_present_evolves = packs_present_persists [OF _ evolves_persists]
lemmas parent_ok_evolves = parent_ok_persists [OF _ evolves_persists]
lemmas committable_evolves = committable_persists [OF _ evolves_persists]
lemmas manifest_at_evolves = manifest_at_persists [OF evolves_persists]

text \<open>A digest on the history of a pointer stays there.\<close>

definition reached :: "store_env \<Rightarrow> manifest_codec \<Rightarrow> contents \<Rightarrow> ustring \<Rightarrow> ustring \<Rightarrow> bool" where
  "reached G J c k d \<longleftrightarrow>
     (\<exists>e. is_manifest_digest e \<and> c k = Some (str_bytes e) \<and> descends G J c e d)"

lemma reached_evolves: "reached G J c k d \<Longrightarrow> is_pointer_key k \<Longrightarrow> evolves G J c c' \<Longrightarrow> reached G J c' k d"
proof -
  assume "reached G J c k d" and k: "is_pointer_key k" and ev: "evolves G J c c'"
  then obtain e where e: "is_manifest_digest e" "c k = Some (str_bytes e)" "descends G J c e d"
    unfolding reached_def by blast
  with ev k obtain e' where e': "is_manifest_digest e'" "c' k = Some (str_bytes e')" "descends G J c' e' e"
    unfolding evolves_def by blast
  have "descends G J c' e' d"
    using e'(3) descends_persists [OF e(3) evolves_persists [OF ev]] by (rule descends_trans)
  with e' show ?thesis unfolding reached_def by blast
qed

lemma published_iff:
  "published G J c pkey s \<longleftrightarrow>
   (\<exists>d. success_key s = manifest_key d \<and> manifest_at G J c d (success_manifest s) \<and> reached G J c pkey d)"
  unfolding published_def reached_def by blast

lemma published_evolves: "published G J c pkey s \<Longrightarrow> is_pointer_key pkey \<Longrightarrow> evolves G J c c' \<Longrightarrow> published G J c' pkey s"
  unfolding published_iff using manifest_at_evolves reached_evolves by blast

lemma committable_stored:
  assumes m: "committable c ps m" "manifest_ok m" and codec: "codec_ok J"
    and bytes: "canonical_bytes J m = Ok bs" "c (manifest_key (sha256_hex G bs)) = Some bs"
    and sha: "is_manifest_digest (sha256_hex G bs)"
  shows "manifest_at G J c (sha256_hex G bs) m"
proof -
  have "to_vec J m = Ok bs"
    using m(1) bytes(1) by (simp add: canonical_bytes_def committable_def result_inv)
  with codec m(1) have "manifest_from_bytes J bs = Ok m"
    by (simp add: codec_ok_def manifest_from_bytes_def committable_def)
  with m bytes(2) sha show ?thesis
    by (simp add: manifest_at_def committable_def packs_present_def)
qed

lemma compose_compacted_committable:
  "packs_present c keys \<Longrightarrow> committable c ps (compose_compacted_after (parent_digest ps) h rs keys)"
  using packs_present_set [of "sort_dedup keys" keys c]
  by (simp add: committable_def compose_compacted_after_def)

lemma compose_after_committable:
  assumes "packs_present c (packs (parent_manifest ps))" "\<And>k. new = Some k \<Longrightarrow> packs_present c [k]"
  shows "committable c ps (compose_after (parent_manifest ps) (parent_digest ps) h rs new)"
proof -
  let ?ps = "case new of Some k \<Rightarrow> k # packs (parent_manifest ps) | None \<Rightarrow> packs (parent_manifest ps)"
  have "packs_present c ?ps"
    using assms by (cases new) (simp_all add: packs_present_def)
  then have "packs_present c (sort_dedup xs)" if "set xs \<subseteq> set ?ps" for xs
    using that packs_present_set [of "sort_dedup xs" ?ps c] by simp
  then show ?thesis
    by (auto simp: committable_def compose_after_def Let_def subset_insertI split: option.split)
qed


context publication
begin

abbreviation yields :: "('a \<Rightarrow> contents \<Rightarrow> bool) \<Rightarrow> ('a, 'e) result prog \<Rightarrow> contents \<Rightarrow> bool" where
  "yields Q \<equiv> ensures (yields_ok Q)"

lemma yields_Err: "yields Q (Return (Err e)) c"
  by (simp add: safe.simps)

lemma yields_Ok: "(\<And>c'. evolves G J c c' \<Longrightarrow> inv c' \<Longrightarrow> Q x c') \<Longrightarrow> yields Q (Return (Ok x)) c"
  by (simp add: safe.simps)

lemma yields_try:
  assumes "yields P p c" "inv c"
    and "\<And>x c'. evolves G J c c' \<Longrightarrow> inv c' \<Longrightarrow> P x c' \<Longrightarrow> yields Q (f x) c'"
  shows "yields Q (try_p conv p f) c"
  using assms by (rule published.safe_try) (simp_all add: yields_Err)

lemma yields_lift: "(\<And>x. m = Ok x \<Longrightarrow> yields Q (f x) c) \<Longrightarrow> yields Q (lift_r m f) c"
  by (rule published.safe_lift) (simp_all add: yields_Err)

lemma yields_if: "(\<not> b \<Longrightarrow> yields Q p c) \<Longrightarrow> yields Q (if b then Return (Err e) else p) c"
  by (simp add: yields_Err)

lemma ensures_seq_any:
  "ensures (\<lambda>_ _. True) p c \<Longrightarrow> inv c \<Longrightarrow> (\<And>x c'. evolves G J c c' \<Longrightarrow> inv c' \<Longrightarrow> ensures Q (f x) c') \<Longrightarrow>
   ensures Q (bind_p p f) c"
  by (rule published.safe_seq)

lemma ensures_done: "ensures (\<lambda>_ _. True) (Return x) c"
  by (simp add: safe.simps)

lemma ensures_sidecar: "inv c \<Longrightarrow> ensures (\<lambda>_ _. True) (bind_p (put_idx d bs) (\<lambda>_. Return ())) c"
  by (rule ensures_seq_any [OF ensures_put_idx]) (simp_all add: ensures_done)

lemma ensures_write_idx_sidecar: "inv c \<Longrightarrow> ensures (\<lambda>_ _. True) (write_idx_sidecar E k bs) c"
  unfolding write_idx_sidecar_def
  by (simp add: ensures_sidecar ensures_done split: result.split option.split)

lemma ensures_opt_sidecar: "inv c \<Longrightarrow>
    ensures (\<lambda>_ _. True) (case x of Some idx \<Rightarrow> bind_p (put_idx d idx) (\<lambda>_. Return ()) | None \<Rightarrow> Return ()) c"
  by (simp add: ensures_sidecar ensures_done split: option.split)

lemma yields_put_pack: "yields (\<lambda>k c. packs_present c [k]) (put_pack G bs) c"
  by (rule published.safe_weaken [OF ensures_put_pack]) (auto simp: yields_ok_def packs_present_def)

lemma yields_put_manifest:
  "yields (\<lambda>k c. k = manifest_key (sha256_hex G bs) \<and> c k = Some bs) (put_manifest G bs) c"
  by (rule published.safe_weaken [OF ensures_put_manifest]) (auto simp: yields_ok_def)

lemma yields_upload_packs: "inv c \<Longrightarrow> yields (\<lambda>keys c. packs_present c keys) (upload_packs G ps) c"
proof (induction ps arbitrary: c)
  case Nil
  show ?case unfolding upload_packs.simps by (rule yields_Ok) (simp add: packs_present_def)
next
  case (Cons p ps)
  show ?case unfolding upload_packs.simps
  proof (intro yields_lift yields_if, rule yields_try [OF yields_put_pack Cons.prems], rule yields_lift,
      rule ensures_seq_any [OF ensures_opt_sidecar], assumption, assumption, rule yields_try [OF Cons.IH],
      assumption, assumption, rule yields_Ok)
    fix key keys and c1 c2 c3 c4 :: contents
    assume "packs_present c1 [key]" "evolves G J c1 c2" "evolves G J c2 c3" "packs_present c3 keys"
      "evolves G J c3 c4"
    moreover from this have "packs_present c4 [key]" "packs_present c4 keys"
      using packs_present_persists evolves_persists by blast+
    ultimately show "packs_present c4 (key # keys)" by (simp add: packs_present_def)
  qed
qed

lemma yields_upload_compacted_packs:
  "inv c \<Longrightarrow> yields (\<lambda>keys c. packs_present c keys) (upload_compacted_packs G ps) c"
  unfolding upload_compacted_packs_def
proof (rule yields_try [OF yields_upload_packs], assumption, assumption, rule yields_Ok)
  fix keys c1 c2
  assume "packs_present c1 keys" "evolves G J c1 c2"
  then have "packs_present c2 keys" using packs_present_persists evolves_persists by blast
  then show "packs_present c2 (sort_dedup keys)" by (rule packs_present_set [rotated]) simp
qed

lemma yields_prepare_compaction:
  "inv c \<Longrightarrow> yields (\<lambda>keys c. packs_present c keys) (prepare_compaction G E rs limits n) c"
  unfolding prepare_compaction_def case_prod_beta by (intro yields_lift yields_if yields_upload_compacted_packs)

text \<open>A compaction that times out may have uploaded some packs; it yields nothing.\<close>

lemma yields_attempt_compaction:
  assumes "inv c"
  shows "yields (\<lambda>r c. \<forall>m. r = Some m \<longrightarrow> committable c ps m) (attempt_compaction G E ps limits n h rs) c"
proof -
  let ?Q = "\<lambda>(r :: (ustring list, cas_error) result option) c. case r of None \<Rightarrow> True | Some x \<Rightarrow> yields_ok (\<lambda>keys c. packs_present c keys) x c"
  have run: "ensures ?Q (timeout_p t (prepare_compaction G E rs limits k)) c" for t k
    by (rule published.safe_timeout) (rule yields_prepare_compaction [OF assms])
  have finish: "yields (\<lambda>r c. \<forall>m. r = Some m \<longrightarrow> committable c ps m) (Return (case r of
          None \<Rightarrow> Err (PackCapture ''pack compaction operation timed out after 600 seconds'')
        | Some (Err e) \<Rightarrow> Err e
        | Some (Ok keys) \<Rightarrow> Ok (Some (compose_compacted_after (parent_digest ps) h rs keys)))) c1"
    if r: "?Q r c1" for r c1
  proof (cases "\<exists>keys. r = Some (Ok keys)")
    case True
    then obtain keys where keys: "r = Some (Ok keys)" by blast
    with r have "packs_present c1 keys" by simp
    then have "packs_present c2 keys" if "evolves G J c1 c2" for c2
      using packs_present_persists evolves_persists [OF that] by blast
    then show ?thesis
      unfolding keys option.case result.case
      by (intro yields_Ok) (simp add: compose_compacted_committable)
  next
    case False
    then show ?thesis by (simp add: yields_Err split: option.split result.split)
  qed
  show ?thesis
  proof (cases "should_compact (length (packs (parent_manifest ps))) n")
    case True
    show ?thesis
      unfolding attempt_compaction_def Let_def
      by (simp only: True not_True_eq_False if_False) (intro yields_lift published.safe_seq [OF run assms] finish)
  next
    case False
    then show ?thesis unfolding attempt_compaction_def Let_def by (simp add: yields_Ok)
  qed
qed

lemma yields_delta_manifest:
  assumes "inv c" "parent_ok etag_of c ps"
  shows "yields (\<lambda>m c. committable c ps m) (delta_manifest G E ps limits failure h rs) c"
proof -
  have finish: "yields (\<lambda>m c. committable c ps m)
      (Return (Ok (compose_after (parent_manifest ps) (parent_digest ps) h rs new))) c1"
    if "parent_ok etag_of c1 ps" "\<And>k. new = Some k \<Longrightarrow> packs_present c1 [k]" for new c1
  proof (rule yields_Ok)
    fix c2
    assume ev: "evolves G J c1 c2"
    show "committable c2 ps (compose_after (parent_manifest ps) (parent_digest ps) h rs new)"
    proof (rule compose_after_committable)
      show "packs_present c2 (packs (parent_manifest ps))"
        using parent_ok_evolves [OF that(1) ev] by (simp add: parent_ok_def)
      show "packs_present c2 [k]" if "new = Some k" for k
        using \<open>\<And>k. new = Some k \<Longrightarrow> packs_present c1 [k]\<close> [OF that] ev by (rule packs_present_evolves)
    qed
  qed
  have upload: "yields (\<lambda>m c. committable c ps m) (try_p CasBackend (put_pack G bs) (\<lambda>k.
      bind_p (write_idx_sidecar E k bs) (\<lambda>_.
        Return (Ok (compose_after (parent_manifest ps) (parent_digest ps) h rs (Some k)))))) c" for bs
  proof (rule yields_try [OF yields_put_pack assms(1)],
      rule ensures_seq_any [OF ensures_write_idx_sidecar], assumption, assumption, rule finish)
    fix k and c1 c2 :: contents
    assume ev: "evolves G J c c1" "evolves G J c1 c2" and k: "packs_present c1 [k]"
    show "parent_ok etag_of c2 ps"
      by (rule parent_ok_evolves [OF parent_ok_evolves [OF assms(2) ev(1)] ev(2)])
    show "packs_present c2 [k']" if "Some k = Some k'" for k'
      using packs_present_evolves [OF k ev(2)] that by simp
  qed
  show ?thesis
    unfolding delta_manifest_def Let_def
  proof (intro yields_lift yields_if)
    fix pack_bytes
    show "yields (\<lambda>m c. committable c ps m) (case pack_bytes of
        None \<Rightarrow> Return (Ok (compose_after (parent_manifest ps) (parent_digest ps) h rs None))
      | Some bs \<Rightarrow>
          lift_r (ok_or (ResourceLimit ''repo byte count overflowed u64'')
              (checked_add (parent_hydrated_bytes limits) (len_u64 (length bs)))) (\<lambda>total_bytes.
            if max_repo_bytes limits < total_bytes then
              Return (Err (ResourceLimit (''repo would need '' @ show_nat (unat total_bytes)
                @ '' hydrated bytes (max '' @ show_nat (unat (max_repo_bytes limits)) @ '')'')))
            else try_p CasBackend (put_pack G bs) (\<lambda>pack_key.
              bind_p (write_idx_sidecar E pack_key bs) (\<lambda>_.
                Return (Ok (compose_after (parent_manifest ps) (parent_digest ps) h rs (Some pack_key))))))) c"
    proof (cases pack_bytes)
      case None
      then show ?thesis using finish [OF assms(2), of None] by simp
    next
      case (Some bs)
      show ?thesis unfolding Some option.case by (intro yields_lift yields_if upload)
    qed
  qed
qed


text \<open>Reads: a pointer names a stored manifest, and a verified object is the stored one.\<close>

definition pointer_read :: "ustring \<Rightarrow> contents \<Rightarrow> ustring \<Rightarrow> bytes \<Rightarrow> bool" where
  "pointer_read k c etag body \<longleftrightarrow>
     (\<exists>d m. body = str_bytes d \<and> etag = etag_of body \<and> manifest_at G J c d m \<and> reached G J c k d)"

lemma pointer_read_evolves:
  "pointer_read k c etag body \<Longrightarrow> is_pointer_key k \<Longrightarrow> evolves G J c c' \<Longrightarrow> pointer_read k c' etag body"
  unfolding pointer_read_def using manifest_at_evolves reached_evolves by blast

lemma ensures_get:
  "(\<And>c' res. evolves G J c c' \<Longrightarrow> inv c' \<Longrightarrow> get_effect etag_of c' k res \<Longrightarrow> ensures Q (f res) c') \<Longrightarrow>
   ensures Q (GetObject k f) c"
  by (simp add: safe.simps)

lemma ensures_head: "(\<And>c' res. evolves G J c c' \<Longrightarrow> inv c' \<Longrightarrow> ensures Q (f res) c') \<Longrightarrow> ensures Q (HeadObject k f) c"
  by (simp add: safe.simps)

lemma yields_get_pointer:
  assumes "is_pointer_key k"
  shows "yields (\<lambda>r c. \<forall>etag body. r = Some (etag, body) \<longrightarrow> pointer_read k c etag body) (get_pointer k) c"
  unfolding get_pointer_def
proof (rule ensures_get)
  fix c1 res
  assume c1: "inv c1" and got: "get_effect etag_of c1 k res"
  let ?r = "case res of
      Ok resp \<Rightarrow> (case etag_header resp of
          Some etag \<Rightarrow> Ok (Some (etag, resp_body resp))
        | None \<Rightarrow> Err (Backend (HttpFailWithBody 500 ''GET pointer: response missing ETag'')))
    | Err (HttpFailWithBody code message) \<Rightarrow>
        if code = 404 then Ok None else Err (Backend (HttpFailWithBody code message))
    | Err e \<Rightarrow> Err (Backend e)"
  have read: "pointer_read k c1 etag body" if "?r = Ok (Some (etag, body))" for etag body
  proof -
    from that got have "c1 k = Some body" "etag = etag_of body"
      by (auto simp: get_effect_def split: result.splits s3_error.splits if_splits option.splits)
    with c1 assms obtain d ms where "body = str_bytes d" "is_manifest_digest d" "history G J c1 d ms" "c1 k = Some (str_bytes d)"
      unfolding store_inv_def by blast
    with \<open>etag = etag_of body\<close> history_at descends_refl show ?thesis
      unfolding pointer_read_def reached_def by blast
  qed
  show "yields (\<lambda>r c. \<forall>etag body. r = Some (etag, body) \<longrightarrow> pointer_read k c etag body) (Return ?r) c1"
  proof (cases ?r)
    case (Ok x)
    have "pointer_read k c2 etag body" if "x = Some (etag, body)" "evolves G J c1 c2" for etag body c2
      using read pointer_read_evolves [OF _ assms] that Ok by blast
    then show ?thesis unfolding Ok by (intro yields_Ok) blast
  next
    case (Err e)
    then show ?thesis by (simp only: yields_Err)
  qed
qed

lemma yields_store_get:
  assumes "is_immutable_key k"
  shows "yields (\<lambda>bs c. c k = Some bs) (store_get k) c"
  unfolding store_get_def
proof (rule ensures_get)
  fix c1 res
  assume "get_effect etag_of c1 k res"
  then have "res = Ok resp \<Longrightarrow> c1 k = Some (resp_body resp)" for resp by (simp add: get_effect_def)
  then have "res = Ok resp \<Longrightarrow> evolves G J c1 c2 \<Longrightarrow> c2 k = Some (resp_body resp)" for resp c2
    using assms evolves_persists by (auto simp: persists_def)
  then show "yields (\<lambda>bs c. c k = Some bs)
      (Return (case res of Ok resp \<Rightarrow> Ok (resp_body resp) | Err e \<Rightarrow> Err (not_found_or k e))) c1"
    by (cases res) (auto intro: yields_Ok yields_Err)
qed

lemma yields_verified:
  assumes "is_immutable_key k" "c k = Some bs"
  shows "yields (\<lambda>bs c. c k = Some bs \<and> sha256_hex G bs = d) (Return (verify_digest G k d bs)) c"
proof -
  have "c2 k = Some bs" if "evolves G J c c2" for c2
    using assms evolves_persists [OF that] by (simp add: persists_def)
  then show ?thesis
    by (auto simp: verify_digest_def Let_def intro: yields_Ok yields_Err)
qed

lemma yields_get_verified:
  "inv c \<Longrightarrow> is_immutable_key k \<Longrightarrow>
   yields (\<lambda>bs c. c k = Some bs \<and> sha256_hex G bs = d) (get_verified G k d) c"
  unfolding get_verified_def by (rule yields_try [OF yields_store_get]) (auto intro: yields_verified)

lemma yields_get_limited:
  assumes "inv c" "is_immutable_key k"
  shows "yields (\<lambda>bs c. c k = Some bs) (get_limited k n) c"
proof -
  have get: "yields (\<lambda>bs c. c k = Some bs) (try_p id (store_get k) (\<lambda>bs.
      if unat n < length bs then Return (Err (ObjectTooLarge k (length bs) n)) else Return (Ok bs))) c1"
    if "inv c1" for c1
  proof (rule yields_try [OF yields_store_get [OF assms(2)] that], rule yields_if, rule yields_Ok)
    fix bs c2 c3
    assume "c2 k = Some bs" "evolves G J c2 c3"
    with assms(2) show "c3 k = Some bs" using evolves_persists by (auto simp: persists_def)
  qed
  show ?thesis
    unfolding get_limited_def Let_def
    by (rule ensures_head) (auto simp: get yields_Err split: result.split option.split)
qed

lemma yields_get_verified_limited:
  "inv c \<Longrightarrow> is_immutable_key k \<Longrightarrow>
   yields (\<lambda>bs c. c k = Some bs \<and> sha256_hex G bs = d) (get_verified_limited G k d n) c"
  unfolding get_verified_limited_def by (rule yields_try [OF yields_get_limited]) (auto intro: yields_verified)


section \<open>Loading the parent\<close>

lemma yields_load_pointer:
  assumes "inv c"
  shows "yields (\<lambda>r c. \<forall>etag d m. r = Some (etag, d, m) \<longrightarrow>
      etag = etag_of (str_bytes d) \<and> manifest_at G J c d m \<and> reached G J c (pointer_key U community owner repo) d)
    (load_pointer U G J community owner repo) c" (is "yields ?Q _ c")
  unfolding load_pointer_def
proof (rule yields_try [OF yields_get_pointer [OF pointer_key_is_pointer] assms])
  fix found c1
  assume c1: "inv c1" and found: "\<forall>etag body. found = Some (etag, body) \<longrightarrow> pointer_read (pointer_key U community owner repo) c1 etag body"
  show "yields ?Q (case found of
         None \<Rightarrow> Return (Ok None)
       | Some (etag, pointer_bytes) \<Rightarrow>
           (case from_utf8 pointer_bytes of
              None \<Rightarrow> Return (Err InvalidPointer)
            | Some text \<Rightarrow>
                (let digest = trim text in
                 if utf8_len digest \<noteq> 64 \<or> \<not> list_all is_hexdigit_cp digest then Return (Err InvalidPointer)
                 else
                   try_p hydrate_store_error
                     (get_verified_limited G (ustr ''manifests/'' @ digest) digest MAX_MANIFEST_BYTES)
                     (\<lambda>bs. Return
                       (bind_r (map_err HydrateManifest (manifest_from_bytes J bs)) (\<lambda>m.
                        then_r (map_err HydrateManifest (manifest_validate m))
                          (Ok (Some (etag, digest, m))))))))) c1"
  proof (cases found)
    case None
    then show ?thesis by (simp add: yields_Ok)
  next
    case (Some e)
    then obtain etag d m where e: "found = Some (etag, str_bytes d)" "etag = etag_of (str_bytes d)"
      and m: "manifest_at G J c1 d m" and r: "reached G J c1 (pointer_key U community owner repo) d"
      using found unfolding pointer_read_def by (cases e) blast
    have d: "from_utf8 (str_bytes d) = Some d" "trim d = d" "utf8_len d = 64" "list_all is_hexdigit_cp d"
      using m by (simp_all add: manifest_at_def digest_from_utf8 digest_trim digest_hex)
    have "yields ?Q (try_p hydrate_store_error (get_verified_limited G (manifest_key d) d MAX_MANIFEST_BYTES)
        (\<lambda>bs. Return (bind_r (map_err HydrateManifest (manifest_from_bytes J bs)) (\<lambda>m.
           then_r (map_err HydrateManifest (manifest_validate m)) (Ok (Some (etag, d, m))))))) c1"
    proof (rule yields_try [OF yields_get_verified_limited [OF c1 key_kinds(2)]])
      fix bs c2
      assume c2: "evolves G J c1 c2" and bs: "c2 (manifest_key d) = Some bs \<and> sha256_hex G bs = d"
      then have m2: "manifest_at G J c2 d m" using m manifest_at_evolves by blast
      with bs have "manifest_from_bytes J bs = Ok m" "manifest_validate m = Ok ()"
        by (auto simp: manifest_at_def manifest_validate_Ok)
      with m2 e(2) manifest_at_evolves reached_evolves [OF r pointer_key_is_pointer c2]
        reached_evolves [OF _ pointer_key_is_pointer]
      show "yields ?Q
          (Return (bind_r (map_err HydrateManifest (manifest_from_bytes J bs)) (\<lambda>m.
           then_r (map_err HydrateManifest (manifest_validate m)) (Ok (Some (etag, d, m)))))) c2"
        by (auto intro!: yields_Ok)
    qed (rule c1)
    with e(1) d show ?thesis by (simp add: manifest_key_def)
  qed
qed

lemma parent_ok_loaded:
  "manifest_at G J c d m \<Longrightarrow> parent_ok etag_of c (parent_state_from_loaded (etag_of (str_bytes d)) d m)"
  by (simp add: parent_ok_def parent_state_from_loaded_def manifest_at_def manifest_ok_def packs_present_def)

lemma parent_ok_fresh: "parent_ok etag_of c parent_state_fresh"
  by (simp add: parent_ok_def parent_state_fresh_def packs_present_def)

lemma yields_hydrate_for_write:
  assumes "inv c"
  shows "yields (\<lambda>r c. parent_ok etag_of c (snd r)) (hydrate_for_write U G J H limits community owner repo) c"
  unfolding hydrate_for_write_def
proof (rule yields_try [OF yields_load_pointer [OF assms] assms])
  fix found c1
  assume found: "\<forall>etag d m. found = Some (etag, d, m) \<longrightarrow>
      etag = etag_of (str_bytes d) \<and> manifest_at G J c1 d m \<and> reached G J c1 (pointer_key U community owner repo) d"
  show "yields (\<lambda>r c. parent_ok etag_of c (snd r)) (case found of
         Some (etag, digest, m) \<Rightarrow>
           lift_r (materialize_manifest H limits m) (\<lambda>used.
             Return (Ok (used, parent_state_from_loaded etag digest m)))
       | None \<Rightarrow> lift_r (local H) (\<lambda>_. Return (Ok (0, parent_state_fresh)))) c1"
  proof (cases found)
    case None
    then show ?thesis by (auto intro!: yields_lift yields_Ok simp: parent_ok_fresh)
  next
    case (Some e)
    obtain etag d m where e: "e = (etag, d, m)" by (cases e)
    with found Some have "etag = etag_of (str_bytes d)" "manifest_at G J c1 d m" by blast+
    then have "parent_ok etag_of c2 (parent_state_from_loaded etag d m)" if "evolves G J c1 c2" for c2
      using that manifest_at_evolves parent_ok_loaded by blast
    then show ?thesis unfolding Some e by (auto intro!: yields_lift yields_Ok)
  qed
qed


section \<open>The commit\<close>

lemma yields_put_pointer:
  assumes k: "is_pointer_key k" and m: "manifest_at G J c d m"
    and cond: "case parent m of None \<Rightarrow> cond = IfNoneMatchStar
      | Some e \<Rightarrow> is_manifest_digest e \<and> cond = IfMatch (etag_of (str_bytes e))"
  shows "yields (\<lambda>r c. \<forall>t. r = Won t \<longrightarrow> (\<exists>e. is_manifest_digest e \<and> c k = Some (str_bytes e) \<and> descends G J c e d))
     (put_pointer G k (str_bytes d) cond) c" (is "yields ?Q _ c")
proof -
  have "evolves G J c1 c2 \<and> inv c2 \<and> yields ?Q (Return (classify_cas res)) c2"
    if c1: "evolves G J c c1" "inv c1" and put: "put_effect etag_of c1 k (str_bytes d) cond res c2" for c1 c2 res
  proof -
    have m1: "manifest_at G J c1 d m" using m c1(1) manifest_at_evolves by blast
    have link: "case parent m of None \<Rightarrow> c1 k = None
        | Some e \<Rightarrow> is_manifest_digest e \<and> c1 k = Some (str_bytes e)"
      if "precond_holds etag_of cond (c1 k)"
    proof (cases "parent m")
      case None
      with cond that show ?thesis by (simp add: precond_holds_def)
    next
      case (Some e)
      with cond that show ?thesis by (simp add: precond_IfMatch)
    qed
    have step: "evolves G J c1 c2 \<and> inv c2"
      using put evolves_refl [OF c1(2)] c1(2) pointer_preserves [OF c1(2) k m1 link]
      by (auto simp: put_effect_def)
    have digest: "is_manifest_digest d" using m by (simp add: manifest_at_def)
    have won: "c2 k = Some (str_bytes d)" if "classify_cas res = Ok (Won t)" for t
    proof (cases res)
      case (Ok resp)
      with that put show ?thesis
        by (auto simp: classify_cas_def put_effect_def split: if_splits)
    next
      case (Err e)
      with that show ?thesis by (auto simp: classify_cas_def split: s3_error.splits if_splits)
    qed
    have "yields ?Q (Return (classify_cas res)) c2"
    proof (cases "classify_cas res")
      case (Ok x)
      show ?thesis unfolding Ok
      proof (rule yields_Ok, intro allI impI)
        fix c3 t
        assume "evolves G J c2 c3" and "x = Won t"
        with won Ok have "c2 k = Some (str_bytes d)" by simp
        with \<open>evolves G J c2 c3\<close> k digest
        show "\<exists>e. is_manifest_digest e \<and> c3 k = Some (str_bytes e) \<and> descends G J c3 e d"
          unfolding evolves_def by blast
      qed
    next
      case (Err e)
      then show ?thesis by (simp add: yields_Err)
    qed
    with step show ?thesis by blast
  qed
  then have "yields ?Q (PutObject k (str_bytes d) cond (\<lambda>r. Return (classify_cas r))) c"
    unfolding safe.simps by blast
  then show ?thesis
    unfolding put_pointer_def Let_def by (auto simp: yields_Err split: precond.split)
qed


lemma ensures_read_winner:
  assumes "inv c" "is_pointer_key k"
  shows "yields (\<lambda>_ _. True) (read_winner_after_conflict G J k) c"
proof -
  have get: "yields (\<lambda>_ _. True) (try_p conv (get_verified G (ustr ''manifests/'' @ d) d) (\<lambda>bs. Return (f bs))) c1"
    if "inv c1" for c1 d conv f
  proof (rule yields_try [OF yields_get_verified [OF that] that])
    show "is_immutable_key (ustr ''manifests/'' @ d)" using key_kinds(2) [of d] by (simp add: manifest_key_def)
    show "yields (\<lambda>_ _. True) (Return (f bs)) c2" for bs c2
      by (cases "f bs") (simp_all add: yields_Ok yields_Err)
  qed
  show ?thesis
    unfolding read_winner_after_conflict_def Let_def
    by (rule yields_try [OF yields_get_pointer [OF assms(2)] assms(1)])
      (auto simp: yields_Err get split: option.split)
qed

text \<open>A committed push: its manifest is on top of the parent, stored, and on the pointer's history.\<close>

definition committed :: "ustring \<Rightarrow> parent_state \<Rightarrow> cas_success \<Rightarrow> contents \<Rightarrow> bool" where
  "committed pkey ps s c \<longleftrightarrow> published G J c pkey s \<and> parent (success_manifest s) = parent_digest ps"

lemma parent_precond:
  assumes "parent_ok etag_of c ps" "parent m = parent_digest ps"
  shows "case parent m of
      None \<Rightarrow> (case if_match ps of Some e \<Rightarrow> IfMatch e | None \<Rightarrow> IfNoneMatchStar) = IfNoneMatchStar
    | Some e \<Rightarrow> is_manifest_digest e
        \<and> (case if_match ps of Some e \<Rightarrow> IfMatch e | None \<Rightarrow> IfNoneMatchStar) = IfMatch (etag_of (str_bytes e))"
  using assms by (auto simp: parent_ok_def split: option.splits)

lemma digest_from_manifest_key_Ok: "digest_from_manifest_key (manifest_key d) = Ok d"
  by (simp add: digest_from_manifest_key_def manifest_key_def strip_prefix_def starts_with_def)

lemma yields_commit_manifest:
  assumes c: "inv c" and k: "is_pointer_key pkey" and ps: "parent_ok etag_of c ps" and m: "committable c ps m"
  shows "yields (committed pkey ps) (commit_manifest G J pkey ps m) c"
  unfolding commit_manifest_def Let_def
proof (rule yields_lift, rule yields_lift, rule yields_try [OF yields_put_manifest c], elim conjE, hypsubst,
    simp only: digest_from_manifest_key_Ok lift_r_def result.case)
  fix u bs and c1 :: contents
  assume valid: "map_err ManifestInvalid (manifest_validate m) = Ok u"
    and bytes: "map_err ManifestInvalid (canonical_bytes J m) = Ok bs"
    and c1: "evolves G J c c1" "inv c1" and stored: "c1 (manifest_key (sha256_hex G bs)) = Some bs"
  let ?d = "sha256_hex G bs"
  let ?cond = "case if_match ps of Some e \<Rightarrow> IfMatch e | None \<Rightarrow> IfNoneMatchStar"
  have parent: "parent m = parent_digest ps" using m by (simp add: committable_def)
  have at1: "manifest_at G J c1 ?d m"
    using committable_evolves [OF m c1(1)] valid bytes codec stored sha_digest
    by (intro committable_stored) (simp_all add: result_inv manifest_validate_Ok)
  show "yields (committed pkey ps) (try_p CasBackend (put_pointer G pkey (str_bytes ?d) ?cond) (\<lambda>outcome.
       case outcome of
         Won _ \<Rightarrow> Return (Ok \<lparr>success_manifest = m, success_key = manifest_key ?d\<rparr>)
       | LostRace \<Rightarrow> try_p id (read_winner_after_conflict G J pkey)
           (\<lambda>(winner, winner_key). Return (Err (Conflict winner winner_key))))) c1"
  proof (rule yields_try [OF yields_put_pointer [OF k at1 parent_precond [OF parent_ok_evolves [OF ps c1(1)] parent]] c1(2)])
    fix outcome c2
    assume c2: "evolves G J c1 c2" "inv c2"
      and won: "\<forall>t. outcome = Won t \<longrightarrow> (\<exists>e. is_manifest_digest e \<and> c2 pkey = Some (str_bytes e) \<and> descends G J c2 e ?d)"
    show "yields (committed pkey ps) (case outcome of
         Won _ \<Rightarrow> Return (Ok \<lparr>success_manifest = m, success_key = manifest_key ?d\<rparr>)
       | LostRace \<Rightarrow> try_p id (read_winner_after_conflict G J pkey)
           (\<lambda>(winner, winner_key). Return (Err (Conflict winner winner_key)))) c2"
    proof (cases outcome)
      case (Won t)
      with won manifest_at_evolves [OF c2(1) at1]
      have "published G J c2 pkey \<lparr>success_manifest = m, success_key = manifest_key ?d\<rparr>"
        unfolding published_def by auto
      then show ?thesis
        unfolding Won cas_outcome.case committed_def
        by (intro yields_Ok) (auto simp: parent intro: published_evolves [OF _ k])
    next
      case LostRace
      show ?thesis
        unfolding LostRace cas_outcome.case
        by (rule yields_try [OF ensures_read_winner [OF c2(2) k] c2(2)]) (auto simp: yields_Err)
    qed
  qed
qed

lemma yields_cas_publish_inner:
  assumes c: "inv c" and k: "is_pointer_key pkey" and ps: "parent_ok etag_of c ps"
  shows "yields (committed pkey ps) (cas_publish_inner G J E pkey ps limits n) c"
  unfolding cas_publish_inner_def case_prod_beta Let_def
proof (rule yields_lift, rule published.safe_seq [OF yields_attempt_compaction [OF c] c])
  fix snap and attempt :: "(manifest option, cas_error) result" and c1 :: contents
  let ?h = "resolve_published_head (fst snap) (snd snap) (head (parent_manifest ps))"
  assume c1: "evolves G J c c1" "inv c1"
    and attempt: "yields_ok (\<lambda>r c. \<forall>m. r = Some m \<longrightarrow> committable c ps m) attempt c1"
  note ps1 = parent_ok_evolves [OF ps c1(1)]
  have delta: "yields (committed pkey ps)
      (try_p id (delta_manifest G E ps limits f ?h (fst snap)) (commit_manifest G J pkey ps)) c1" for f
    by (rule yields_try [OF yields_delta_manifest [OF c1(2) ps1] c1(2)])
      (rule yields_commit_manifest [OF _ k parent_ok_evolves [OF ps1]])
  show "yields (committed pkey ps) (case attempt of
           Ok None \<Rightarrow> try_p id (delta_manifest G E ps limits None ?h (fst snap)) (commit_manifest G J pkey ps)
         | Ok (Some m_after) \<Rightarrow> commit_manifest G J pkey ps m_after
         | Err e \<Rightarrow> try_p id (delta_manifest G E ps limits (Some e) ?h (fst snap)) (commit_manifest G J pkey ps)) c1"
  proof (cases "\<exists>m. attempt = Ok (Some m)")
    case True
    then obtain m where "attempt = Ok (Some m)" by blast
    with attempt yields_commit_manifest [OF c1(2) k ps1] show ?thesis by simp
  next
    case False
    then show ?thesis by (auto simp: delta split: result.split option.split)
  qed
qed

end

end
