(* ===== verification/Git_Announce.thy ===== *)
theory Git_Announce
  imports Git_Commit
begin

text \<open>
  The pointer of an announced repository, from
  \<open>buzz-relay/src/handlers/side_effects.rs\<close>: an announcement that reserved the name
  creates the pointer with an empty manifest, and a repeated announcement makes
  sure that there is one.  Both succeed only when the repository has a pointer,
  which it keeps.  The reservation of the name in the database is outside the
  model.
\<close>

section \<open>Seeding the pointer\<close>

definition DEFAULT_HEAD :: ustring where "DEFAULT_HEAD = ustr ''refs/heads/main''"

datatype seed_error =
    SeedValidation manifest_error
  | SeedSerialize manifest_error
  | SeedPutManifest store_error
  | SeedNonStandardKey ustring
  | SeedPutPointer store_error
  | SeedReread store_error
  | SeedVanished
  | SeedNotUtf8
  | SeedNonEmpty ustring
  | SeedGetPointer store_error

definition empty_manifest :: manifest where
  "empty_manifest = \<lparr>version = MANIFEST_VERSION, head = DEFAULT_HEAD, refs = [], packs = [], parent = None\<rparr>"

definition seed_lost_race :: "ustring \<Rightarrow> (ustring \<times> bytes) option \<Rightarrow> (unit, seed_error) result" where
  "seed_lost_race digest found =
     bind_r (ok_or SeedVanished found) (\<lambda>(_, body).
     bind_r (ok_or SeedNotUtf8 (from_utf8 body)) (\<lambda>text.
       let existing = trim text in
       if existing \<noteq> digest then Err (SeedNonEmpty existing) else Ok ()))"

definition seed_manifest_pointer ::
  "uuid_api \<Rightarrow> store_env \<Rightarrow> manifest_codec \<Rightarrow> uuid \<Rightarrow> ustring \<Rightarrow> ustring \<Rightarrow> (unit, seed_error) result prog" where
  "seed_manifest_pointer U G J community owner_hex repo_id =
     lift_r (map_err SeedValidation (manifest_validate empty_manifest)) (\<lambda>_.
     lift_r (map_err SeedSerialize (canonical_bytes J empty_manifest)) (\<lambda>bs.
     try_p SeedPutManifest (put_manifest G bs) (\<lambda>mkey.
     lift_r (ok_or (SeedNonStandardKey mkey) (strip_prefix mkey (ustr ''manifests/''))) (\<lambda>digest.
     let pkey = pointer_key U community owner_hex repo_id in
     try_p SeedPutPointer (put_pointer G pkey (str_bytes digest) IfNoneMatchStar) (\<lambda>outcome.
       case outcome of
         Won _ \<Rightarrow> Return (Ok ())
       | LostRace \<Rightarrow>
           try_p SeedReread (get_pointer pkey) (\<lambda>found. Return (seed_lost_race digest found)))))))"

definition ensure_manifest_pointer ::
  "uuid_api \<Rightarrow> store_env \<Rightarrow> manifest_codec \<Rightarrow> uuid \<Rightarrow> ustring \<Rightarrow> ustring \<Rightarrow> (unit, seed_error) result prog" where
  "ensure_manifest_pointer U G J community owner_hex repo_id =
     try_p SeedGetPointer (get_pointer (pointer_key U community owner_hex repo_id)) (\<lambda>existing.
       case existing of
         Some _ \<Rightarrow> Return (Ok ())
       | None \<Rightarrow> seed_manifest_pointer U G J community owner_hex repo_id)"

text \<open>An announcement; \<open>reserved_by_this_attempt\<close> is the outcome of the reservation.\<close>

record announce_request =
  announce_community :: uuid
  announce_owner :: ustring
  announce_repo :: ustring
  reserved_by_this_attempt :: bool

definition announce_pointer ::
  "uuid_api \<Rightarrow> store_env \<Rightarrow> manifest_codec \<Rightarrow> announce_request \<Rightarrow> (unit, seed_error) result prog" where
  "announce_pointer U G J req =
     (if reserved_by_this_attempt req
      then seed_manifest_pointer U G J (announce_community req) (announce_owner req) (announce_repo req)
      else ensure_manifest_pointer U G J (announce_community req) (announce_owner req) (announce_repo req))"


section \<open>An announced repository has a pointer\<close>

definition pointer_set :: "ustring \<Rightarrow> contents \<Rightarrow> bool" where
  "pointer_set k c \<longleftrightarrow> (\<exists>d. is_manifest_digest d \<and> c k = Some (str_bytes d))"

lemma pointer_set_evolves: "pointer_set k c \<Longrightarrow> is_pointer_key k \<Longrightarrow> evolves G J c c' \<Longrightarrow> pointer_set k c'"
  unfolding pointer_set_def evolves_def by blast

lemma seed_key_digest: "strip_prefix (manifest_key d) (ustr ''manifests/'') = Some d"
  by (simp add: manifest_key_def strip_prefix_def starts_with_def)

text \<open>A create that lost against a push of another manifest is an error, also for a repeated announcement.\<close>

lemma seed_lost_to_push:
  "is_manifest_digest e \<Longrightarrow> e \<noteq> d \<Longrightarrow> seed_lost_race d (Some (etag, str_bytes e)) = Err (SeedNonEmpty e)"
  by (simp add: seed_lost_race_def digest_from_utf8 digest_trim)

context publication
begin

lemma yields_pointer_set:
  "pointer_set k c \<Longrightarrow> is_pointer_key k \<Longrightarrow> yields (\<lambda>_. pointer_set k) (Return (Ok x)) c"
  by (intro yields_Ok) (blast intro: pointer_set_evolves)

lemma pointer_read_set: "pointer_read k c etag body \<Longrightarrow> pointer_set k c"
  unfolding pointer_read_def reached_def pointer_set_def by blast

lemma yields_seed_lost_race:
  assumes "inv c" "is_pointer_key k"
  shows "yields (\<lambda>_. pointer_set k) (try_p conv (get_pointer k) (\<lambda>found. Return (seed_lost_race d found))) c"
proof (rule yields_try [OF yields_get_pointer [OF assms(2)] assms(1)])
  fix found and c1 :: contents
  assume read: "\<forall>etag body. found = Some (etag, body) \<longrightarrow> pointer_read k c1 etag body"
  show "yields (\<lambda>_. pointer_set k) (Return (seed_lost_race d found)) c1"
  proof (cases found)
    case None
    then show ?thesis by (simp add: seed_lost_race_def yields_Err)
  next
    case (Some r)
    with read have "pointer_set k c1" by (cases r) (auto intro: pointer_read_set)
    then show ?thesis
      using yields_pointer_set [OF _ assms(2)]
      by (cases "seed_lost_race d found") (simp_all add: yields_Err)
  qed
qed

lemma yields_seed_manifest_pointer:
  assumes c: "inv c"
  shows "yields (\<lambda>_. pointer_set (pointer_key U community owner repo)) (seed_manifest_pointer U G J community owner repo) c"
  unfolding seed_manifest_pointer_def Let_def
proof (rule yields_lift, rule yields_lift, rule yields_try [OF yields_put_manifest c], elim conjE, hypsubst,
    simp only: seed_key_digest ok_or_def option.case lift_r_def result.case)
  let ?k = "pointer_key U community owner repo"
  note k = pointer_key_is_pointer [of U community owner repo]
  fix u bs and c1 :: contents
  assume valid: "map_err SeedValidation (manifest_validate empty_manifest) = Ok u"
    and bytes: "map_err SeedSerialize (canonical_bytes J empty_manifest) = Ok bs"
    and c1: "evolves G J c c1" "inv c1" and stored: "c1 (manifest_key (sha256_hex G bs)) = Some bs"
  let ?d = "sha256_hex G bs"
  have "committable c1 parent_state_fresh empty_manifest"
    by (simp add: committable_def empty_manifest_def parent_state_fresh_def sort_dedup_def packs_present_def)
  then have at1: "manifest_at G J c1 ?d empty_manifest"
    using valid bytes codec stored sha_digest
    by (intro committable_stored) (simp_all add: result_inv manifest_validate_Ok)
  have "case parent empty_manifest of None \<Rightarrow> IfNoneMatchStar = IfNoneMatchStar
      | Some e \<Rightarrow> is_manifest_digest e \<and> IfNoneMatchStar = IfMatch (etag_of (str_bytes e))"
    by (simp add: empty_manifest_def)
  note put = yields_put_pointer [OF k at1 this]
  show "yields (\<lambda>_. pointer_set ?k) (try_p SeedPutPointer (put_pointer G ?k (str_bytes ?d) IfNoneMatchStar) (\<lambda>outcome.
       case outcome of
         Won _ \<Rightarrow> Return (Ok ())
       | LostRace \<Rightarrow> try_p SeedReread (get_pointer ?k) (\<lambda>found. Return (seed_lost_race ?d found)))) c1"
  proof (rule yields_try [OF put c1(2)])
    fix outcome c2
    assume c2: "inv c2"
      and won: "\<forall>t. outcome = Won t \<longrightarrow> (\<exists>e. is_manifest_digest e \<and> c2 ?k = Some (str_bytes e) \<and> descends G J c2 e ?d)"
    show "yields (\<lambda>_. pointer_set ?k) (case outcome of
         Won _ \<Rightarrow> Return (Ok ())
       | LostRace \<Rightarrow> try_p SeedReread (get_pointer ?k) (\<lambda>found. Return (seed_lost_race ?d found))) c2"
    proof (cases outcome)
      case (Won t)
      with won have "pointer_set ?k c2" unfolding pointer_set_def by blast
      then show ?thesis unfolding Won cas_outcome.case by (rule yields_pointer_set [OF _ k])
    next
      case LostRace
      show ?thesis unfolding LostRace cas_outcome.case by (rule yields_seed_lost_race [OF c2 k])
    qed
  qed
qed

lemma yields_announce_pointer:
  assumes c: "inv c"
  shows "yields (\<lambda>_. pointer_set (pointer_key U (announce_community req) (announce_owner req) (announce_repo req)))
     (announce_pointer U G J req) c"
proof -
  let ?k = "pointer_key U (announce_community req) (announce_owner req) (announce_repo req)"
  note k = pointer_key_is_pointer [of U "announce_community req" "announce_owner req" "announce_repo req"]
  have "yields (\<lambda>_. pointer_set ?k)
      (ensure_manifest_pointer U G J (announce_community req) (announce_owner req) (announce_repo req)) c"
    unfolding ensure_manifest_pointer_def
  proof (rule yields_try [OF yields_get_pointer [OF k] c])
    fix existing and c1 :: contents
    assume "inv c1" and read: "\<forall>etag body. existing = Some (etag, body) \<longrightarrow> pointer_read ?k c1 etag body"
    then show "yields (\<lambda>_. pointer_set ?k) (case existing of
         Some _ \<Rightarrow> Return (Ok ())
       | None \<Rightarrow> seed_manifest_pointer U G J (announce_community req) (announce_owner req) (announce_repo req)) c1"
      using yields_pointer_set [OF pointer_read_set k] yields_seed_manifest_pointer
      by (cases existing) auto
  qed
  then show ?thesis
    unfolding announce_pointer_def using yields_seed_manifest_pointer [OF c] by simp
qed

end

end
