(* ===== verification/Git_Wire.thy ===== *)
theory Git_Wire
  imports Git_Manifest Uuid_Layout
begin

text \<open>
  The byte formats of the Git HTTP endpoints, from
  \<open>buzz-relay/src/api/git/transport.rs\<close> and \<open>manifest_event.rs\<close>: pkt-line framing
  and its reader, the scan of a \<open>receive-pack\<close> report for rejected refs, the ref
  advertisement built from a manifest, the names a request may address, and the
  ref-state event derived from a committed manifest.

  Log lines are omitted.  Slicing and indexing that would panic are \<open>None\<close>.
\<close>

section \<open>Pkt-lines\<close>

definition PKT_LINE_MAX_PAYLOAD :: nat where "PKT_LINE_MAX_PAYLOAD = 0xffff - 4"

definition hex_digit_cp :: "nat \<Rightarrow> nat" where
  "hex_digit_cp d = (if d < 10 then 48 + d else 87 + d)"

fun hex_nat :: "nat \<Rightarrow> ustring" where
  "hex_nat n = (if n < 16 then [hex_digit_cp n] else hex_nat (n div 16) @ [hex_digit_cp (n mod 16)])"

declare hex_nat.simps [simp del]

text \<open>The format \<open>{len:04x}\<close>: lowercase hexadecimal, at least four digits.\<close>

definition format_04x :: "nat \<Rightarrow> ustring" where
  "format_04x n = (let h = hex_nat n in replicate (4 - length h) 48 @ h)"

definition flush_pkt :: bytes where "flush_pkt = str_bytes (ustr ''0000'')"

definition pkt_line :: "bytes \<Rightarrow> bytes \<Rightarrow> bytes" where
  "pkt_line out payload =
     (if length payload > PKT_LINE_MAX_PAYLOAD then out @ str_bytes (ustr ''0004'')
      else out @ str_bytes (format_04x (length payload + 4)) @ payload)"

text \<open>\<open>usize::from_str_radix(s, 16)\<close> on at most four characters, which cannot overflow.\<close>

definition to_digit16 :: "nat \<Rightarrow> nat option" where
  "to_digit16 c =
     (if 48 \<le> c \<and> c \<le> 57 then Some (c - 48)
      else if 97 \<le> c \<and> c \<le> 102 then Some (c - 87)
      else if 65 \<le> c \<and> c \<le> 70 then Some (c - 55)
      else None)"

fun radix16 :: "nat \<Rightarrow> ustring \<Rightarrow> nat option" where
  "radix16 acc [] = Some acc"
| "radix16 acc (c # cs) = (case to_digit16 c of Some d \<Rightarrow> radix16 (acc * 16 + d) cs | None \<Rightarrow> None)"

definition from_str_radix16 :: "ustring \<Rightarrow> nat option" where
  "from_str_radix16 s =
     (if s = [] \<or> s = [43] \<or> s = [45] then None
      else if hd s = 43 then radix16 0 (tl s)
      else radix16 0 s)"

definition pkt_len :: "bytes \<Rightarrow> nat option" where
  "pkt_len len_hex = Option.bind (from_utf8 len_hex) from_str_radix16"

text \<open>The slice \<open>&buf[i..j]\<close>, which panics out of range.\<close>

definition byte_slice :: "bytes \<Rightarrow> nat \<Rightarrow> nat \<Rightarrow> bytes option" where
  "byte_slice buf i j = (if i \<le> j \<and> j \<le> length buf then Some (take (j - i) (drop i buf)) else None)"

text \<open>
  The iterator: the loop of \<open>next\<close> skips control packets, and answers the position
  it stops at and the payload, if any; the outer \<open>None\<close> is a panic.
\<close>

function pkt_next :: "bytes \<Rightarrow> nat \<Rightarrow> (nat \<times> bytes option) option" where
  "pkt_next buf i =
     (if i + 4 > length buf then Some (i, None)
      else case byte_slice buf i (i + 4) of
        None \<Rightarrow> None
      | Some len_hex \<Rightarrow>
          (case pkt_len len_hex of
             None \<Rightarrow> Some (i, None)
           | Some len \<Rightarrow>
               if len < 4 then pkt_next buf (i + 4)
               else if i + len > length buf then Some (i, None)
               else case byte_slice buf (i + 4) (i + len) of
                 None \<Rightarrow> None
               | Some payload \<Rightarrow> Some (i + len, Some payload)))"
  by pat_completeness auto
termination
  by (relation "measure (\<lambda>(buf, i). length buf - i)") auto

declare pkt_next.simps [simp del]

lemma byte_slice_Some: "byte_slice buf i j = Some p \<longleftrightarrow> i \<le> j \<and> j \<le> length buf \<and> p = take (j - i) (drop i buf)"
  by (auto simp: byte_slice_def)

lemma pkt_next_advances: "pkt_next buf i = Some (j, Some p) \<Longrightarrow> i + 4 \<le> j \<and> j \<le> length buf \<and> length p + 4 \<le> j - i"
proof (induction buf i rule: pkt_next.induct)
  case (1 buf i)
  show ?case
  proof (cases "i + 4 > length buf \<or> byte_slice buf i (i + 4) = None \<or> pkt_len (the (byte_slice buf i (i + 4))) = None")
    case True
    with "1.prems" show ?thesis by (subst (asm) pkt_next.simps) (auto split: if_splits option.splits)
  next
    case False
    then obtain b len where len: "byte_slice buf i (i + 4) = Some b" "pkt_len b = Some len" "\<not> i + 4 > length buf" by auto
    show ?thesis
    proof (cases "len < 4")
      case True
      with len "1.prems" have "pkt_next buf (i + 4) = Some (j, Some p)" by (subst (asm) pkt_next.simps) simp
      with "1.IH" [OF len(3,1,2) True] show ?thesis by linarith
    next
      case False
      with "1.prems" len show ?thesis by (subst (asm) pkt_next.simps) (auto simp: byte_slice_Some split: if_splits option.splits)
    qed
  qed
qed

lemma pkt_next_decreases: "pkt_next buf i = Some (j, Some p) \<Longrightarrow> length buf - j < length buf - i"
  using pkt_next_advances [of buf i j p] by auto

text \<open>The payloads the iterator yields from a position on.\<close>

function pkt_payloads :: "bytes \<Rightarrow> nat \<Rightarrow> bytes list" where
  "pkt_payloads buf i =
     (case pkt_next buf i of
        Some (j, Some p) \<Rightarrow> p # pkt_payloads buf j
      | _ \<Rightarrow> [])"
  by pat_completeness auto
termination
  by (relation "measure (\<lambda>(buf, i). length buf - i)") (auto dest: pkt_next_decreases)

declare pkt_payloads.simps [simp del]

text \<open>
  The loop over the iterator that leaves at the first payload \<open>f\<close> holds of: the
  \<open>any\<close> of the inner scan and the \<open>for\<close> loop of the outer one.  \<open>None\<close> is a panic.
\<close>

function pkt_any :: "(bytes \<Rightarrow> bool option) \<Rightarrow> bytes \<Rightarrow> nat \<Rightarrow> bool option" where
  "pkt_any f buf i =
     (case pkt_next buf i of
        None \<Rightarrow> None
      | Some (j, None) \<Rightarrow> Some False
      | Some (j, Some p) \<Rightarrow>
          (case f p of
             None \<Rightarrow> None
           | Some True \<Rightarrow> Some True
           | Some False \<Rightarrow> pkt_any f buf j))"
  by pat_completeness auto
termination
  by (relation "measure (\<lambda>(f, buf, i). length buf - i)") (auto dest: pkt_next_decreases)

declare pkt_any.simps [simp del]


section \<open>The report of receive-pack\<close>

definition bytes_start_with :: "bytes \<Rightarrow> string \<Rightarrow> bool" where
  "bytes_start_with bs p \<longleftrightarrow> take (length p) bs = str_bytes (ustr p)"

definition payload_rejects :: "bytes \<Rightarrow> bool option" where
  "payload_rejects payload =
     (case payload of
        b # rest \<Rightarrow>
          if b = 1 then pkt_any (\<lambda>line. Some (bytes_start_with line ''ng '')) rest 0
          else if b = 2 \<or> b = 3 then Some False
          else Some (bytes_start_with payload ''ng '')
      | [] \<Rightarrow> Some (bytes_start_with payload ''ng ''))"

definition receive_pack_report_rejected :: "bytes \<Rightarrow> bool option" where
  "receive_pack_report_rejected out = pkt_any payload_rejects out 0"


section \<open>The advertisement\<close>

definition MAX_FAST_PATH_REFNAME_LEN :: nat where "MAX_FAST_PATH_REFNAME_LEN = 4096"

definition fast_path_eligible :: "manifest \<Rightarrow> bool" where
  "fast_path_eligible m \<longleftrightarrow>
     \<not> list_ex (\<lambda>(r, _). starts_with r (ustr ''refs/tags/'')) (refs m)
     \<and> bt_contains (refs m) (head m)
     \<and> list_all (\<lambda>(refname, oid). is_safe_refname refname
          \<and> utf8_len refname \<le> MAX_FAST_PATH_REFNAME_LEN \<and> is_hex_oid oid) (refs m)"

definition capabilities :: "ustring \<Rightarrow> string \<Rightarrow> ustring" where
  "capabilities h fmt =
     ustr (''multi_ack thin-pack side-band side-band-64k ofs-delta shallow ''
       @ ''deepen-since deepen-not deepen-relative no-progress include-tag ''
       @ ''multi_ack_detailed no-done symref=HEAD:'') @ h
     @ ustr ('' object-format='' @ fmt @ '' agent=buzz-git'')"

definition head_line :: "ustring \<Rightarrow> ustring \<Rightarrow> bytes" where
  "head_line h oid =
     (let object_format = (if utf8_len oid = 64 then ''sha256'' else ''sha1'') in
      str_bytes oid @ str_bytes (ustr '' HEAD'') @ [0] @ str_bytes (capabilities h object_format) @ [10])"

definition ref_line :: "ustring \<times> ustring \<Rightarrow> bytes" where
  "ref_line entry = str_bytes (snd entry) @ [32] @ str_bytes (fst entry) @ [10]"

definition service_line :: bytes where
  "service_line = str_bytes (ustr ''# service=git-upload-pack'') @ [10]"

definition build_upload_pack_advertisement :: "manifest \<Rightarrow> bytes option" where
  "build_upload_pack_advertisement m =
     (case map_of (refs m) (head m) of
        None \<Rightarrow> None
      | Some head_oid \<Rightarrow>
          Some (foldl (\<lambda>out entry. pkt_line out (ref_line entry))
                  (pkt_line (pkt_line [] service_line @ flush_pkt) (head_line (head m) head_oid))
                  (refs m)
                @ flush_pkt))"


section \<open>Repository names\<close>

definition validate_repo_id :: "ustring \<Rightarrow> ustring \<Rightarrow> (ustring, string) result" where
  "validate_repo_id owner repo =
     (if utf8_len owner \<noteq> 64 \<or> \<not> list_all (\<lambda>c. is_hexdigit_cp c \<and> \<not> is_uppercase_cp c) owner
      then Err ''invalid owner''
      else
        let repo_name = (case strip_suffix repo (ustr ''.git'') of Some r \<Rightarrow> r | None \<Rightarrow> repo) in
        if repo_name = [] \<or> utf8_len repo_name > 64 \<or> starts_with repo_name (ustr ''.'')
           \<or> contains_str repo_name (ustr ''..'')
           \<or> \<not> list_all (\<lambda>c. is_ascii_alphanumeric c \<or> c = 46 \<or> c = 95 \<or> c = 45) repo_name
        then Err ''invalid repo name''
        else Ok repo_name)"


section \<open>The ref-state event\<close>

definition is_emittable_ref :: "ustring \<Rightarrow> bool" where
  "is_emittable_ref name \<longleftrightarrow>
     (starts_with name (ustr ''refs/heads/'') \<or> starts_with name (ustr ''refs/tags/''))
     \<and> \<not> starts_with name (ustr ''/'') \<and> \<not> contains_str name (ustr ''//'')
     \<and> list_all (\<lambda>c. is_ascii_alphanumeric c \<or> c \<in> set (ustr ''/_.-'')) name"

definition is_valid_oid :: "ustring \<Rightarrow> bool" where
  "is_valid_oid s \<longleftrightarrow> (utf8_len s = 40 \<or> utf8_len s = 64) \<and> list_all is_hexdigit_cp s"

record ref_state_inputs =
  inputs_repo_id :: ustring
  inputs_head :: ustring
  inputs_refs :: ref_map
  actor_pubkey_hex :: ustring

datatype build_error = InvalidActor string | Sign string

record ref_state_event =
  event_kind :: nat
  event_content :: ustring
  event_tags :: "ustring list list"
  event_signature :: ustring

text \<open>
  The \<open>nostr\<close> crate: parsing a public key to its canonical text, and signing with
  the relay's keys.
\<close>

record nostr_env =
  public_key_from_hex :: "ustring \<Rightarrow> (ustring, string) result"
  sign_with_keys :: "nat \<Rightarrow> ustring \<Rightarrow> ustring list list \<Rightarrow> (ustring, string) result"

definition ref_tags :: "ref_map \<Rightarrow> ustring list list" where
  "ref_tags m = map (\<lambda>(name, oid). [name, oid]) (filter (\<lambda>(name, oid). is_emittable_ref name \<and> is_valid_oid oid) m)"

definition build_ref_state_event ::
  "nostr_env \<Rightarrow> ref_state_inputs \<Rightarrow> (ref_state_event, build_error) result" where
  "build_ref_state_event N inputs =
     bind_r (map_err InvalidActor (public_key_from_hex N (actor_pubkey_hex inputs))) (\<lambda>actor.
       let tags = [[ustr ''d'', inputs_repo_id inputs]]
             @ ref_tags (inputs_refs inputs)
             @ (if inputs_head inputs \<noteq> [] \<and> is_emittable_ref (inputs_head inputs)
                then [[ustr ''HEAD'', ustr ''ref: '' @ inputs_head inputs]] else [])
             @ [[ustr ''p'', actor]] in
       bind_r (map_err Sign (sign_with_keys N 30618 [] tags)) (\<lambda>signature.
         Ok \<lparr>event_kind = 30618, event_content = [], event_tags = tags, event_signature = signature\<rparr>))"



section \<open>Framing is read back\<close>

lemma to_digit16_hex [simp]: "d < 16 \<Longrightarrow> to_digit16 (hex_digit_cp d) = Some d"
  by (simp add: to_digit16_def hex_digit_cp_def)

lemma radix16_append: "radix16 acc (xs @ ys) = Option.bind (radix16 acc xs) (\<lambda>a. radix16 a ys)"
  by (induction xs arbitrary: acc) (auto split: option.splits)

lemma radix16_zeros [simp]: "radix16 0 (replicate k 48 @ xs) = radix16 0 xs"
  by (induction k) (simp_all add: to_digit16_def)

lemma radix16_hex_nat: "radix16 0 (hex_nat n) = Some n"
proof (induction n rule: hex_nat.induct)
  case (1 n)
  show ?case
  proof (cases "n < 16")
    case True
    then show ?thesis by (subst hex_nat.simps) simp
  next
    case False
    with 1 show ?thesis by (subst hex_nat.simps) (simp add: radix16_append)
  qed
qed

lemma length_hex_nat: "n < 16 ^ k \<Longrightarrow> 0 < k \<Longrightarrow> length (hex_nat n) \<le> k"
proof (induction k arbitrary: n)
  case (Suc k)
  show ?case
  proof (cases "n < 16")
    case True
    then show ?thesis by (subst hex_nat.simps) simp
  next
    case False
    with Suc.prems have "n div 16 < 16 ^ k" "0 < k"
      by (auto simp: less_mult_imp_div_less mult.commute intro: Nat.gr0I)
    with Suc.IH False show ?thesis by (subst hex_nat.simps) simp
  qed
qed simp

lemma hex_nat_digits: "c \<in> set (hex_nat n) \<Longrightarrow> 48 \<le> c \<and> c < 103"
proof (induction n rule: hex_nat.induct)
  case (1 n)
  have d: "48 \<le> hex_digit_cp d \<and> hex_digit_cp d < 103" if "d < 16" for d
    using that by (simp add: hex_digit_cp_def)
  from 1 d [of n] d [of "n mod 16"] show ?case
    by (subst (asm) (2) hex_nat.simps) (auto split: if_splits)
qed

lemma format_04x:
  assumes "n < 65536"
  shows "length (format_04x n) = 4" "list_all (\<lambda>c. c < 128) (format_04x n)" "from_str_radix16 (format_04x n) = Some n"
proof -
  have "length (hex_nat n) \<le> 4" using assms length_hex_nat [of n 4] by simp
  then show len: "length (format_04x n) = 4" by (simp add: format_04x_def Let_def)
  have range: "c \<in> set (format_04x n) \<Longrightarrow> 48 \<le> c \<and> c < 103" for c
    using hex_nat_digits [of c n] by (auto simp: format_04x_def Let_def split: if_splits)
  then show "list_all (\<lambda>c. c < 128) (format_04x n)" by (fastforce simp: list_all_iff)
  have "format_04x n \<noteq> []" using len by auto
  then have "48 \<le> hd (format_04x n)" using range hd_in_set by blast
  then have "hd (format_04x n) \<noteq> 43" by linarith
  moreover have "radix16 0 (format_04x n) = Some n"
    by (simp add: format_04x_def Let_def radix16_hex_nat)
  ultimately show "from_str_radix16 (format_04x n) = Some n"
    using len by (auto simp: from_str_radix16_def)
qed

lemma length_str_bytes_ascii: "list_all (\<lambda>c. c < 128) s \<Longrightarrow> length (str_bytes s) = length s"
  by (induction s) (simp_all add: str_bytes_def utf8_char_def)

abbreviation pkt :: "bytes \<Rightarrow> bytes" where
  "pkt p \<equiv> str_bytes (format_04x (length p + 4)) @ p"

lemma pkt_line_fits: "length p \<le> 65531 \<Longrightarrow> pkt_line out p = out @ pkt p"
  by (simp add: pkt_line_def PKT_LINE_MAX_PAYLOAD_def)

lemma pkt_len_frame:
  assumes "n < 65536"
  shows "byte_slice (pre @ str_bytes (format_04x n) @ rest) (length pre) (length pre + 4) = Some (str_bytes (format_04x n))"
    "pkt_len (str_bytes (format_04x n)) = Some n"
  using format_04x [OF assms]
  by (simp_all add: byte_slice_Some pkt_len_def length_str_bytes_ascii from_utf8_ascii)

lemma pkt_next_frame:
  assumes "length p \<le> 65531"
  shows "pkt_next (pre @ pkt p @ rest) (length pre) = Some (length pre + length (pkt p), Some p)"
proof -
  let ?n = "length p + 4"
  have n: "?n < 65536" using assms by simp
  have len: "length (str_bytes (format_04x ?n)) = 4"
    using format_04x [OF n] by (simp add: length_str_bytes_ascii)
  have "byte_slice (pre @ pkt p @ rest) (length pre + 4) (length pre + ?n) = Some p"
    using len by (simp add: byte_slice_Some)
  then show ?thesis
    using pkt_len_frame(1) [OF n, of pre "p @ rest"] pkt_len_frame(2) [OF n] len by (subst pkt_next.simps) simp
qed

lemma flush_pkt_frame: "flush_pkt = str_bytes (format_04x 0)"
  by (simp add: flush_pkt_def format_04x_def hex_nat.simps hex_digit_cp_def ustr_def numeral_eq_Suc)

lemma pkt_next_flush: "pkt_next (pre @ flush_pkt @ rest) (length pre) = pkt_next (pre @ flush_pkt @ rest) (length pre + 4)"
  using pkt_len_frame(1) [of 0 pre rest] pkt_len_frame(2) [of 0] format_04x [of 0]
  by (subst pkt_next.simps) (simp add: flush_pkt_frame length_str_bytes_ascii)

lemma pkt_next_end: "pkt_next buf (length buf) = Some (length buf, None)"
  by (subst pkt_next.simps) simp

lemma pkt_payloads_frames:
  "list_all (\<lambda>p. length p \<le> 65531) ps \<Longrightarrow>
   pkt_payloads (pre @ concat (map pkt ps) @ rest) (length pre)
   = ps @ pkt_payloads (pre @ concat (map pkt ps) @ rest) (length pre + length (concat (map pkt ps)))"
proof (induction ps arbitrary: pre)
  case (Cons p ps)
  then have "pkt_next (pre @ concat (map pkt (p # ps)) @ rest) (length pre) = Some (length (pre @ pkt p), Some p)"
    using pkt_next_frame [of p pre "concat (map pkt ps) @ rest"] by simp
  with Cons.IH [of "pre @ pkt p"] Cons.prems show ?case
    by (subst pkt_payloads.simps) (simp add: add.assoc)
qed simp

lemma flush_pkt_length [simp]: "length flush_pkt = 4"
  by (simp add: flush_pkt_def ustr_def str_bytes_def utf8_char_def)

lemma pkt_payloads_flush:
  "pkt_payloads (pre @ flush_pkt @ rest) (length pre) = pkt_payloads (pre @ flush_pkt @ rest) (length pre + 4)"
  by (subst (1 2) pkt_payloads.simps) (simp only: pkt_next_flush)

lemma pkt_payloads_end: "pkt_payloads buf (length buf) = []"
  by (subst pkt_payloads.simps) (simp add: pkt_next_end)

lemma pkt_payloads_stream:
  assumes "list_all (\<lambda>p. length p \<le> 65531) ps"
  shows "pkt_payloads (pre @ concat (map pkt ps) @ flush_pkt) (length pre) = ps"
proof -
  let ?pre = "pre @ concat (map pkt ps)"
  have "pkt_payloads (?pre @ flush_pkt @ []) (length ?pre) = pkt_payloads (?pre @ flush_pkt @ []) (length (?pre @ flush_pkt))"
    by (subst pkt_payloads_flush) (simp add: add.assoc)
  with pkt_payloads_frames [OF assms, of pre flush_pkt] pkt_payloads_end [of "?pre @ flush_pkt"]
  show ?thesis by (simp add: add.assoc)
qed


lemma foldl_pkt_line:
  "list_all (\<lambda>x. length (f x) \<le> 65531) xs \<Longrightarrow>
   foldl (\<lambda>out x. pkt_line out (f x)) out xs = out @ concat (map pkt (map f xs))"
  by (induction xs arbitrary: out) (simp_all add: pkt_line_fits)

text \<open>What \<open>pkt_line\<close> wrote, followed by a flush packet, is what the iterator yields.\<close>

lemma pkt_stream_roundtrip:
  assumes "list_all (\<lambda>p. length p \<le> PKT_LINE_MAX_PAYLOAD) ps"
  shows "pkt_payloads (foldl pkt_line [] ps @ flush_pkt) 0 = ps"
  using pkt_payloads_stream [of ps "[]"] foldl_pkt_line [of id ps "[]"] assms
  by (simp add: PKT_LINE_MAX_PAYLOAD_def)

text \<open>No slice of the iterator is out of range, so a loop over it ends with an answer.\<close>

lemma pkt_next_total: "\<exists>j q. pkt_next buf i = Some (j, q)"
proof (induction buf i rule: pkt_next.induct)
  case (1 buf i)
  show ?case
  proof (cases "i + 4 > length buf")
    case True
    then show ?thesis by (subst pkt_next.simps) simp
  next
    case False
    then obtain b where b: "byte_slice buf i (i + 4) = Some b" by (auto simp: byte_slice_def)
    show ?thesis
    proof (cases "pkt_len b")
      case None
      with b False show ?thesis by (subst pkt_next.simps) simp
    next
      case (Some len)
      with 1 [OF False b Some] b False show ?thesis
        by (cases "len < 4") (subst pkt_next.simps, simp add: byte_slice_def)+
    qed
  qed
qed

lemma pkt_any_list_ex:
  assumes "\<forall>p. f p = Some (g p)"
  shows "pkt_any f buf i = Some (list_ex g (pkt_payloads buf i))"
proof (induction buf i rule: pkt_payloads.induct)
  case (1 buf i)
  obtain j q where step: "pkt_next buf i = Some (j, q)" using pkt_next_total by blast
  show ?case
  proof (cases q)
    case None
    with step show ?thesis by (subst pkt_any.simps, subst pkt_payloads.simps) simp
  next
    case (Some p)
    with step 1 have "pkt_any f buf j = Some (list_ex g (pkt_payloads buf j))" by auto
    with step Some assms show ?thesis
      by (subst pkt_any.simps, subst pkt_payloads.simps) (cases "g p"; simp)
  qed
qed

lemma pkt_payloads_size:
  "4 * length (pkt_payloads buf i) + sum_list (map length (pkt_payloads buf i)) \<le> length buf - i"
proof (induction buf i rule: pkt_payloads.induct)
  case (1 buf i)
  show ?case
  proof (cases "\<exists>j p. pkt_next buf i = Some (j, Some p)")
    case False
    then have "pkt_payloads buf i = []" by (subst pkt_payloads.simps) (auto split: option.splits)
    then show ?thesis by simp
  next
    case True
    then obtain j p where step: "pkt_next buf i = Some (j, Some p)" by blast
    then have "pkt_payloads buf i = p # pkt_payloads buf j" by (subst pkt_payloads.simps) simp
    moreover from step 1 have "4 * length (pkt_payloads buf j) + sum_list (map length (pkt_payloads buf j)) \<le> length buf - j"
      by auto
    moreover have "i + 4 \<le> j" "j \<le> length buf" "length p + 4 \<le> j - i"
      using pkt_next_advances [OF step] by auto
    ultimately show ?thesis by simp
  qed
qed

text \<open>Whether a payload of the report carries a rejection, in terms of the payloads nested in it.\<close>

definition rejecting :: "bytes \<Rightarrow> bool" where
  "rejecting p \<longleftrightarrow>
     (case p of
        b # rest \<Rightarrow>
          if b = 1 then list_ex (\<lambda>line. bytes_start_with line ''ng '') (pkt_payloads rest 0)
          else b \<noteq> 2 \<and> b \<noteq> 3 \<and> bytes_start_with p ''ng ''
      | [] \<Rightarrow> False)"

lemma payload_rejects_rejecting: "payload_rejects p = Some (rejecting p)"
  by (auto simp: payload_rejects_def rejecting_def pkt_any_list_ex bytes_start_with_def ustr_def str_bytes_def
      utf8_char_def split: list.splits)

lemma report_rejected_payloads: "receive_pack_report_rejected buf = Some (list_ex rejecting (pkt_payloads buf 0))"
  by (simp add: receive_pack_report_rejected_def pkt_any_list_ex payload_rejects_rejecting)

text \<open>
  C38.  The scan of an arbitrary, possibly malformed or truncated stream ends
  without a panic, at both levels: no slice it takes is out of range, and it
  answers whether a plain payload, or a line nested in a data payload, starts with
  \<open>ng\<close>.  Every payload accounts for itself and four bytes of the input, so an input
  of \<open>n\<close> bytes yields at most \<open>n / 4\<close> of them.
\<close>

theorem pkt_scan_bounded:
  "pkt_next buf i \<noteq> None
   \<and> receive_pack_report_rejected buf = Some (list_ex rejecting (pkt_payloads buf 0))
   \<and> 4 * length (pkt_payloads buf i) + sum_list (map length (pkt_payloads buf i)) \<le> length buf - i"
  using pkt_next_total [of buf i] report_rejected_payloads pkt_payloads_size by auto


section \<open>Rejections are seen\<close>

definition report_stream :: "bytes list \<Rightarrow> bytes" where
  "report_stream ps = foldl pkt_line [] ps @ flush_pkt"

lemma report_stream_payloads:
  "list_all (\<lambda>p. length p \<le> PKT_LINE_MAX_PAYLOAD) ps \<Longrightarrow> pkt_payloads (report_stream ps) 0 = ps"
  unfolding report_stream_def by (rule pkt_stream_roundtrip)

text \<open>
  The frames of a report: a status line sent plainly, a side-band data frame
  holding whole status lines and perhaps the closing flush packet, or a progress
  or error frame.
\<close>

datatype report_frame =
    Status bytes
  | Data "bytes list" bool
  | Progress u8 bytes

definition lines_stream :: "bytes list \<Rightarrow> bool \<Rightarrow> bytes" where
  "lines_stream ps flush = foldl pkt_line [] ps @ (if flush then flush_pkt else [])"

fun frame_payload :: "report_frame \<Rightarrow> bytes" where
  "frame_payload (Status p) = p"
| "frame_payload (Data ps flush) = 1 # lines_stream ps flush"
| "frame_payload (Progress b p) = b # p"

fun frame_lines :: "report_frame \<Rightarrow> bytes list" where
  "frame_lines (Status p) = [p]"
| "frame_lines (Data ps flush) = ps"
| "frame_lines (Progress b p) = []"

fun frame_wf :: "report_frame \<Rightarrow> bool" where
  "frame_wf (Status p) \<longleftrightarrow> (case p of b # _ \<Rightarrow> b > 3 | [] \<Rightarrow> True)"
| "frame_wf (Data ps flush) \<longleftrightarrow> list_all (\<lambda>p. length p \<le> PKT_LINE_MAX_PAYLOAD) ps"
| "frame_wf (Progress b p) \<longleftrightarrow> b = 2 \<or> b = 3"

definition frame_ok :: "report_frame \<Rightarrow> bool" where
  "frame_ok f \<longleftrightarrow> frame_wf f \<and> length (frame_payload f) \<le> PKT_LINE_MAX_PAYLOAD"

abbreviation ng_line :: "bytes \<Rightarrow> bool" where
  "ng_line p \<equiv> bytes_start_with p ''ng ''"

lemma lines_stream_payloads:
  assumes "list_all (\<lambda>p. length p \<le> PKT_LINE_MAX_PAYLOAD) ps"
  shows "pkt_payloads (lines_stream ps flush) 0 = ps"
proof (cases flush)
  case True
  with assms show ?thesis by (simp add: lines_stream_def pkt_stream_roundtrip)
next
  case False
  with assms pkt_payloads_frames [of ps "[]" "[]"] pkt_payloads_end [of "concat (map pkt ps)"] foldl_pkt_line [of id ps "[]"]
  show ?thesis by (simp add: lines_stream_def PKT_LINE_MAX_PAYLOAD_def)
qed

lemma frame_rejecting: "frame_wf f \<Longrightarrow> rejecting (frame_payload f) \<longleftrightarrow> list_ex ng_line (frame_lines f)"
  by (cases f) (auto simp: rejecting_def lines_stream_payloads bytes_start_with_def ustr_def str_bytes_def
      utf8_char_def split: list.splits)

lemma frames_rejecting:
  "list_all frame_wf fs \<Longrightarrow> list_ex rejecting (map frame_payload fs) \<longleftrightarrow> list_ex ng_line (concat (map frame_lines fs))"
  by (induction fs) (auto simp: frame_rejecting)

lemma frames_ok: "list_all frame_ok fs \<Longrightarrow>
    list_all frame_wf fs \<and> list_all (\<lambda>p. length p \<le> PKT_LINE_MAX_PAYLOAD) (map frame_payload fs)"
  by (auto simp: list_all_iff frame_ok_def)

text \<open>
  C37.  A rejected ref is neither missed nor imagined when no status line is split
  between frames: for every sequence of plain status lines, of side-band data
  frames holding whole status lines, and of progress frames, the scan answers
  whether some line says \<open>ng\<close>.
\<close>

theorem rejected_report_detected:
  assumes "list_all frame_ok fs"
  shows "receive_pack_report_rejected (report_stream (map frame_payload fs))
    = Some (list_ex (\<lambda>p. bytes_start_with p ''ng '') (concat (map frame_lines fs)))"
  using frames_ok [OF assms]
  by (simp add: report_rejected_payloads report_stream_payloads frames_rejecting)

definition demo_report :: "report_frame list" where
  "demo_report = [Progress 2 [104, 105], Data [str_bytes (ustr ''unpack ok'')] False,
     Data [str_bytes (ustr ''ok refs/heads/dev''), str_bytes (ustr ''ng refs/heads/main denied'')] True]"

lemmas report_eval = pkt_line_def PKT_LINE_MAX_PAYLOAD_def format_04x_def Let_def hex_nat.simps hex_digit_cp_def
  ustr_def str_bytes_def utf8_char_def flush_pkt_def bytes_start_with_def

theorem rejected_report_detected_witness:
  "receive_pack_report_rejected (report_stream (map frame_payload demo_report)) = Some True"
proof -
  have "list_all frame_ok demo_report"
    by (simp add: demo_report_def frame_ok_def lines_stream_def report_eval)
  moreover have "list_ex (\<lambda>p. bytes_start_with p ''ng '') (concat (map frame_lines demo_report))"
    by (simp add: demo_report_def report_eval)
  ultimately show ?thesis
    using rejected_report_detected [of demo_report] by simp
qed

lemma partial_frame_silent:
  assumes "length p \<le> 65531" "n < length (pkt p)"
  shows "pkt_payloads (take n (pkt p)) 0 = []"
proof -
  let ?n = "length p + 4"
  have n: "?n < 65536" using assms by simp
  have len: "length (str_bytes (format_04x ?n)) = 4"
    using format_04x [OF n] by (simp add: length_str_bytes_ascii)
  define b where "b = take n (pkt p)"
  have b: "length b < ?n" "length b = n" using assms len by (simp_all add: b_def)
  have "pkt_next b 0 = Some (0, None)"
  proof (cases "n < 4")
    case True
    with b show ?thesis by (subst pkt_next.simps) simp
  next
    case False
    with len b have "byte_slice b 0 4 = Some (str_bytes (format_04x ?n))"
      by (simp add: byte_slice_Some) (simp add: b_def min_def)
    with pkt_len_frame(2) [OF n] b False show ?thesis by (subst pkt_next.simps) simp
  qed
  then show ?thesis unfolding b_def by (subst pkt_payloads.simps) simp
qed

lemma bad_length_silent:
  assumes "pkt_len (take 4 buf) = None"
  shows "pkt_payloads buf 0 = []"
proof -
  have "pkt_next buf 0 = Some (0, None)"
    using assms by (subst pkt_next.simps) (simp add: byte_slice_def)
  then show ?thesis by (subst pkt_payloads.simps) simp
qed


lemma demo_status:
  "pkt_line [] (str_bytes (ustr ''ng refs/heads/main denied'')) = str_bytes (ustr ''001dng refs/heads/main denied'')"
  by (simp add: report_eval) (simp add: numeral_eq_Suc)



section \<open>The advertisement names the published refs\<close>

text \<open>How a client reads the advertisement: after the service and HEAD lines, one ref per line.\<close>

definition read_ref_line :: "bytes \<Rightarrow> (ustring \<times> ustring) option" where
  "read_ref_line line =
     (case from_utf8 line of
        Some t \<Rightarrow>
          (case dropWhile (\<lambda>c. c \<noteq> 32) t of
             _ # rest \<Rightarrow> if rest \<noteq> [] \<and> last rest = 10 then Some (butlast rest, takeWhile (\<lambda>c. c \<noteq> 32) t) else None
           | [] \<Rightarrow> None)
      | None \<Rightarrow> None)"

lemma safe_refname_chars:
  "is_safe_refname s \<Longrightarrow> list_all (\<lambda>c. is_ascii_alphanumeric c \<or> c = 47 \<or> c = 95 \<or> c = 46 \<or> c = 45) s"
  by (simp add: is_safe_refname_def split: if_splits)

lemma safe_refname_ascii: "is_safe_refname s \<Longrightarrow> list_all (\<lambda>c. c < 128) s \<and> 32 \<notin> set s \<and> 10 \<notin> set s"
proof -
  assume s: "is_safe_refname s"
  have "c < 128 \<and> c \<noteq> 32 \<and> c \<noteq> 10" if "c \<in> set s" for c
    using safe_refname_chars [OF s] that by (auto simp: list_all_iff is_ascii_alphanumeric_def is_digit_cp_def)
  then show ?thesis by (auto simp: list_all_iff)
qed

lemma hex_oid_ascii: "is_hex_oid s \<Longrightarrow> list_all (\<lambda>c. c < 128) s \<and> 32 \<notin> set s \<and> length s \<le> 64"
proof -
  assume s: "is_hex_oid s"
  then have ascii: "\<forall>c\<in>set s. c < 128 \<and> c \<noteq> 32"
    by (fastforce simp: is_hex_oid_def list_all_iff is_hexdigit_cp_def is_digit_cp_def)
  then have "utf8_len s = length s" by (simp add: utf8_len_ascii)
  with s ascii show ?thesis by (auto simp: is_hex_oid_def list_all_iff)
qed

lemma read_ref_line_inverse:
  assumes "is_safe_refname name" "is_hex_oid oid"
  shows "read_ref_line (ref_line (name, oid)) = Some (name, oid)"
proof -
  have line: "ref_line (name, oid) = str_bytes (oid @ [32] @ name @ [10])"
    by (simp add: ref_line_def str_bytes_def utf8_char_def)
  have "from_utf8 (ref_line (name, oid)) = Some (oid @ [32] @ name @ [10])"
    unfolding line using safe_refname_ascii [OF assms(1)] hex_oid_ascii [OF assms(2)]
    by (intro from_utf8_ascii) simp
  moreover have "dropWhile (\<lambda>c. c \<noteq> 32) (oid @ 32 # x) = 32 # x" "takeWhile (\<lambda>c. c \<noteq> 32) (oid @ 32 # x) = oid" for x
    using hex_oid_ascii [OF assms(2)] by (auto simp: dropWhile_append3 takeWhile_tail intro!: takeWhile_append2 [THEN trans])
  ultimately show ?thesis by (simp add: read_ref_line_def)
qed

lemma ref_line_fits:
  assumes "is_safe_refname name" "utf8_len name \<le> 4096" "is_hex_oid oid"
  shows "length (ref_line (name, oid)) \<le> 4162"
  using assms safe_refname_ascii [OF assms(1)] hex_oid_ascii [OF assms(3)]
  by (simp add: ref_line_def length_str_bytes_ascii utf8_len_ascii list_all_iff)

lemma head_line_fits:
  assumes "is_safe_refname name" "utf8_len name \<le> 4096" "is_hex_oid oid"
  shows "length (head_line name oid) \<le> 65531"
proof -
  have ustr: "list_all (\<lambda>c. c < 128) (ustr s)" if "list_all (\<lambda>c. of_char c < (128::nat)) s" for s
    using that by (simp add: ustr_def list_all_iff)
  have name: "list_all (\<lambda>c. c < 128) name" "length name \<le> 4096"
    using assms(2) safe_refname_ascii [OF assms(1)] by (simp_all add: utf8_len_ascii list_all_iff)
  have "length (str_bytes (capabilities name fmt)) \<le> 5096" if "fmt = ''sha1'' \<or> fmt = ''sha256''" for fmt
  proof -
    have "list_all (\<lambda>c. c < 128) (capabilities name fmt)"
      using name(1) that by (auto simp: capabilities_def ustr_def)
    then show ?thesis using name(2) that by (auto simp: length_str_bytes_ascii capabilities_def)
  qed
  then have "length (str_bytes (capabilities name (if utf8_len oid = 64 then ''sha256'' else ''sha1''))) \<le> 5096"
    by simp
  with hex_oid_ascii [OF assms(3)] show ?thesis
    by (simp add: head_line_def Let_def length_str_bytes_ascii ustr)
qed

text \<open>
  For an eligible manifest the advertisement is built without a panic, its
  frames are the service line, the HEAD line with the object name of the branch
  HEAD refers to, and one line per ref, and a client reads the refs of the
  manifest back from them.
\<close>

lemma eligible_frames:
  assumes "fast_path_eligible m"
  shows "\<exists>oid out. map_of (refs m) (head m) = Some oid \<and> build_upload_pack_advertisement m = Some out
     \<and> pkt_payloads out 0 = service_line # head_line (head m) oid # map ref_line (refs m)
     \<and> map read_ref_line (map ref_line (refs m)) = map Some (refs m)"
proof -
  from assms obtain oid where oid: "map_of (refs m) (head m) = Some oid"
    unfolding fast_path_eligible_def bt_contains_def by (metis map_of_eq_None_iff not_None_eq image_set list.set_map)
  have all: "is_safe_refname name \<and> utf8_len name \<le> 4096 \<and> is_hex_oid oid" if "(name, oid) \<in> set (refs m)" for name oid
    using assms that by (auto simp: fast_path_eligible_def list_all_iff MAX_FAST_PATH_REFNAME_LEN_def)
  have lines: "list_all (\<lambda>e. length (ref_line e) \<le> 65531) (refs m)"
    using all ref_line_fits by (fastforce simp: list_all_iff)
  have first: "length (head_line (head m) oid) \<le> 65531"
    using all [OF map_of_SomeD [OF oid]] head_line_fits by blast
  have service: "length service_line \<le> 65531"
    by (simp add: service_line_def ustr_def str_bytes_def utf8_char_def)
  let ?ps = "head_line (head m) oid # map ref_line (refs m)"
  let ?out = "pkt service_line @ flush_pkt @ concat (map pkt ?ps) @ flush_pkt"
  have out: "build_upload_pack_advertisement m = Some ?out"
    using oid lines first service by (simp add: build_upload_pack_advertisement_def foldl_pkt_line pkt_line_fits)
  have "pkt_payloads ?out 0 = service_line # pkt_payloads ?out (length (pkt service_line))"
    using pkt_payloads_frames [of "[service_line]" "[]" "flush_pkt @ concat (map pkt ?ps) @ flush_pkt"] service by simp
  also have "pkt_payloads ?out (length (pkt service_line)) = pkt_payloads ?out (length (pkt service_line @ flush_pkt))"
    using pkt_payloads_flush [of "pkt service_line" "concat (map pkt ?ps) @ flush_pkt"] by (simp add: add.assoc)
  also have "\<dots> = ?ps"
    using pkt_payloads_stream [of ?ps "pkt service_line @ flush_pkt"] lines first by (simp add: list_all_iff)
  finally have frames: "pkt_payloads ?out 0 = service_line # ?ps" .
  have "map read_ref_line (map ref_line (refs m)) = map Some (refs m)"
    using all read_ref_line_inverse by auto
  with oid out frames show ?thesis by blast
qed

definition demo_manifest :: manifest where
  "demo_manifest = \<lparr>version = 1, head = ustr ''refs/heads/main'',
     refs = [(ustr ''refs/heads/main'', replicate 40 97)], packs = [], parent = None\<rparr>"

lemma demo_oid: "is_hex_oid (replicate 40 97)" "is_valid_oid (replicate 40 97)"
  by (simp_all add: is_hex_oid_def is_valid_oid_def utf8_len_ascii list_all_iff is_hexdigit_cp_def)

lemma demo_eligible: "fast_path_eligible demo_manifest"
  by (simp add: fast_path_eligible_def demo_manifest_def bt_contains_def is_safe_refname_def demo_oid
      starts_with_def ends_with_def ustr_def utf8_len_def utf8_char_len_def is_hexdigit_cp_def is_digit_cp_def
      is_ascii_alphanumeric_def MAX_FAST_PATH_REFNAME_LEN_def)


section \<open>The event names the committed refs\<close>

definition branch_or_tag :: "ustring \<Rightarrow> bool" where
  "branch_or_tag name \<longleftrightarrow> starts_with name (ustr ''refs/heads/'') \<or> starts_with name (ustr ''refs/tags/'')"

lemma safe_refname_emittable: "is_safe_refname name \<Longrightarrow> is_emittable_ref name \<longleftrightarrow> branch_or_tag name"
proof -
  assume safe: "is_safe_refname name"
  then have "\<not> starts_with name (ustr ''/'')" "\<not> contains_str name (ustr ''//'')"
    by (simp_all add: is_safe_refname_def split: if_splits)
  moreover have "list_all (\<lambda>c. is_ascii_alphanumeric c \<or> c \<in> set (ustr ''/_.-'')) name"
    using safe_refname_chars [OF safe] by (auto simp: list_all_iff ustr_def)
  ultimately show ?thesis by (simp add: is_emittable_ref_def branch_or_tag_def)
qed

lemma ref_tags_valid:
  assumes "manifest_ok m"
  shows "ref_tags (refs m) = map (\<lambda>(name, oid). [name, oid]) (filter (\<lambda>(name, _). branch_or_tag name) (refs m))"
proof -
  have "(case e of (name, oid) \<Rightarrow> is_emittable_ref name \<and> is_valid_oid oid) \<longleftrightarrow> (case e of (name, _) \<Rightarrow> branch_or_tag name)"
    if "e \<in> set (refs m)" for e
    using assms that safe_refname_emittable
    by (auto simp: manifest_ok_def list_all_iff is_valid_oid_def is_hex_oid_def)
  then show ?thesis unfolding ref_tags_def by (simp cong: filter_cong)
qed


definition demo_nostr :: nostr_env where
  "demo_nostr = \<lparr>public_key_from_hex = (\<lambda>s. Ok s), sign_with_keys = (\<lambda>_ _ _. Ok [])\<rparr>"

definition demo_event :: ref_state_event where
  "demo_event = \<lparr>event_kind = 30618, event_content = [], event_tags =
     [[ustr ''d'', ustr ''repo''], [ustr ''refs/heads/main'', replicate 40 97],
      [ustr ''HEAD'', ustr ''ref: refs/heads/main''], [ustr ''p'', ustr ''ab'']], event_signature = []\<rparr>"

lemma demo_manifest_ok: "manifest_ok demo_manifest"
  by (simp add: manifest_ok_def demo_manifest_def is_safe_refname_def demo_oid
      starts_with_def ends_with_def ustr_def utf8_len_def utf8_char_len_def is_hexdigit_cp_def is_digit_cp_def
      is_ascii_alphanumeric_def)



section \<open>Repositories do not share a pointer\<close>

text \<open>The hyphenated text of a UUID determines it and contains no slash.\<close>

definition uuid_display_ok :: "uuid_api \<Rightarrow> bool" where
  "uuid_display_ok U \<longleftrightarrow> inj (uuid_display U) \<and> (\<forall>u. slash \<notin> set (ustr (uuid_display U u)))"

lemma delimited_slash:
  "c \<notin> set xs \<Longrightarrow> c \<notin> set ys \<Longrightarrow> xs @ c # as = ys @ c # bs \<longleftrightarrow> xs = ys \<and> as = bs"
  by (induction xs arbitrary: ys; case_tac ys) auto

lemma validate_repo_id_Ok:
  assumes "validate_repo_id owner repo = Ok name"
  shows "slash \<notin> set owner" "slash \<notin> set name"
    "name = (case strip_suffix repo (ustr ''.git'') of Some r \<Rightarrow> r | None \<Rightarrow> repo)"
  using assms
  by (auto simp: validate_repo_id_def Let_def list_all_iff is_hexdigit_cp_def is_digit_cp_def
      is_ascii_alphanumeric_def split: if_splits)

text \<open>
  C40.  Two requests that pass validation reach the same pointer exactly when they
  name the same repository of the same owner in the same community, with or
  without the \<open>.git\<close> suffix.
\<close>

theorem pointer_key_isolates:
  assumes "uuid_display_ok U" "validate_repo_id owner repo = Ok name" "validate_repo_id owner' repo' = Ok name'"
  shows "pointer_key U community owner repo = pointer_key U community' owner' repo'
     \<longleftrightarrow> community = community' \<and> owner = owner' \<and> name = name'"
proof -
  have key: "pointer_key U c o' r = ustr ''repos/'' @ ustr (uuid_display U c) @ slash # o' @ slash # n @ ustr ''/pointer''"
    if "n = (case strip_suffix r (ustr ''.git'') of Some x \<Rightarrow> x | None \<Rightarrow> r)" for c o' r n
    using that by (simp add: pointer_key_def Let_def ustr_def)
  note v = validate_repo_id_Ok [OF assms(2)] validate_repo_id_Ok [OF assms(3)]
  have "slash \<notin> set (ustr (uuid_display U u))" "uuid_display U u = uuid_display U u' \<longleftrightarrow> u = u'" for u u'
    using assms(1) by (auto simp: uuid_display_ok_def inj_eq)
  with v show ?thesis by (simp add: key [OF v(3)] key [OF v(6)] delimited_slash)
qed


lemma hex_digit_inject: "a < 16 \<Longrightarrow> b < 16 \<Longrightarrow> hex_digit a = hex_digit b \<longleftrightarrow> a = b"
proof -
  assume ab: "a < 16" "b < 16"
  have "of_char (hex_digit n) = (if n < 10 then 48 + n else 87 + n)" if "n < 16" for n
    using that by (simp add: hex_digit_def)
  with ab have "hex_digit a = hex_digit b \<Longrightarrow> (if a < 10 then 48 + a else 87 + a) = (if b < 10 then 48 + b else 87 + b)"
    by metis
  then show ?thesis by (auto split: if_splits)
qed

lemma hex_byte_digits: "unat b div 16 < 16" "unat b mod 16 < 16" for b :: u8
proof -
  have "unat b < 2 ^ LENGTH(8)" by (rule unsigned_less)
  then show "unat b div 16 < 16" by simp
qed simp

lemma hex_byte_chars: "c \<in> set (hex_byte b) \<Longrightarrow> \<exists>n<16. c = hex_digit n"
  unfolding hex_byte_def using hex_byte_digits [of b] by (auto intro: exI [of _ "unat b mod 16"])

lemma hex_byte_inject: "hex_byte a = hex_byte b \<longleftrightarrow> a = b"
proof
  assume "hex_byte a = hex_byte b"
  then have "hex_digit (unat a div 16) = hex_digit (unat b div 16)" "hex_digit (unat a mod 16) = hex_digit (unat b mod 16)"
    unfolding hex_byte_def by blast+
  then have "unat a div 16 = unat b div 16" "unat a mod 16 = unat b mod 16"
    using hex_digit_inject hex_byte_digits by blast+
  then have "unat a = unat b" by (metis div_mult_mod_eq)
  then show "a = b" by (simp add: word_unat_eq_iff)
qed simp

lemma hex_bytes_inject:
  "length xs = length ys \<Longrightarrow> concat (map hex_byte xs) @ as = concat (map hex_byte ys) @ bs \<longleftrightarrow> xs = ys \<and> as = bs"
proof (induction xs ys rule: list_induct2)
  case (Cons x xs y ys)
  have "length (hex_byte x) = length (hex_byte y)" by (simp add: hex_byte_def)
  with Cons show ?case by (auto simp: hex_byte_inject)
qed simp

lemma rfc4122_display_ok: "uuid_display_ok rfc4122"
proof -
  have "layout_bytes u = layout_bytes v" if "layout_display u = layout_display v" for u v
  proof -
    have split: "bs = take 4 bs @ take 2 (drop 4 bs) @ take 2 (drop 6 bs) @ take 2 (drop 8 bs) @ take 6 (drop 10 bs)"
      if "length bs = 16" for bs :: "u8 list"
      using that by (simp add: take_drop [symmetric] flip: take_add drop_drop append_assoc)
    let ?p = "\<lambda>w i n. take n (drop i (layout_bytes w))"
    from that have "?p u 0 4 = ?p v 0 4 \<and> ?p u 4 2 = ?p v 4 2 \<and> ?p u 6 2 = ?p v 6 2 \<and> ?p u 8 2 = ?p v 8 2
        \<and> concat (map hex_byte (?p u 10 6)) = concat (map hex_byte (?p v 10 6))"
      by (simp add: layout_display_def Let_def hex_bytes_inject)
    then have "?p u 0 4 = ?p v 0 4" "?p u 4 2 = ?p v 4 2" "?p u 6 2 = ?p v 6 2" "?p u 8 2 = ?p v 8 2" "?p u 10 6 = ?p v 10 6"
      using hex_bytes_inject [of "?p u 10 6" "?p v 10 6" "[]" "[]"] by auto
    with split [of "layout_bytes u"] split [of "layout_bytes v"] show ?thesis
      by (metis drop0 length_layout_bytes)
  qed
  then have "inj layout_display" using layout_bytes_inj unfolding inj_def by blast
  moreover have "slash \<notin> set (ustr (layout_display u))" for u
  proof
    assume "slash \<in> set (ustr (layout_display u))"
    then obtain c where "c \<in> set (layout_display u)" and slash: "of_char c = slash" by (auto simp: ustr_def)
    then have "c = CHR ''-'' \<or> (\<exists>n<16. c = hex_digit n)"
      unfolding layout_display_def Let_def set_append set_concat set_map using hex_byte_chars by auto
    with slash show False by (auto simp: hex_digit_def split: if_splits)
  qed
  ultimately show ?thesis by (simp add: uuid_display_ok_def)
qed

definition demo_owner :: ustring where "demo_owner = replicate 64 97"

lemma demo_repo_valid:
  "validate_repo_id demo_owner (ustr ''app'') = Ok (ustr ''app'')"
  "validate_repo_id demo_owner (ustr ''app.git'') = Ok (ustr ''app'')"
  by (simp_all add: validate_repo_id_def demo_owner_def strip_suffix_def ends_with_def starts_with_def ustr_def
      utf8_len_ascii is_hexdigit_cp_def is_uppercase_cp_def list_all_iff is_ascii_alphanumeric_def is_digit_cp_def)

theorem pointer_key_isolates_witness:
  "pointer_key rfc4122 id_a demo_owner (ustr ''app'') = pointer_key rfc4122 id_a demo_owner (ustr ''app.git'')
   \<and> pointer_key rfc4122 id_a demo_owner (ustr ''app'') \<noteq> pointer_key rfc4122 id_b demo_owner (ustr ''app'')"
  using pointer_key_isolates [OF rfc4122_display_ok demo_repo_valid(1) demo_repo_valid(2), of id_a id_a]
    pointer_key_isolates [OF rfc4122_display_ok demo_repo_valid(1) demo_repo_valid(1), of id_a id_b]
  by simp

end
