(* ===== verification/Git_Transport.thy ===== *)
theory Git_Transport
  imports Git_Announce Git_Wire
begin

text \<open>
  The handlers of the Git HTTP endpoints, from
  \<open>buzz-relay/src/api/git/transport.rs\<close>, and what concurrent requests guarantee
  together: published histories never fork, a reported push stays published, and
  a reader sees committed states only.

  The subprocess runs, the semaphore and the hook installation are outside the
  model; \<open>push_env\<close> holds what they answer.  The insertion and fan-out of the
  derived event do not influence the response; the event that is handed to the
  database is part of the report.
\<close>

section \<open>The push request\<close>

definition RECEIVE_PACK_MAX_OUTPUT_BYTES :: nat where "RECEIVE_PACK_MAX_OUTPUT_BYTES = 1024 * 1024"

record pack_output =
  pack_stdout :: bytes
  pack_ok :: bool

record push_commit =
  commit_success :: cas_success
  commit_event :: "ref_state_event option"

datatype push_response =
    GitReport bytes "push_commit option"
  | PushError nat string
  | PushPanic

text \<open>
  A finished subprocess: its exit status and output.  The failures to start it, to
  wait for it and to read its output, and its timeout, carry their response.  A
  panic of the report scan is \<open>None\<close>.
\<close>

record process_result =
  exit_success :: bool
  process_stdout :: bytes

definition run_git_at ::
  "string \<Rightarrow> nat \<Rightarrow> (process_result, nat \<times> string) result \<Rightarrow> (pack_output, nat \<times> string) result option" where
  "run_git_at service max_output_bytes process =
     (case process of
        Err e \<Rightarrow> Some (Err e)
      | Ok r \<Rightarrow>
          if length (process_stdout r) > max_output_bytes then Some (Err (413, ''git output exceeds relay limits''))
          else Option.bind
            (if service = ''receive-pack'' then receive_pack_report_rejected (process_stdout r) else Some False)
            (\<lambda>report_rejected.
              Some (Ok \<lparr>pack_stdout = process_stdout r, pack_ok = exit_success r \<and> \<not> report_rejected\<rparr>)))"

definition hydrate_error_to_response :: "hydrate_error \<Rightarrow> nat \<times> string" where
  "hydrate_error_to_response e =
     (case e of
        HydrateResourceLimit _ \<Rightarrow> (413, ''repository exceeds relay resource limits'')
      | _ \<Rightarrow> (500, ''git backend hydration failed''))"

definition cas_error_response :: "cas_error \<Rightarrow> push_response" where
  "cas_error_response e =
     (case e of
        Conflict _ _ \<Rightarrow> PushError 409 ''push superseded by a concurrent writer; pull and retry''
      | ManifestInvalid _ \<Rightarrow> PushError 400 ''push produced invalid manifest state''
      | ResourceLimit _ \<Rightarrow> PushError 413 ''repository exceeds relay resource limits''
      | _ \<Rightarrow> PushError 500 ''git backend error'')"

definition manifest_changed :: "parent_state \<Rightarrow> cas_success \<Rightarrow> bool" where
  "manifest_changed ps s =
     (case (parent_digest ps, strip_prefix (success_key s) (ustr ''manifests/'')) of
        (Some before, Some after) \<Rightarrow> before \<noteq> after
      | _ \<Rightarrow> True)"

definition derived_event ::
  "nostr_env \<Rightarrow> ustring \<Rightarrow> ustring \<Rightarrow> parent_state \<Rightarrow> cas_success \<Rightarrow> ref_state_event option" where
  "derived_event N repo_id pusher_hex ps s =
     (if manifest_changed ps s then
        (case build_ref_state_event N
            \<lparr>inputs_repo_id = repo_id, inputs_head = head (success_manifest s),
             inputs_refs = refs (success_manifest s), actor_pubkey_hex = pusher_hex\<rparr> of
           Ok event \<Rightarrow> Some event
         | Err _ \<Rightarrow> None)
      else None)"

record push_context =
  ctx_pack :: pack_output
  ctx_parent_state :: parent_state
  ctx_owner :: ustring
  ctx_repo :: ustring
  ctx_repo_id :: ustring
  ctx_pusher_hex :: ustring
  ctx_community :: uuid
  ctx_workspace :: git_env
  ctx_limits :: publish_limits

definition finalize_push ::
  "uuid_api \<Rightarrow> store_env \<Rightarrow> manifest_codec \<Rightarrow> nostr_env \<Rightarrow> push_context \<Rightarrow> push_response prog" where
  "finalize_push U G J N ctx =
     (if \<not> pack_ok (ctx_pack ctx) then Return (GitReport (pack_stdout (ctx_pack ctx)) None)
      else bind_p (cas_publish U G J (ctx_workspace ctx) (ctx_community ctx) (ctx_owner ctx) (ctx_repo ctx)
                     (ctx_parent_state ctx) (ctx_limits ctx)) (\<lambda>r.
        Return (case r of
          Err e \<Rightarrow> cas_error_response e
        | Ok s \<Rightarrow> GitReport (pack_stdout (ctx_pack ctx)) (Some
            \<lparr>commit_success = s,
             commit_event = derived_event N (ctx_repo_id ctx) (ctx_pusher_hex ctx) (ctx_parent_state ctx) s\<rparr>))))"

text \<open>
  The answers of the environment to one push.  \<open>receive_process\<close> is the run of
  \<open>git receive-pack\<close> over the workspace hydrated from the parent state, and
  \<open>workspace\<close> what it leaves behind.
\<close>

record push_env =
  permit :: bool
  hydration :: hydrate_env
  hook_installed :: bool
  receive_process :: "parent_state \<Rightarrow> (process_result, nat \<times> string) result"
  workspace :: "parent_state \<Rightarrow> git_env"

record push_request =
  push_community :: uuid
  push_owner :: ustring
  push_repo :: ustring
  pusher_hex :: ustring

record git_config =
  git_max_pack_bytes :: u64
  git_max_repo_bytes :: u64

definition receive_pack ::
  "uuid_api \<Rightarrow> store_env \<Rightarrow> manifest_codec \<Rightarrow> nostr_env \<Rightarrow> git_config \<Rightarrow> push_env \<Rightarrow> push_request \<Rightarrow> push_response prog" where
  "receive_pack U G J N cfg env req =
     (case validate_repo_id (push_owner req) (push_repo req) of
        Err message \<Rightarrow> Return (PushError 400 message)
      | Ok repo_name \<Rightarrow>
          if \<not> permit env then Return (PushError 503 ''git service busy'')
          else bind_p (hydrate_for_write U G J (hydration env)
              \<lparr>parent_hydrated_bytes = 0, max_pack_bytes = git_max_pack_bytes cfg, max_repo_bytes = git_max_repo_bytes cfg\<rparr>
              (push_community req) (push_owner req) (push_repo req)) (\<lambda>hydrated.
            case hydrated of
              Err e \<Rightarrow> Return (case hydrate_error_to_response e of (code, message) \<Rightarrow> PushError code message)
            | Ok (hydrated_bytes, ps) \<Rightarrow>
                if \<not> hook_installed env then Return (PushError 500 ''git hook install failed'')
                else (case run_git_at ''receive-pack'' RECEIVE_PACK_MAX_OUTPUT_BYTES (receive_process env ps) of
                    None \<Rightarrow> Return PushPanic
                  | Some (Err (code, message)) \<Rightarrow> Return (PushError code message)
                  | Some (Ok pack) \<Rightarrow> finalize_push U G J N
                      \<lparr>ctx_pack = pack, ctx_parent_state = ps, ctx_owner = push_owner req, ctx_repo = push_repo req,
                       ctx_repo_id = repo_name, ctx_pusher_hex = pusher_hex req, ctx_community = push_community req,
                       ctx_workspace = workspace env ps,
                       ctx_limits = \<lparr>parent_hydrated_bytes = hydrated_bytes, max_pack_bytes = git_max_pack_bytes cfg,
                         max_repo_bytes = git_max_repo_bytes cfg\<rparr>\<rparr>)))"


section \<open>The read request\<close>

datatype info_response =
    Advertisement bytes
  | SubprocessAdvertisement
  | InfoError nat string
  | InfoPanic

record info_request =
  info_community :: uuid
  info_owner :: ustring
  info_repo :: ustring
  service :: ustring

definition info_refs :: "uuid_api \<Rightarrow> store_env \<Rightarrow> manifest_codec \<Rightarrow> info_request \<Rightarrow> info_response prog" where
  "info_refs U G J req =
     (if service req \<noteq> ustr ''git-upload-pack'' \<and> service req \<noteq> ustr ''git-receive-pack''
      then Return (InfoError 400 ''invalid service'')
      else case validate_repo_id (info_owner req) (info_repo req) of
        Err message \<Rightarrow> Return (InfoError 400 message)
      | Ok _ \<Rightarrow>
          if service req = ustr ''git-upload-pack'' then
            bind_p (load_manifest_for_read U G J (info_community req) (info_owner req) (info_repo req)) (\<lambda>r.
              Return (case r of
                Ok (Some m) \<Rightarrow>
                  if fast_path_eligible m
                  then (case build_upload_pack_advertisement m of Some body \<Rightarrow> Advertisement body | None \<Rightarrow> InfoPanic)
                  else SubprocessAdvertisement
              | Ok None \<Rightarrow> InfoError 404 ''repository not found''
              | Err e \<Rightarrow> (case hydrate_error_to_response e of (code, message) \<Rightarrow> InfoError code message)))
          else Return SubprocessAdvertisement)"


section \<open>The service\<close>

text \<open>
  The requests that touch the store: pushes, reads of the refs, and announcements,
  which reach the relay as events.  \<open>upload_pack\<close> only reads the store.
\<close>

datatype git_request =
    PushRequest push_env push_request
  | InfoRequest info_request
  | AnnounceRequest announce_request

datatype git_response =
    PushResponse push_response
  | InfoResponse info_response
  | AnnounceResponse "(unit, seed_error) result"

definition serve ::
  "uuid_api \<Rightarrow> store_env \<Rightarrow> manifest_codec \<Rightarrow> nostr_env \<Rightarrow> git_config \<Rightarrow> git_request \<Rightarrow> git_response prog" where
  "serve U G J N cfg req =
     (case req of
        PushRequest env r \<Rightarrow> bind_p (receive_pack U G J N cfg env r) (\<lambda>x. Return (PushResponse x))
      | InfoRequest r \<Rightarrow> bind_p (info_refs U G J r) (\<lambda>x. Return (InfoResponse x))
      | AnnounceRequest r \<Rightarrow> bind_p (announce_pointer U G J r) (\<lambda>x. Return (AnnounceResponse x)))"



section \<open>Histories are linear\<close>

lemma history_unique: "history G J c d ms \<Longrightarrow> history G J c d ms' \<Longrightarrow> ms = ms'"
proof (induction arbitrary: ms' rule: history.induct)
  case (history_root d m)
  from history_root.prems show ?case
    by cases (use history_root.hyps manifest_at_unique in \<open>fastforce+\<close>)
next
  case (history_push d m d' ms)
  from history_push.prems show ?case
  proof cases
    case (history_root m')
    with history_push.hyps manifest_at_unique show ?thesis by fastforce
  next
    case (history_push m' d'' ns)
    with history_push.hyps manifest_at_unique have "m' = m" "d'' = d'" by fastforce+
    with history_push history_push.IH show ?thesis by blast
  qed
qed

lemma own_parent_impossible:
  assumes "history G J c d ms" "manifest_at G J c d m"
  shows "parent m \<noteq> Some d"
proof
  assume parent: "parent m = Some d"
  from assms(1) show False
  proof cases
    case (history_root m')
    with assms(2) parent manifest_at_unique show ?thesis by fastforce
  next
    case (history_push m' d' ns)
    with assms(2) parent manifest_at_unique have "d' = d" by fastforce
    with history_push assms(1) have "ns = m' # ns" using history_unique by blast
    then show ?thesis by simp
  qed
qed

lemma descends_comparable:
  "descends G J c e d1 \<Longrightarrow> descends G J c e d2 \<Longrightarrow> descends G J c d1 d2 \<or> descends G J c d2 d1"
proof (induction rule: descends.induct)
  case (descends_push d m d' e)
  from descends_push.prems show ?case
  proof cases
    case descends_refl
    with descends_push.hyps show ?thesis by (metis descends.descends_push)
  next
    case (descends_push m' d'')
    with descends_push.hyps manifest_at_unique have "d'' = d'" by fastforce
    with descends_push descends_push.IH show ?thesis by blast
  qed
qed blast

lemma published_manifest_changed:
  assumes inv: "store_inv G J B c" and k: "is_pointer_key pkey" and pub: "published G J c pkey s"
    and parent: "parent (success_manifest s) = parent_digest ps"
  shows "manifest_changed ps s"
proof -
  from pub obtain d e where d: "success_key s = manifest_key d" "manifest_at G J c d (success_manifest s)"
    and e: "is_manifest_digest e" "c pkey = Some (str_bytes e)" "descends G J c e d"
    unfolding published_def by blast
  from pointer_history [OF inv k e(2,1)] descends_history [OF e(3)] obtain old where "history G J c d old" by blast
  from own_parent_impossible [OF this d(2)] parent have "parent_digest ps \<noteq> Some d" by simp
  moreover have "strip_prefix (success_key s) (ustr ''manifests/'') = Some d"
    by (simp add: d(1) manifest_key_def strip_prefix_Some_iff)
  ultimately show ?thesis by (auto simp: manifest_changed_def split: option.split)
qed


section \<open>What a response promises\<close>

text \<open>
  A report with a commit: the manifest is published under the pointer of the
  repository, and the event is the one built from it.  An advertisement: the
  bytes are those of a manifest on the pointer's history.  An accepted
  announcement: the repository has a pointer.
\<close>

definition push_promise ::
  "uuid_api \<Rightarrow> store_env \<Rightarrow> manifest_codec \<Rightarrow> nostr_env \<Rightarrow> push_request \<Rightarrow> push_commit \<Rightarrow> contents \<Rightarrow> bool" where
  "push_promise U G J N req k c \<longleftrightarrow>
     published G J c (pointer_key U (push_community req) (push_owner req) (push_repo req)) (commit_success k)
     \<and> (\<exists>repo_name. validate_repo_id (push_owner req) (push_repo req) = Ok repo_name
        \<and> commit_event k = (case build_ref_state_event N
            \<lparr>inputs_repo_id = repo_name, inputs_head = head (success_manifest (commit_success k)),
             inputs_refs = refs (success_manifest (commit_success k)), actor_pubkey_hex = pusher_hex req\<rparr> of
           Ok event \<Rightarrow> Some event | Err _ \<Rightarrow> None))"

definition info_promise :: "uuid_api \<Rightarrow> store_env \<Rightarrow> manifest_codec \<Rightarrow> info_request \<Rightarrow> bytes \<Rightarrow> contents \<Rightarrow> bool" where
  "info_promise U G J req out c \<longleftrightarrow>
     (\<exists>d m. manifest_at G J c d m \<and> reached G J c (pointer_key U (info_community req) (info_owner req) (info_repo req)) d
        \<and> fast_path_eligible m \<and> build_upload_pack_advertisement m = Some out)"

definition promise ::
  "uuid_api \<Rightarrow> store_env \<Rightarrow> manifest_codec \<Rightarrow> nostr_env \<Rightarrow> git_request \<Rightarrow> git_response \<Rightarrow> contents \<Rightarrow> bool" where
  "promise U G J N req resp c \<longleftrightarrow>
     (case (req, resp) of
        (PushRequest env r, PushResponse (GitReport out (Some k))) \<Rightarrow> push_promise U G J N r k c
      | (InfoRequest r, InfoResponse (Advertisement out)) \<Rightarrow> info_promise U G J r out c
      | (InfoRequest r, InfoResponse InfoPanic) \<Rightarrow> False
      | (AnnounceRequest r, AnnounceResponse (Ok _)) \<Rightarrow>
          pointer_set (pointer_key U (announce_community r) (announce_owner r) (announce_repo r)) c
      | _ \<Rightarrow> True)"

lemma eligible_advertises: "fast_path_eligible m \<Longrightarrow> \<exists>out. build_upload_pack_advertisement m = Some out"
  unfolding fast_path_eligible_def bt_contains_def build_upload_pack_advertisement_def
  by (auto split: option.split simp: map_of_eq_None_iff)

context publication
begin

lemma ensures_Return: "(\<And>c'. evolves G J c c' \<Longrightarrow> inv c' \<Longrightarrow> Q x c') \<Longrightarrow> ensures Q (Return x) c"
  by (simp add: safe.simps)

abbreviation push_done :: "uuid_api \<Rightarrow> nostr_env \<Rightarrow> push_request \<Rightarrow> push_response \<Rightarrow> contents \<Rightarrow> bool" where
  "push_done U N req \<equiv> \<lambda>resp c. \<forall>out k. resp = GitReport out (Some k) \<longrightarrow> push_promise U G J N req k c"

lemma ensures_finalize_push:
  assumes c: "inv c" and ps: "parent_ok etag_of c (ctx_parent_state ctx)"
    and ctx: "ctx_community ctx = push_community req" "ctx_owner ctx = push_owner req" "ctx_repo ctx = push_repo req"
      "ctx_pusher_hex ctx = pusher_hex req" "validate_repo_id (push_owner req) (push_repo req) = Ok (ctx_repo_id ctx)"
  shows "ensures (push_done U N req) (finalize_push U G J N ctx) c"
proof (cases "pack_ok (ctx_pack ctx)")
  case False
  then show ?thesis by (simp add: finalize_push_def ensures_Return)
next
  case True
  let ?k = "pointer_key U (push_community req) (push_owner req) (push_repo req)"
  let ?ps = "ctx_parent_state ctx"
  have "ensures (push_done U N req) (Return (case r of
          Err e \<Rightarrow> cas_error_response e
        | Ok s \<Rightarrow> GitReport (pack_stdout (ctx_pack ctx)) (Some
            \<lparr>commit_success = s,
             commit_event = derived_event N (ctx_repo_id ctx) (ctx_pusher_hex ctx) ?ps s\<rparr>))) c1"
    if r: "yields_ok (committed ?k ?ps) r c1" for r c1
  proof (cases r)
    case (Err e)
    then show ?thesis
      by (auto intro!: ensures_Return simp: cas_error_response_def split: cas_error.splits)
  next
    case (Ok s)
    with r have s: "published G J c1 ?k s" "parent (success_manifest s) = parent_digest ?ps"
      by (simp_all add: committed_def)
    have "push_promise U G J N req
        \<lparr>commit_success = s, commit_event = derived_event N (ctx_repo_id ctx) (ctx_pusher_hex ctx) ?ps s\<rparr> c2"
      if "evolves G J c1 c2" "inv c2" for c2
    proof -
      from s(1) have pub: "published G J c2 ?k s"
        by (rule published_evolves [OF _ pointer_key_is_pointer that(1)])
      then have "manifest_changed ?ps s"
        by (rule published_manifest_changed [OF that(2) pointer_key_is_pointer _ s(2)])
      with pub ctx show ?thesis by (simp add: push_promise_def derived_event_def)
    qed
    then show ?thesis unfolding Ok result.case by (intro ensures_Return) blast
  qed
  with True ctx show ?thesis
    unfolding finalize_push_def cas_publish_def
    by (simp add: published.safe_seq [OF yields_cas_publish_inner [OF c pointer_key_is_pointer ps] c])
qed

lemma ensures_receive_pack:
  assumes c: "inv c"
  shows "ensures (push_done U N req) (receive_pack U G J N cfg env req) c"
proof (cases "validate_repo_id (push_owner req) (push_repo req)")
  case (Err e)
  then show ?thesis by (simp add: receive_pack_def ensures_Return)
next
  case (Ok name)
  let ?limits = "\<lambda>n. \<lparr>parent_hydrated_bytes = n, max_pack_bytes = git_max_pack_bytes cfg, max_repo_bytes = git_max_repo_bytes cfg\<rparr>"
  have run: "ensures (push_done U N req) (case hydrated of
        Err e \<Rightarrow> Return (case hydrate_error_to_response e of (code, message) \<Rightarrow> PushError code message)
      | Ok (hydrated_bytes, ps) \<Rightarrow>
          if \<not> hook_installed env then Return (PushError 500 ''git hook install failed'')
          else (case run_git_at ''receive-pack'' RECEIVE_PACK_MAX_OUTPUT_BYTES (receive_process env ps) of
              None \<Rightarrow> Return PushPanic
            | Some (Err (code, message)) \<Rightarrow> Return (PushError code message)
            | Some (Ok pack) \<Rightarrow> finalize_push U G J N
                \<lparr>ctx_pack = pack, ctx_parent_state = ps, ctx_owner = push_owner req, ctx_repo = push_repo req,
                 ctx_repo_id = name, ctx_pusher_hex = pusher_hex req, ctx_community = push_community req,
                 ctx_workspace = workspace env ps, ctx_limits = ?limits hydrated_bytes\<rparr>)) c1"
    if "inv c1" "yields_ok (\<lambda>r c. parent_ok etag_of c (snd r)) hydrated c1" for hydrated c1
  proof (cases hydrated)
    case (Err e)
    then show ?thesis by (auto intro!: ensures_Return split: prod.splits)
  next
    case h: (Ok x)
    obtain n ps where x: "x = (n, ps)" by (cases x)
    with that h have "parent_ok etag_of c1 ps" by simp
    then have "ensures (push_done U N req) (finalize_push U G J N
        \<lparr>ctx_pack = pack, ctx_parent_state = ps, ctx_owner = push_owner req, ctx_repo = push_repo req,
         ctx_repo_id = name, ctx_pusher_hex = pusher_hex req, ctx_community = push_community req,
         ctx_workspace = workspace env ps, ctx_limits = ?limits n\<rparr>) c1" for pack
      using that(1) Ok by (intro ensures_finalize_push) simp_all
    then show ?thesis
      by (simp add: h x ensures_Return split: option.split result.split prod.split)
  qed
  show ?thesis
  proof (cases "permit env")
    case True
    show ?thesis
      unfolding receive_pack_def Ok result.case
      by (simp only: True not_True_eq_False if_False)
        (rule published.safe_seq [OF yields_hydrate_for_write [OF c] c], rule run)
  next
    case False
    then show ?thesis by (simp add: receive_pack_def Ok ensures_Return)
  qed
qed

lemma yields_load_manifest:
  assumes "inv c"
  shows "yields (\<lambda>r c. \<forall>m. r = Some m \<longrightarrow>
      (\<exists>d. manifest_at G J c d m \<and> reached G J c (pointer_key U community owner repo) d))
    (load_manifest_for_read U G J community owner repo) c"
  unfolding load_manifest_for_read_def
proof (rule yields_try [OF yields_load_pointer [OF assms] assms], rule yields_Ok, intro allI impI)
  fix found m and c1 c2 :: contents
  assume found: "\<forall>etag d m. found = Some (etag, d, m) \<longrightarrow>
      etag = etag_of (str_bytes d) \<and> manifest_at G J c1 d m \<and> reached G J c1 (pointer_key U community owner repo) d"
    and "map_option (\<lambda>(_, _, m). m) found = Some m" and ev: "evolves G J c1 c2"
  then obtain etag d where "found = Some (etag, d, m)" by auto
  with found have "manifest_at G J c1 d m" "reached G J c1 (pointer_key U community owner repo) d" by blast+
  with ev show "\<exists>d. manifest_at G J c2 d m \<and> reached G J c2 (pointer_key U community owner repo) d"
    using manifest_at_evolves reached_evolves [OF _ pointer_key_is_pointer] by blast
qed

lemma info_promise_evolves: "info_promise U G J req out c \<Longrightarrow> evolves G J c c' \<Longrightarrow> info_promise U G J req out c'"
  unfolding info_promise_def using manifest_at_evolves reached_evolves [OF _ pointer_key_is_pointer] by blast

abbreviation info_done :: "uuid_api \<Rightarrow> info_request \<Rightarrow> info_response \<Rightarrow> contents \<Rightarrow> bool" where
  "info_done U req \<equiv> \<lambda>resp c. resp \<noteq> InfoPanic \<and> (\<forall>out. resp = Advertisement out \<longrightarrow> info_promise U G J req out c)"

lemma ensures_info_refs:
  assumes c: "inv c"
  shows "ensures (info_done U req) (info_refs U G J req) c"
proof -
  let ?k = "pointer_key U (info_community req) (info_owner req) (info_repo req)"
  have answer: "ensures (info_done U req) (Return (case r of
        Ok (Some m) \<Rightarrow>
          if fast_path_eligible m
          then (case build_upload_pack_advertisement m of Some body \<Rightarrow> Advertisement body | None \<Rightarrow> InfoPanic)
          else SubprocessAdvertisement
      | Ok None \<Rightarrow> InfoError 404 ''repository not found''
      | Err e \<Rightarrow> (case hydrate_error_to_response e of (code, message) \<Rightarrow> InfoError code message))) c1"
    if r: "yields_ok (\<lambda>r c. \<forall>m. r = Some m \<longrightarrow> (\<exists>d. manifest_at G J c d m \<and> reached G J c ?k d)) r c1" for r c1
  proof (cases "\<exists>m. r = Ok (Some m) \<and> fast_path_eligible m")
    case True
    then obtain m out where m: "r = Ok (Some m)" "fast_path_eligible m" "build_upload_pack_advertisement m = Some out"
      using eligible_advertises by blast
    with r have "info_promise U G J req out c1" unfolding info_promise_def by auto
    then have "info_promise U G J req out c2" if "evolves G J c1 c2" for c2
      using info_promise_evolves that by blast
    with m show ?thesis by (simp add: ensures_Return)
  next
    case False
    then show ?thesis by (auto intro!: ensures_Return split: result.splits option.splits prod.splits)
  qed
  show ?thesis
    unfolding info_refs_def
    using published.safe_seq [OF yields_load_manifest [OF c] c answer]
    by (auto simp: ensures_Return split: result.split)
qed

lemma ensures_serve:
  assumes "inv c"
  shows "ensures (promise U G J N req) (serve U G J N cfg req) c"
proof (cases req)
  case (PushRequest env r)
  have "ensures (promise U G J N req) (Return (PushResponse x)) c1" if "push_done U N r x c1" for x c1
    using that published_evolves [OF _ pointer_key_is_pointer]
    by (intro ensures_Return)
      (auto simp: promise_def PushRequest push_promise_def split: push_response.split option.split)
  then show ?thesis
    unfolding serve_def PushRequest git_request.case
    by (rule published.safe_seq [OF ensures_receive_pack [OF assms] assms])
next
  case (InfoRequest r)
  have "ensures (promise U G J N req) (Return (InfoResponse x)) c1" if "info_done U r x c1" for x c1
    using that info_promise_evolves
    by (intro ensures_Return) (auto simp: promise_def InfoRequest split: info_response.split)
  then show ?thesis
    unfolding serve_def InfoRequest git_request.case
    by (rule published.safe_seq [OF ensures_info_refs [OF assms] assms])
next
  case (AnnounceRequest r)
  let ?k = "pointer_key U (announce_community r) (announce_owner r) (announce_repo r)"
  have "ensures (promise U G J N req) (Return (AnnounceResponse x)) c1"
    if "yields_ok (\<lambda>_. pointer_set ?k) x c1" for x c1
    using that pointer_set_evolves [OF _ pointer_key_is_pointer]
    by (intro ensures_Return) (auto simp: promise_def AnnounceRequest split: result.split)
  then show ?thesis
    unfolding serve_def AnnounceRequest git_request.case
    by (rule published.safe_seq [OF yields_announce_pointer [OF assms] assms])
qed

end

sublocale publication \<subseteq> served: safe_pool put_rel get_rel head_rel contents etag_of "store_inv G J B" "evolves G J" B
    "\<lambda>i. serve U G J N cfg (reqs i)" "\<lambda>i. promise U G J N (reqs i)" for U N cfg reqs
  by unfold_locales (rule ensures_serve)



section \<open>Concurrent requests\<close>

text \<open>
  One step of the service: a request starts, or one of its store requests is
  answered.  Thread \<open>i\<close> serves request \<open>reqs i\<close>.
\<close>

abbreviation git_step ::
  "('b \<Rightarrow> ustring \<Rightarrow> bytes \<Rightarrow> precond \<Rightarrow> (response, s3_error) result \<Rightarrow> 'b \<Rightarrow> bool)
   \<Rightarrow> ('b \<Rightarrow> ustring \<Rightarrow> (response, s3_error) result \<Rightarrow> bool)
   \<Rightarrow> ('b \<Rightarrow> ustring \<Rightarrow> (head_result \<times> nat, s3_error) result \<Rightarrow> bool)
   \<Rightarrow> bytes set \<Rightarrow> uuid_api \<Rightarrow> store_env \<Rightarrow> manifest_codec \<Rightarrow> nostr_env \<Rightarrow> git_config \<Rightarrow> (nat \<Rightarrow> git_request)
   \<Rightarrow> 'b \<times> git_response pool \<Rightarrow> nat \<Rightarrow> 'b \<times> git_response pool \<Rightarrow> bool" where
  "git_step put_rel get_rel head_rel B U G J N cfg reqs \<equiv>
     pool_step put_rel get_rel head_rel (\<lambda>i. serve U G J N cfg (reqs i)) B"

lemma publicationI:
  "object_store put_rel get_rel contents etag_of \<Longrightarrow> sha_ok G B \<Longrightarrow> codec_ok J \<Longrightarrow>
   publication put_rel get_rel contents etag_of G J B"
  by (simp add: publication_def publication_axioms_def)

lemma empty_store_inv: "store_inv G J B (\<lambda>_. None)"
  by (simp add: store_inv_def)

context publication
begin

text \<open>A run from an empty store, and its continuation.\<close>

lemma served_run:
  assumes start: "contents b0 = (\<lambda>_. None)"
    and run: "steps (git_step put_rel get_rel head_rel B U G J N cfg reqs) (b0, \<lambda>_. None) es s"
    and more: "steps (git_step put_rel get_rel head_rel B U G J N cfg reqs) s es' t"
  shows "inv (contents (fst s))" "inv (contents (fst t))" "evolves G J (contents (fst s)) (contents (fst t))"
    and "snd s i = Some (Return r) \<Longrightarrow> promise U G J N (reqs i) r (contents (fst t))"
proof -
  have "served.pool_safe U N reqs (b0, \<lambda>_. None)"
    by (rule served.pool_start_safe) (simp add: start empty_store_inv)
  from served.pool_run_safe [OF run this] have s: "served.pool_safe U N reqs s" by blast
  from served.pool_run_safe [OF more s] have t: "served.pool_safe U N reqs t"
    and "evolves G J (contents (fst s)) (contents (fst t))" by blast+
  then show "inv (contents (fst s))" "inv (contents (fst t))" "evolves G J (contents (fst s)) (contents (fst t))"
    using s unfolding served.pool_safe_def by blast+
  show "promise U G J N (reqs i) r (contents (fst t))" if "snd s i = Some (Return r)"
    by (rule served.pool_result [OF more s that])
qed

end

text \<open>
  C2.  Published histories only grow.  Whatever pushes, reads and announcements run concurrently,
  from an empty store and with any answers the store may give, a pointer that is
  set names the digest of a complete chain of stored, valid manifests; and at any
  later time it names a chain that ends in that one.  No published state is lost
  or forked away.
\<close>

theorem published_histories_grow:
  assumes "object_store put_rel get_rel contents etag_of" "sha_ok G B" "codec_ok J"
    and "contents b0 = (\<lambda>_. None)"
    and "steps (git_step put_rel get_rel head_rel B U G J N cfg reqs) (b0, \<lambda>_. None) es s"
    and "steps (git_step put_rel get_rel head_rel B U G J N cfg reqs) s es' t"
    and "contents (fst s) (pointer_key U community owner repo) = Some v"
  shows "\<exists>d ms d' new. v = str_bytes d \<and> history G J (contents (fst s)) d ms
     \<and> contents (fst t) (pointer_key U community owner repo) = Some (str_bytes d')
     \<and> history G J (contents (fst t)) d' (new @ ms)"
proof -
  note run = publication.served_run [OF publicationI [OF assms(1-3)] assms(4-6)]
  let ?k = "pointer_key U community owner repo"
  have k: "is_pointer_key ?k" by (rule pointer_key_is_pointer)
  from run(1) assms(7) k obtain d ms where d: "v = str_bytes d" "is_manifest_digest d"
    "history G J (contents (fst s)) d ms"
    unfolding store_inv_def by blast
  from run(3) k d(1,2) assms(7) obtain d' where d': "is_manifest_digest d'"
    "contents (fst t) ?k = Some (str_bytes d')" "descends G J (contents (fst t)) d' d"
    unfolding evolves_def by blast
  from pointer_history [OF run(2) k d'(2,1)] obtain ms' where ms': "history G J (contents (fst t)) d' ms'" by blast
  from descends_history [OF d'(3) ms'] obtain new old where "ms' = new @ old" "history G J (contents (fst t)) d old"
    by blast
  moreover have "history G J (contents (fst t)) d ms"
    using d(3) evolves_persists [OF run(3)] by (rule history_persists)
  ultimately show ?thesis using d d' ms' history_unique by blast
qed

text \<open>
  C4.  A reported push is durable and announced as it was committed: once a push
  has answered with a commit, then at every later time its manifest is stored
  and on the history its repository's pointer names, and the event it handed on is
  the one built from that manifest's refs under the validated repository name.
\<close>

theorem reported_push_durable:
  assumes "object_store put_rel get_rel contents etag_of" "sha_ok G B" "codec_ok J"
    and "contents b0 = (\<lambda>_. None)"
    and "steps (git_step put_rel get_rel head_rel B U G J N cfg reqs) (b0, \<lambda>_. None) es s"
    and "steps (git_step put_rel get_rel head_rel B U G J N cfg reqs) s es' t"
    and "reqs i = PushRequest env req" "snd s i = Some (Return (PushResponse (GitReport out (Some k))))"
  shows "push_promise U G J N req k (contents (fst t))"
  using publication.served_run(4) [OF publicationI [OF assms(1-3)] assms(4-6) assms(8)] assms(7)
  by (simp add: promise_def)

text \<open>
  A repository whose announcement was accepted has a pointer at every later time.
\<close>

theorem announced_pointer_kept:
  assumes "object_store put_rel get_rel contents etag_of" "sha_ok G B" "codec_ok J"
    and "contents b0 = (\<lambda>_. None)"
    and "steps (git_step put_rel get_rel head_rel B U G J N cfg reqs) (b0, \<lambda>_. None) es s"
    and "steps (git_step put_rel get_rel head_rel B U G J N cfg reqs) s es' t"
    and "reqs i = AnnounceRequest req" "snd s i = Some (Return (AnnounceResponse (Ok u)))"
  shows "pointer_set (pointer_key U (announce_community req) (announce_owner req) (announce_repo req)) (contents (fst t))"
  using publication.served_run(4) [OF publicationI [OF assms(1-3)] assms(4-6) assms(8)] assms(7)
  by (simp add: promise_def)

text \<open>
  C6.  Two reported pushes to one repository never fork: one of the two committed
  manifests descends from the other.
\<close>

theorem reported_pushes_ordered:
  assumes "object_store put_rel get_rel contents etag_of" "sha_ok G B" "codec_ok J"
    and "contents b0 = (\<lambda>_. None)"
    and "steps (git_step put_rel get_rel head_rel B U G J N cfg reqs) (b0, \<lambda>_. None) es s"
    and "reqs i = PushRequest env req" "snd s i = Some (Return (PushResponse (GitReport out (Some k))))"
    and "reqs j = PushRequest env' req'" "snd s j = Some (Return (PushResponse (GitReport out' (Some k'))))"
    and "pointer_key U (push_community req) (push_owner req) (push_repo req)
      = pointer_key U (push_community req') (push_owner req') (push_repo req')"
  shows "\<exists>d d'. success_key (commit_success k) = manifest_key d \<and> success_key (commit_success k') = manifest_key d'
     \<and> (descends G J (contents (fst s)) d d' \<or> descends G J (contents (fst s)) d' d)"
proof -
  note promise = publication.served_run(4) [OF publicationI [OF assms(1-3)] assms(4,5) steps.steps_Nil]
  let ?k = "pointer_key U (push_community req) (push_owner req) (push_repo req)"
  have "published G J (contents (fst s)) ?k (commit_success k)"
    "published G J (contents (fst s)) ?k (commit_success k')"
    using promise [OF assms(7)] promise [OF assms(9)] assms(6,8,10)
    by (simp_all add: promise_def push_promise_def)
  then obtain d e d' e' where "success_key (commit_success k) = manifest_key d" "success_key (commit_success k') = manifest_key d'"
    and e: "is_manifest_digest e" "contents (fst s) ?k = Some (str_bytes e)" "descends G J (contents (fst s)) e d"
      "is_manifest_digest e'" "contents (fst s) ?k = Some (str_bytes e')" "descends G J (contents (fst s)) e' d'"
    unfolding published_def by blast
  moreover from e have "e = e'" by (simp add: str_bytes_digest_inject)
  ultimately show ?thesis using descends_comparable by blast
qed

text \<open>
  C9.  A reader sees committed states only: an advertisement served from the
  manifest frames exactly the HEAD line and the refs of a stored manifest on the
  history of the pointer, at every later time too, and building it never panics.
\<close>

theorem advertised_refs_committed:
  assumes "object_store put_rel get_rel contents etag_of" "sha_ok G B" "codec_ok J"
    and "contents b0 = (\<lambda>_. None)"
    and "steps (git_step put_rel get_rel head_rel B U G J N cfg reqs) (b0, \<lambda>_. None) es s"
    and "steps (git_step put_rel get_rel head_rel B U G J N cfg reqs) s es' t"
    and "reqs i = InfoRequest req" "snd s i = Some (Return (InfoResponse resp))"
  shows "resp \<noteq> InfoPanic \<and> (\<forall>out. resp = Advertisement out \<longrightarrow>
     (\<exists>d m oid. manifest_at G J (contents (fst t)) d m
        \<and> reached G J (contents (fst t)) (pointer_key U (info_community req) (info_owner req) (info_repo req)) d
        \<and> map_of (refs m) (head m) = Some oid
        \<and> pkt_payloads out 0 = service_line # head_line (head m) oid # map ref_line (refs m)))"
proof -
  have p: "promise U G J N (reqs i) (InfoResponse resp) (contents (fst t))"
    by (rule publication.served_run(4) [OF publicationI [OF assms(1-3)] assms(4-6) assms(8)])
  show ?thesis
  proof (intro conjI allI impI)
    show "resp \<noteq> InfoPanic" using p assms(7) by (auto simp: promise_def)
    fix out
    assume "resp = Advertisement out"
    with p assms(7) obtain d m where m: "manifest_at G J (contents (fst t)) d m" "fast_path_eligible m"
      "build_upload_pack_advertisement m = Some out"
      "reached G J (contents (fst t)) (pointer_key U (info_community req) (info_owner req) (info_repo req)) d"
      by (auto simp: promise_def info_promise_def)
    with eligible_frames [OF m(2)] show "\<exists>d m oid. manifest_at G J (contents (fst t)) d m
        \<and> reached G J (contents (fst t)) (pointer_key U (info_community req) (info_owner req) (info_repo req)) d
        \<and> map_of (refs m) (head m) = Some oid
        \<and> pkt_payloads out 0 = service_line # head_line (head m) oid # map ref_line (refs m)"
      by fastforce
  qed
qed


section \<open>Two pushes and a read\<close>

text \<open>
  A concrete run: a first push of one branch without new packs, a read after it,
  and a second push that moves the branch.
\<close>


definition demo_digest :: ustring where "demo_digest = replicate 64 97"

definition demo_digest2 :: ustring where "demo_digest2 = replicate 64 98"

definition demo_refs :: "nat \<Rightarrow> ref_map" where
  "demo_refs c = [(ustr ''refs/heads/main'', replicate 40 c)]"

definition demo_next :: "nat \<Rightarrow> parent_state \<Rightarrow> manifest" where
  "demo_next c ps = \<lparr>version = 1, head = ustr ''refs/heads/main'', refs = demo_refs c, packs = [], parent = parent_digest ps\<rparr>"

definition demo_manifest2 :: manifest where
  "demo_manifest2 = \<lparr>version = 1, head = ustr ''refs/heads/main'', refs = demo_refs 98, packs = [], parent = Some demo_digest\<rparr>"

definition demo_store :: store_env where
  "demo_store = \<lparr>sha256_hex = (\<lambda>bs. if bs = [1] then demo_digest else if bs = [2] then demo_digest2
     else if bs = str_bytes demo_digest then replicate 64 99 else replicate 64 100), header_value_ok = (\<lambda>_. True)\<rparr>"

definition demo_codec :: manifest_codec where
  "demo_codec = \<lparr>to_vec = (\<lambda>m. if m = demo_manifest then Ok [1] else if m = demo_manifest2 then Ok [2] else Err []),
     from_slice = (\<lambda>bs. if bs = [1] then Ok demo_manifest else if bs = [2] then Ok demo_manifest2 else Err [])\<rparr>"

definition demo_uploads :: "bytes set" where
  "demo_uploads = {[1], [2], str_bytes demo_digest, str_bytes demo_digest2}"

definition demo_workspace :: "nat \<Rightarrow> git_env" where
  "demo_workspace c =
     \<lparr>for_each_ref = Ok (57, Some (ustr ''refs/heads/main '' @ replicate 40 c @ [10])),
      symbolic_ref = Ok (Some (ustr ''refs/heads/main'')),
      pack_objects = (\<lambda>_. Ok []), index_pack = (\<lambda>_. None), compaction_permit = Ok (),
      count_objects = Ok (0, []), compact_objects = (\<lambda>_. Ok []), compaction_deadline = None\<rparr>"

definition demo_push_env :: "nat \<Rightarrow> push_env" where
  "demo_push_env c =
     \<lparr>permit = True, hydration = \<lparr>materialize_pack = (\<lambda>_. Ok 0), local = Ok ()\<rparr>, hook_installed = True,
      receive_process = (\<lambda>_. Ok \<lparr>exit_success = True, process_stdout = []\<rparr>), workspace = (\<lambda>_. demo_workspace c)\<rparr>"

definition demo_push :: push_request where
  "demo_push = \<lparr>push_community = id_a, push_owner = demo_owner, push_repo = ustr ''app'', pusher_hex = ustr ''ab''\<rparr>"

definition demo_config :: git_config where
  "demo_config = \<lparr>git_max_pack_bytes = 1000, git_max_repo_bytes = 1000\<rparr>"

definition demo_key :: ustring where "demo_key = pointer_key rfc4122 id_a demo_owner (ustr ''app'')"

definition demo_event_tags :: "nat \<Rightarrow> ustring list list" where
  "demo_event_tags c = [[ustr ''d'', ustr ''app''], [ustr ''refs/heads/main'', replicate 40 c],
     [ustr ''HEAD'', ustr ''ref: refs/heads/main''], [ustr ''p'', ustr ''ab'']]"

definition demo_commit_of :: "nat \<Rightarrow> manifest \<Rightarrow> ustring \<Rightarrow> push_commit" where
  "demo_commit_of c m d = \<lparr>commit_success = \<lparr>success_manifest = m, success_key = manifest_key d\<rparr>,
     commit_event = Some \<lparr>event_kind = 30618, event_content = [], event_tags = demo_event_tags c, event_signature = []\<rparr>\<rparr>"

definition demo_commit :: push_commit where
  "demo_commit = demo_commit_of 97 demo_manifest demo_digest"

definition demo_commit2 :: push_commit where
  "demo_commit2 = demo_commit_of 98 demo_manifest2 demo_digest2"

lemma demo_digest_ok: "is_manifest_digest (replicate 64 c)" if "97 \<le> c" "c \<le> 100"
  using that by (simp add: is_manifest_digest_def utf8_len_ascii list_all_iff is_lower_hex_cp_def)

lemma demo_digests_ok: "is_manifest_digest demo_digest" "is_manifest_digest demo_digest2"
  by (simp_all add: demo_digest_def demo_digest2_def demo_digest_ok)

lemma demo_digests_differ: "str_bytes demo_digest \<noteq> [1]" "str_bytes demo_digest \<noteq> [2]" "str_bytes demo_digest2 \<noteq> [1]"
  "str_bytes demo_digest2 \<noteq> [2]" "demo_digest \<noteq> demo_digest2" "str_bytes demo_digest \<noteq> str_bytes demo_digest2"
proof -
  have "length (str_bytes demo_digest) = 64" "length (str_bytes demo_digest2) = 64"
    by (simp_all add: length_str_bytes_ascii demo_digest_def demo_digest2_def list_all_iff)
  then show "str_bytes demo_digest \<noteq> [1]" "str_bytes demo_digest \<noteq> [2]" "str_bytes demo_digest2 \<noteq> [1]"
    "str_bytes demo_digest2 \<noteq> [2]" by auto
  show ne: "demo_digest \<noteq> demo_digest2" by (simp add: demo_digest_def demo_digest2_def)
  then show "str_bytes demo_digest \<noteq> str_bytes demo_digest2"
    using str_bytes_digest_inject [OF demo_digests_ok] by blast
qed

lemma demo_sha_ok: "sha_ok demo_store demo_uploads"
proof -
  have "is_manifest_digest (sha256_hex demo_store bs)" for bs
    using demo_digests_ok demo_digest_ok [of 99] demo_digest_ok [of 100] by (simp add: demo_store_def)
  moreover have "inj_on (sha256_hex demo_store) demo_uploads"
    using demo_digests_differ
    by (auto simp: demo_store_def demo_uploads_def inj_on_def demo_digest_def demo_digest2_def)
  ultimately show ?thesis by (simp add: sha_ok_def)
qed

lemma demo_manifests_differ: "demo_manifest2 \<noteq> demo_manifest"
  by (simp add: demo_manifest_def demo_manifest2_def)

lemma demo_codec_ok: "codec_ok demo_codec"
  by (auto simp: codec_ok_def demo_codec_def split: if_splits)

lemma demo_snapshot:
  assumes "c = 97 \<or> c = 98"
  shows "snapshot_workspace_state (demo_workspace c) = Ok (demo_refs c, ustr ''refs/heads/main'')"
proof -
  let ?name = "ustr ''refs/heads/main''" and ?oid = "replicate 40 c"
  have out: "ustr ''refs/heads/main '' @ ?oid @ [10] = (?name @ 32 # ?oid) @ 10 # []" by (simp add: ustr_def)
  have "10 \<notin> set (?name @ 32 # ?oid)" using assms by (auto simp: ustr_def)
  then have "str_lines (ustr ''refs/heads/main '' @ ?oid @ [10]) = [?name @ 32 # ?oid]"
    unfolding out str_lines_def split_on_append_sep [OF \<open>10 \<notin> _\<close>] using assms by (auto simp: strip_cr_def)
  moreover have "splitn2 32 (?name @ 32 # ?oid) = (?name, Some ?oid)"
    by (simp add: splitn2_def ustr_def)
  moreover have "utf8_len ?oid = 40" "list_all is_hexdigit_cp ?oid"
    using assms by (auto simp: utf8_len_ascii list_all_iff is_hexdigit_cp_def)
  moreover have "trim ?name = ?name"
    by (simp add: trim_eq_self_iff ustr_def is_whitespace_def)
  ultimately show ?thesis
    by (simp add: snapshot_workspace_state_def demo_workspace_def demo_refs_def MAX_REF_SNAPSHOT_BYTES_def
        MAX_MANIFEST_REFS_def)
qed

lemma demo_head: "resolve_published_head (demo_refs c) (ustr ''refs/heads/main'') h = ustr ''refs/heads/main''"
  by (simp add: resolve_published_head_def demo_refs_def bt_contains_def starts_with_def ustr_def)

lemma demo_publish:
  assumes "c = 97 \<or> c = 98" "packs (parent_manifest ps) = []"
  shows "cas_publish rfc4122 demo_store demo_codec (demo_workspace c) id_a demo_owner (ustr ''app'') ps limits =
   commit_manifest demo_store demo_codec demo_key ps (demo_next c ps)"
proof -
  have "compose_after (parent_manifest ps) (parent_digest ps) (ustr ''refs/heads/main'') (demo_refs c) None = demo_next c ps"
    using assms(2) by (simp add: compose_after_def demo_next_def MANIFEST_VERSION_def sort_dedup_def)
  then have "delta_manifest demo_store (demo_workspace c) ps limits None (ustr ''refs/heads/main'') (demo_refs c)
      = Return (Ok (demo_next c ps))"
    by (simp add: delta_manifest_def lift_r_def capture_pack_def demo_workspace_def)
      (simp add: demo_refs_def)
  then show ?thesis
    using assms(2)
    by (simp add: cas_publish_def cas_publish_inner_def lift_r_def demo_snapshot [OF assms(1)] demo_head attempt_compaction_def
        should_compact_def PACK_COMPACTION_THRESHOLD_def MAX_MANIFEST_PACKS_def try_p_def demo_key_def)
qed


lemma bind_p_assoc: "bind_p (bind_p p f) g = bind_p p (\<lambda>x. bind_p (f x) g)"
  by (induction p) auto

definition demo_answer :: "parent_state \<Rightarrow> (cas_success, cas_error) result \<Rightarrow> git_response prog" where
  "demo_answer ps r = Return (PushResponse (case r of
     Err e \<Rightarrow> cas_error_response e
   | Ok s \<Rightarrow> GitReport [] (Some \<lparr>commit_success = s,
       commit_event = derived_event demo_nostr (ustr ''app'') (ustr ''ab'') ps s\<rparr>)))"

abbreviation demo_serve :: "nat \<Rightarrow> git_response prog" where
  "demo_serve c \<equiv> serve rfc4122 demo_store demo_codec demo_nostr demo_config (PushRequest (demo_push_env c) demo_push)"

abbreviation demo_commit_prog :: "nat \<Rightarrow> parent_state \<Rightarrow> git_response prog" where
  "demo_commit_prog c ps \<equiv> bind_p (commit_manifest demo_store demo_codec demo_key ps (demo_next c ps)) (demo_answer ps)"

abbreviation demo_hydrate :: "nat \<Rightarrow> (u64 \<times> parent_state, hydrate_error) result prog" where
  "demo_hydrate c \<equiv> hydrate_for_write rfc4122 demo_store demo_codec (hydration (demo_push_env c))
     \<lparr>parent_hydrated_bytes = 0, max_pack_bytes = git_max_pack_bytes demo_config, max_repo_bytes = git_max_repo_bytes demo_config\<rparr>
     id_a demo_owner (ustr ''app'')"

lemma demo_receive_run:
  "run_git_at ''receive-pack'' RECEIVE_PACK_MAX_OUTPUT_BYTES (Ok \<lparr>exit_success = True, process_stdout = []\<rparr>)
   = Some (Ok \<lparr>pack_stdout = [], pack_ok = True\<rparr>)"
  using pkt_payloads_end [of "[]"] by (simp add: run_git_at_def report_rejected_payloads)

text \<open>A push whose parent state is loaded goes on to commit the manifest composed from it.\<close>

definition demo_continue :: "nat \<Rightarrow> (u64 \<times> parent_state, hydrate_error) result \<Rightarrow> git_response prog" where
  "demo_continue c hydrated =
     (case hydrated of
        Err e \<Rightarrow> Return (PushResponse (case hydrate_error_to_response e of (code, message) \<Rightarrow> PushError code message))
      | Ok (n, ps) \<Rightarrow>
          bind_p (finalize_push rfc4122 demo_store demo_codec demo_nostr
            \<lparr>ctx_pack = \<lparr>pack_stdout = [], pack_ok = True\<rparr>, ctx_parent_state = ps, ctx_owner = demo_owner,
             ctx_repo = ustr ''app'', ctx_repo_id = ustr ''app'', ctx_pusher_hex = ustr ''ab'', ctx_community = id_a,
             ctx_workspace = demo_workspace c,
             ctx_limits = \<lparr>parent_hydrated_bytes = n, max_pack_bytes = git_max_pack_bytes demo_config,
               max_repo_bytes = git_max_repo_bytes demo_config\<rparr>\<rparr>)
            (\<lambda>x. Return (PushResponse x)))"

lemma demo_serve_continue: "demo_serve c = bind_p (demo_hydrate c) (demo_continue c)"
proof -
  have "bind_p p f = bind_p p g" if "\<And>x. f x = g x" for p :: "'x prog" and f g :: "'x \<Rightarrow> 'y prog"
    using that by presburger
  note bind_cong = this
  show ?thesis
    unfolding serve_def git_request.case receive_pack_def
    by (simp add: demo_push_def demo_repo_valid bind_p_assoc demo_push_env_def)
      (rule bind_cong, simp add: demo_continue_def demo_receive_run demo_push_def demo_push_env_def split: result.split prod.split)
qed

lemma demo_continue_Ok:
  assumes "c = 97 \<or> c = 98" "packs (parent_manifest ps) = []"
  shows "demo_continue c (Ok (n, ps)) = demo_commit_prog c ps"
  by (simp add: demo_continue_def finalize_push_def demo_publish [OF assms] bind_p_assoc demo_answer_def [abs_def]
      cong: result.case_cong)

lemma demo_load_missing:
  obtains f where "load_pointer rfc4122 demo_store demo_codec id_a demo_owner (ustr ''app'') = GetObject demo_key f"
    "f (Err (HttpFailWithBody 404 [])) = Return (Ok None)"
  by (simp add: load_pointer_def try_p_def get_pointer_def demo_key_def)

lemma demo_get: "\<exists>f. demo_serve 97 = GetObject demo_key f \<and> f (Err (HttpFailWithBody 404 [])) = demo_commit_prog 97 parent_state_fresh"
proof -
  obtain f where f: "load_pointer rfc4122 demo_store demo_codec id_a demo_owner (ustr ''app'') = GetObject demo_key f"
    "f (Err (HttpFailWithBody 404 [])) = Return (Ok None)"
    by (rule demo_load_missing)
  have "demo_continue 97 (Ok (0, parent_state_fresh)) = demo_commit_prog 97 parent_state_fresh"
    by (rule demo_continue_Ok) (simp_all add: parent_state_fresh_def)
  with f show ?thesis
    unfolding demo_serve_continue by (simp add: hydrate_for_write_def try_p_def demo_push_env_def lift_r_def)
qed

text \<open>Committing a manifest stores it under its digest and moves the pointer from the parent to it.\<close>

lemma demo_commit_steps:
  assumes "manifest_ok m" "canonical_bytes demo_codec m = Ok bs" "sha256_hex demo_store bs = d"
  obtains C D where
    "commit_manifest demo_store demo_codec demo_key ps m = PutObject (manifest_key d) bs IfNoneMatchStar C"
    "C (Ok (mem_response bs)) = PutObject demo_key (str_bytes d)
       (case if_match ps of Some e \<Rightarrow> IfMatch e | None \<Rightarrow> IfNoneMatchStar) D"
    "D (Ok (mem_response (str_bytes d))) = Return (Ok \<lparr>success_manifest = m, success_key = manifest_key d\<rparr>)"
proof -
  have valid: "manifest_validate m = Ok ()" using assms(1) by (simp add: manifest_validate_Ok)
  have "digest_from_manifest_key (manifest_key d) = Ok d" for d
    by (simp add: digest_from_manifest_key_def manifest_key_def strip_prefix_def starts_with_def)
  moreover have "header_value_ok demo_store e" for e by (simp add: demo_store_def)
  ultimately show ?thesis
    using that assms(2,3)
    by (cases "if_match ps")
      (simp_all add: commit_manifest_def lift_r_def valid put_manifest_def put_immutable_def Let_def
        content_key_manifests try_p_def classify_create_def mem_response_def is_success_def
        put_pointer_def classify_cas_def etag_header_def)
qed

lemma demo_bytes: "canonical_bytes demo_codec demo_manifest = Ok [1]" "canonical_bytes demo_codec demo_manifest2 = Ok [2]"
  using demo_manifests_differ
  by (simp_all add: canonical_bytes_def demo_codec_def demo_manifest_def demo_manifest2_def sort_dedup_def)

lemma demo_manifest_sha: "sha256_hex demo_store [1] = demo_digest" "sha256_hex demo_store [2] = demo_digest2"
  by (simp_all add: demo_store_def)

lemma demo_next_fresh: "demo_next 97 parent_state_fresh = demo_manifest"
  by (simp add: demo_next_def parent_state_fresh_def demo_manifest_def demo_refs_def)

definition demo_info :: info_request where
  "demo_info = \<lparr>info_community = id_a, info_owner = demo_owner, info_repo = ustr ''app'', service = ustr ''git-upload-pack''\<rparr>"

definition demo_requests :: "nat \<Rightarrow> git_request" where
  "demo_requests i =
     (if i = 0 then PushRequest (demo_push_env 97) demo_push
      else if i = 2 then PushRequest (demo_push_env 98) demo_push
      else InfoRequest demo_info)"

abbreviation demo_step :: "contents \<times> git_response pool \<Rightarrow> nat \<Rightarrow> contents \<times> git_response pool \<Rightarrow> bool" where
  "demo_step \<equiv> git_step mem_put mem_get mem_head demo_uploads rfc4122 demo_store demo_codec demo_nostr demo_config
     demo_requests"

definition demo_contents :: contents where
  "demo_contents = (\<lambda>_. None)(manifest_key demo_digest \<mapsto> [1], demo_key \<mapsto> str_bytes demo_digest)"

definition demo_pool :: "git_response pool" where
  "demo_pool = (\<lambda>_. None)(0 \<mapsto> Return (PushResponse (GitReport [] (Some demo_commit))))"

lemma demo_answered:
  assumes "c = 97 \<or> c = 98" "refs m = demo_refs c" "head m = ustr ''refs/heads/main''" "parent_digest ps \<noteq> Some d"
  shows "demo_answer ps (Ok \<lparr>success_manifest = m, success_key = manifest_key d\<rparr>)
   = Return (PushResponse (GitReport [] (Some (demo_commit_of c m d))))"
proof -
  have oid: "is_valid_oid (replicate 40 c)"
    using assms(1) by (auto simp: is_valid_oid_def utf8_len_ascii list_all_iff is_hexdigit_cp_def)
  have "manifest_changed ps \<lparr>success_manifest = m, success_key = manifest_key d\<rparr>"
    using assms(4)
    by (auto simp: manifest_changed_def manifest_key_def strip_prefix_def starts_with_def split: option.split)
  with assms(2,3) oid show ?thesis
    by (simp add: demo_answer_def demo_commit_of_def demo_event_tags_def derived_event_def
        build_ref_state_event_def demo_nostr_def demo_refs_def ref_tags_def is_emittable_ref_def
        starts_with_def ustr_def is_ascii_alphanumeric_def is_digit_cp_def)
qed

lemma demo_keys: "demo_key \<noteq> manifest_key demo_digest"
  using pointer_key_is_pointer [of rfc4122 id_a demo_owner "ustr ''app''"] key_kinds(4) [of demo_digest]
  by (metis demo_key_def)

lemma demo_push_run: "steps demo_step (\<lambda>_. None, \<lambda>_. None) [0, 0, 0, 0] (demo_contents, demo_pool)"
proof -
  obtain f where f: "demo_serve 97 = GetObject demo_key f"
    "f (Err (HttpFailWithBody 404 [])) = demo_commit_prog 97 parent_state_fresh"
    using demo_get by blast
  obtain C D where CD: "commit_manifest demo_store demo_codec demo_key parent_state_fresh demo_manifest
       = PutObject (manifest_key demo_digest) [1] IfNoneMatchStar C"
    "C (Ok (mem_response [1])) = PutObject demo_key (str_bytes demo_digest)
       (case if_match parent_state_fresh of Some e \<Rightarrow> IfMatch e | None \<Rightarrow> IfNoneMatchStar) D"
    "D (Ok (mem_response (str_bytes demo_digest)))
       = Return (Ok \<lparr>success_manifest = demo_manifest, success_key = manifest_key demo_digest\<rparr>)"
    by (rule demo_commit_steps [OF demo_manifest_ok demo_bytes(1) demo_manifest_sha(1)])
  let ?ps = parent_state_fresh
  have answered: "demo_answer ?ps (Ok \<lparr>success_manifest = demo_manifest, success_key = manifest_key demo_digest\<rparr>)
      = Return (PushResponse (GitReport [] (Some demo_commit)))"
    unfolding demo_commit_def
    by (rule demo_answered) (simp_all add: demo_manifest_def demo_refs_def parent_state_fresh_def)
  have fresh: "if_match ?ps = None" by (simp add: parent_state_fresh_def)
  let ?c0 = "\<lambda>_. None :: bytes option" and ?p0 = "\<lambda>_. None :: git_response prog option"
  let ?c1 = "?c0(manifest_key demo_digest \<mapsto> [1])"
  let ?p1 = "?p0(0 \<mapsto> demo_serve 97)"
  let ?p2 = "?p0(0 \<mapsto> f (Err (HttpFailWithBody 404 [])))"
  let ?p3 = "?p0(0 \<mapsto> bind_p (C (Ok (mem_response [1]))) (demo_answer ?ps))"
  have 1: "demo_step (?c0, ?p0) 0 (?c0, ?p1)"
    using pool_start [of ?p0 0 mem_put mem_get mem_head "\<lambda>i. serve rfc4122 demo_store demo_codec demo_nostr demo_config (demo_requests i)"
      demo_uploads ?c0] by (simp add: demo_requests_def)
  have 2: "demo_step (?c0, ?p1) 0 (?c0, ?p2)"
    using pool_get [of ?p1 0 demo_key f mem_get ?c0 "Err (HttpFailWithBody 404 [])"] f(1)
    by (simp add: mem_get_def)
  have 3: "demo_step (?c0, ?p2) 0 (?c1, ?p3)"
    using pool_put [of ?p2 0 "manifest_key demo_digest" "[1]" IfNoneMatchStar "\<lambda>r. bind_p (C r) (demo_answer ?ps)"
        demo_uploads mem_put ?c0 "Ok (mem_response [1])" ?c1] f(2) CD(1) demo_next_fresh
    by (simp add: mem_put_def precond_holds_def demo_uploads_def)
  have 4: "demo_step (?c1, ?p3) 0 (demo_contents, demo_pool)"
    using pool_put [of ?p3 0 demo_key "str_bytes demo_digest" IfNoneMatchStar "\<lambda>r. bind_p (D r) (demo_answer ?ps)"
        demo_uploads mem_put ?c1 "Ok (mem_response (str_bytes demo_digest))" demo_contents] CD(2,3) demo_keys fresh
    by (simp add: mem_put_def precond_holds_def demo_uploads_def demo_contents_def demo_pool_def answered)
  note snoc = steps_snoc [where R = demo_step]
  have "steps demo_step (?c0, ?p0) ((([] @ [0]) @ [0]) @ [0]) (?c1, ?p3)"
    by (rule snoc [OF snoc [OF snoc [OF steps_Nil 1] 2] 3])
  from snoc [OF this 4] show ?thesis by simp
qed


definition demo_advertisement :: bytes where
  "demo_advertisement = the (build_upload_pack_advertisement demo_manifest)"

definition demo_pool_read :: "git_response pool" where
  "demo_pool_read = demo_pool(1 \<mapsto> Return (InfoResponse (Advertisement demo_advertisement)))"

text \<open>Loading the pointer after the first push.\<close>

lemma demo_load_published:
  obtains f g h where
    "load_pointer rfc4122 demo_store demo_codec id_a demo_owner (ustr ''app'') = GetObject demo_key f"
    "f (Ok (mem_response (str_bytes demo_digest))) = HeadObject (manifest_key demo_digest) g"
    "g (Ok (\<lparr>content_length = Some 1\<rparr>, 200)) = GetObject (manifest_key demo_digest) h"
    "h (Ok (mem_response [1])) = Return (Ok (Some (mem_etag (str_bytes demo_digest), demo_digest, demo_manifest)))"
proof -
  have digest: "from_utf8 (str_bytes demo_digest) = Some demo_digest" "trim demo_digest = demo_digest"
    "utf8_len demo_digest = 64" "list_all is_hexdigit_cp demo_digest"
    using demo_digests_ok(1) by (simp_all add: digest_from_utf8 digest_trim digest_hex)
  have manifest: "manifest_from_bytes demo_codec [1] = Ok demo_manifest" "manifest_validate demo_manifest = Ok ()"
    using demo_manifest_ok
    by (simp_all add: manifest_from_bytes_def demo_codec_def manifest_validate_Ok)
      (simp add: demo_manifest_def MANIFEST_VERSION_def)
  from that digest manifest show ?thesis
    by (simp add: load_pointer_def try_p_def get_pointer_def demo_key_def etag_header_def mem_response_def Let_def
        get_verified_limited_def get_limited_def manifest_key_def is_success_def content_length_u64_def
        MAX_MANIFEST_BYTES_def store_get_def verify_digest_def demo_store_def)
qed

lemma demo_read_steps:
  obtains f g h where
    "serve rfc4122 demo_store demo_codec demo_nostr demo_config (InfoRequest demo_info) = GetObject demo_key f"
    "f (Ok (mem_response (str_bytes demo_digest))) = HeadObject (manifest_key demo_digest) g"
    "g (Ok (\<lparr>content_length = Some 1\<rparr>, 200)) = GetObject (manifest_key demo_digest) h"
    "h (Ok (mem_response [1])) = Return (InfoResponse (Advertisement demo_advertisement))"
proof -
  have advertise: "build_upload_pack_advertisement demo_manifest = Some demo_advertisement"
    using eligible_advertises [OF demo_eligible] by (auto simp: demo_advertisement_def)
  obtain f g h where load:
    "load_pointer rfc4122 demo_store demo_codec id_a demo_owner (ustr ''app'') = GetObject demo_key f"
    "f (Ok (mem_response (str_bytes demo_digest))) = HeadObject (manifest_key demo_digest) g"
    "g (Ok (\<lparr>content_length = Some 1\<rparr>, 200)) = GetObject (manifest_key demo_digest) h"
    "h (Ok (mem_response [1])) = Return (Ok (Some (mem_etag (str_bytes demo_digest), demo_digest, demo_manifest)))"
    by (rule demo_load_published)
  from that load demo_eligible advertise show ?thesis
    by (simp add: serve_def info_refs_def load_manifest_for_read_def try_p_def demo_info_def demo_repo_valid)
qed

lemma demo_contents_at: "demo_contents demo_key = Some (str_bytes demo_digest)" "demo_contents (manifest_key demo_digest) = Some [1]"
  "demo_contents (manifest_key demo_digest2) = None"
  using demo_keys pointer_key_is_pointer [of rfc4122 id_a demo_owner "ustr ''app''"] key_kinds(4) [of demo_digest2]
    demo_digests_differ(5)
  by (auto simp: demo_contents_def manifest_key_def demo_key_def)

lemma demo_read_run: "steps demo_step (demo_contents, demo_pool) [1, 1, 1, 1] (demo_contents, demo_pool_read)"
proof -
  obtain f g h where s:
    "serve rfc4122 demo_store demo_codec demo_nostr demo_config (InfoRequest demo_info) = GetObject demo_key f"
    "f (Ok (mem_response (str_bytes demo_digest))) = HeadObject (manifest_key demo_digest) g"
    "g (Ok (\<lparr>content_length = Some 1\<rparr>, 200)) = GetObject (manifest_key demo_digest) h"
    "h (Ok (mem_response [1])) = Return (InfoResponse (Advertisement demo_advertisement))"
    by (rule demo_read_steps)
  let ?p1 = "demo_pool(1 \<mapsto> GetObject demo_key f)"
  let ?p2 = "demo_pool(1 \<mapsto> HeadObject (manifest_key demo_digest) g)"
  let ?p3 = "demo_pool(1 \<mapsto> GetObject (manifest_key demo_digest) h)"
  note contents = demo_contents_at
  have 1: "demo_step (demo_contents, demo_pool) 1 (demo_contents, ?p1)"
    using pool_start [of demo_pool 1 mem_put mem_get mem_head
        "\<lambda>i. serve rfc4122 demo_store demo_codec demo_nostr demo_config (demo_requests i)" demo_uploads demo_contents] s(1)
    by (simp add: demo_requests_def demo_pool_def)
  have 2: "demo_step (demo_contents, ?p1) 1 (demo_contents, ?p2)"
    using pool_get [of ?p1 1 demo_key f mem_get demo_contents "Ok (mem_response (str_bytes demo_digest))"] s(2) contents
    by (simp add: mem_get_def)
  have 3: "demo_step (demo_contents, ?p2) 1 (demo_contents, ?p3)"
    using pool_head [of ?p2 1 "manifest_key demo_digest" g mem_head demo_contents "Ok (\<lparr>content_length = Some 1\<rparr>, 200)"]
      s(3) contents
    by (simp add: mem_head_def)
  have 4: "demo_step (demo_contents, ?p3) 1 (demo_contents, demo_pool_read)"
    using pool_get [of ?p3 1 "manifest_key demo_digest" h mem_get demo_contents "Ok (mem_response [1])"] s(4) contents
    by (simp add: mem_get_def demo_pool_read_def)
  note snoc = steps_snoc [where R = demo_step]
  have "steps demo_step (demo_contents, demo_pool) ((([] @ [1]) @ [1]) @ [1]) (demo_contents, ?p3)"
    by (rule snoc [OF snoc [OF snoc [OF steps_Nil 1] 2] 3])
  from snoc [OF this 4] show ?thesis by simp
qed

text \<open>The second push, whose parent is the manifest of the first.\<close>

definition demo_parent :: parent_state where
  "demo_parent = parent_state_from_loaded (mem_etag (str_bytes demo_digest)) demo_digest demo_manifest"

definition demo_contents2 :: contents where
  "demo_contents2 = demo_contents(manifest_key demo_digest2 \<mapsto> [2], demo_key \<mapsto> str_bytes demo_digest2)"

definition demo_pool2 :: "git_response pool" where
  "demo_pool2 = demo_pool(2 \<mapsto> Return (PushResponse (GitReport [] (Some demo_commit2))))"

lemma demo_parent_simps: "if_match demo_parent = Some (mem_etag (str_bytes demo_digest))" "parent_digest demo_parent = Some demo_digest"
  "packs (parent_manifest demo_parent) = []" "demo_next 98 demo_parent = demo_manifest2"
  by (simp_all add: demo_parent_def parent_state_from_loaded_def demo_manifest_def demo_next_def demo_manifest2_def)

lemma demo_manifest2_ok: "manifest_ok demo_manifest2"
  using demo_digests_ok(1)
  by (simp add: manifest_ok_def demo_manifest2_def demo_refs_def is_safe_refname_def is_hex_oid_def utf8_len_ascii list_all_iff
      starts_with_def ends_with_def ustr_def utf8_len_def utf8_char_len_def is_hexdigit_cp_def is_digit_cp_def
      is_ascii_alphanumeric_def sum_list_replicate)

lemma demo_materialize: "materialize_manifest (hydration (demo_push_env 98)) limits demo_manifest = Ok 0"
proof -
  have "is_safe_refname (ustr ''refs/heads/main'')"
    using demo_manifest_ok by (simp add: manifest_ok_def demo_manifest_def)
  then show ?thesis
    by (simp add: materialize_manifest_def demo_push_env_def demo_manifest_def hydrate_ref_def demo_oid)
qed

lemma demo_push2_steps:
  obtains f g h where "demo_serve 98 = GetObject demo_key f"
    "f (Ok (mem_response (str_bytes demo_digest))) = HeadObject (manifest_key demo_digest) g"
    "g (Ok (\<lparr>content_length = Some 1\<rparr>, 200)) = GetObject (manifest_key demo_digest) h"
    "h (Ok (mem_response [1])) = demo_commit_prog 98 demo_parent"
proof -
  obtain f g h where load:
    "load_pointer rfc4122 demo_store demo_codec id_a demo_owner (ustr ''app'') = GetObject demo_key f"
    "f (Ok (mem_response (str_bytes demo_digest))) = HeadObject (manifest_key demo_digest) g"
    "g (Ok (\<lparr>content_length = Some 1\<rparr>, 200)) = GetObject (manifest_key demo_digest) h"
    "h (Ok (mem_response [1])) = Return (Ok (Some (mem_etag (str_bytes demo_digest), demo_digest, demo_manifest)))"
    by (rule demo_load_published)
  have "demo_continue 98 (Ok (0, demo_parent)) = demo_commit_prog 98 demo_parent"
    by (rule demo_continue_Ok) (simp_all add: demo_parent_simps)
  with that load show ?thesis
    unfolding demo_serve_continue
    by (simp add: hydrate_for_write_def try_p_def lift_r_def demo_materialize demo_parent_def)
qed

lemma demo_push2_run: "steps demo_step (demo_contents, demo_pool) [2, 2, 2, 2, 2, 2] (demo_contents2, demo_pool2)"
proof -
  obtain f g h where s: "demo_serve 98 = GetObject demo_key f"
    "f (Ok (mem_response (str_bytes demo_digest))) = HeadObject (manifest_key demo_digest) g"
    "g (Ok (\<lparr>content_length = Some 1\<rparr>, 200)) = GetObject (manifest_key demo_digest) h"
    "h (Ok (mem_response [1])) = demo_commit_prog 98 demo_parent"
    by (rule demo_push2_steps)
  let ?tag = "IfMatch (mem_etag (str_bytes demo_digest))"
  obtain C D where CD: "commit_manifest demo_store demo_codec demo_key demo_parent demo_manifest2
       = PutObject (manifest_key demo_digest2) [2] IfNoneMatchStar C"
    "C (Ok (mem_response [2])) = PutObject demo_key (str_bytes demo_digest2)
       (case if_match demo_parent of Some e \<Rightarrow> IfMatch e | None \<Rightarrow> IfNoneMatchStar) D"
    "D (Ok (mem_response (str_bytes demo_digest2)))
       = Return (Ok \<lparr>success_manifest = demo_manifest2, success_key = manifest_key demo_digest2\<rparr>)"
    by (rule demo_commit_steps [OF demo_manifest2_ok demo_bytes(2) demo_manifest_sha(2)])
  have answered: "demo_answer demo_parent (Ok \<lparr>success_manifest = demo_manifest2, success_key = manifest_key demo_digest2\<rparr>)
      = Return (PushResponse (GitReport [] (Some demo_commit2)))"
    unfolding demo_commit2_def
    using demo_digests_differ(5) by (intro demo_answered) (simp_all add: demo_manifest2_def demo_parent_simps)
  let ?c1 = "demo_contents(manifest_key demo_digest2 \<mapsto> [2])"
  let ?p1 = "demo_pool(2 \<mapsto> GetObject demo_key f)"
  let ?p2 = "demo_pool(2 \<mapsto> HeadObject (manifest_key demo_digest) g)"
  let ?p3 = "demo_pool(2 \<mapsto> GetObject (manifest_key demo_digest) h)"
  let ?p4 = "demo_pool(2 \<mapsto> demo_commit_prog 98 demo_parent)"
  let ?p5 = "demo_pool(2 \<mapsto> bind_p (C (Ok (mem_response [2]))) (demo_answer demo_parent))"
  note contents = demo_contents_at
  have 1: "demo_step (demo_contents, demo_pool) 2 (demo_contents, ?p1)"
    using pool_start [of demo_pool 2 mem_put mem_get mem_head
        "\<lambda>i. serve rfc4122 demo_store demo_codec demo_nostr demo_config (demo_requests i)" demo_uploads demo_contents] s(1)
    by (simp add: demo_requests_def demo_pool_def)
  have 2: "demo_step (demo_contents, ?p1) 2 (demo_contents, ?p2)"
    using pool_get [of ?p1 2 demo_key f mem_get demo_contents "Ok (mem_response (str_bytes demo_digest))"] s(2) contents
    by (simp add: mem_get_def)
  have 3: "demo_step (demo_contents, ?p2) 2 (demo_contents, ?p3)"
    using pool_head [of ?p2 2 "manifest_key demo_digest" g mem_head demo_contents "Ok (\<lparr>content_length = Some 1\<rparr>, 200)"]
      s(3) contents
    by (simp add: mem_head_def)
  have 4: "demo_step (demo_contents, ?p3) 2 (demo_contents, ?p4)"
    using pool_get [of ?p3 2 "manifest_key demo_digest" h mem_get demo_contents "Ok (mem_response [1])"] s(4) contents
    by (simp add: mem_get_def)
  have 5: "demo_step (demo_contents, ?p4) 2 (?c1, ?p5)"
    using pool_put [of ?p4 2 "manifest_key demo_digest2" "[2]" IfNoneMatchStar "\<lambda>r. bind_p (C r) (demo_answer demo_parent)"
        demo_uploads mem_put demo_contents "Ok (mem_response [2])" ?c1] CD(1) contents
    by (simp add: mem_put_def precond_holds_def demo_uploads_def demo_parent_simps)
  have key: "demo_key \<noteq> manifest_key demo_digest2" using contents by auto
  have 6: "demo_step (?c1, ?p5) 2 (demo_contents2, demo_pool2)"
    using pool_put [of ?p5 2 demo_key "str_bytes demo_digest2" ?tag "\<lambda>r. bind_p (D r) (demo_answer demo_parent)"
        demo_uploads mem_put ?c1 "Ok (mem_response (str_bytes demo_digest2))" demo_contents2] CD(2,3) key contents(1)
    by (simp add: mem_put_def precond_holds_def demo_uploads_def demo_contents2_def demo_pool2_def answered demo_parent_simps)
  note snoc = steps_snoc [where R = demo_step]
  have "steps demo_step (demo_contents, demo_pool) ((((([] @ [2]) @ [2]) @ [2]) @ [2]) @ [2]) (?c1, ?p5)"
    by (rule snoc [OF snoc [OF snoc [OF snoc [OF snoc [OF steps_Nil 1] 2] 3] 4] 5])
  from snoc [OF this 6] show ?thesis by simp
qed


lemmas demo_service = mem.object_store_axioms demo_sha_ok demo_codec_ok

interpretation demo: publication mem_put mem_get mem_head id mem_etag demo_store demo_codec demo_uploads
  by (rule publicationI [OF mem.object_store_axioms demo_sha_ok demo_codec_ok])

theorem published_histories_grow_witness:
  "\<exists>d ms d' new. str_bytes demo_digest = str_bytes d \<and> history demo_store demo_codec demo_contents d ms
     \<and> demo_contents demo_key = Some (str_bytes d') \<and> history demo_store demo_codec demo_contents d' (new @ ms)"
  using published_histories_grow [OF demo_service _ demo_push_run steps_Nil,
      of id_a demo_owner "ustr ''app''" "str_bytes demo_digest"]
  by (simp add: demo_contents_def demo_key_def)

theorem reported_push_durable_witness:
  "push_promise rfc4122 demo_store demo_codec demo_nostr demo_push demo_commit demo_contents"
  using reported_push_durable [OF demo_service _ demo_push_run demo_read_run, where i = 0 and env = "demo_push_env 97" and req = demo_push
      and out = "[]" and k = demo_commit]
  by (simp add: demo_pool_def demo_requests_def)

theorem reported_pushes_ordered_witness:
  "success_key (commit_success demo_commit) \<noteq> success_key (commit_success demo_commit2)
   \<and> (\<exists>d d'. success_key (commit_success demo_commit) = manifest_key d \<and> success_key (commit_success demo_commit2) = manifest_key d'
     \<and> (descends demo_store demo_codec demo_contents2 d d' \<or> descends demo_store demo_codec demo_contents2 d' d))"
proof -
  have "\<exists>d d'. success_key (commit_success demo_commit) = manifest_key d \<and> success_key (commit_success demo_commit2) = manifest_key d'
     \<and> (descends demo_store demo_codec demo_contents2 d d' \<or> descends demo_store demo_codec demo_contents2 d' d)"
    using reported_pushes_ordered [OF demo_service _ steps_trans [OF demo_push_run demo_push2_run], where i = 0
        and env = "demo_push_env 97" and req = demo_push and out = "[]" and k = demo_commit
        and j = 2 and env' = "demo_push_env 98" and req' = demo_push and out' = "[]" and k' = demo_commit2]
    by (simp add: demo_pool2_def demo_pool_def demo_requests_def)
  moreover have "success_key (commit_success demo_commit) \<noteq> success_key (commit_success demo_commit2)"
    using demo_digests_differ(5) by (simp add: demo_commit_def demo_commit2_def demo_commit_of_def manifest_key_def)
  ultimately show ?thesis by blast
qed

theorem advertised_refs_committed_witness:
  "\<exists>d m oid. manifest_at demo_store demo_codec demo_contents d m
     \<and> reached demo_store demo_codec demo_contents demo_key d \<and> map_of (refs m) (head m) = Some oid
     \<and> pkt_payloads demo_advertisement 0 = service_line # head_line (head m) oid # map ref_line (refs m)"
  using advertised_refs_committed [OF demo_service _ steps_trans [OF demo_push_run demo_read_run] steps_Nil, where i = 1
      and req = demo_info and resp = "Advertisement demo_advertisement"]
  by (simp add: demo_pool_read_def demo_requests_def demo_info_def demo_key_def)

end
