(* ===== verification/Audit_Log.thy ===== *)
theory Audit_Log
  imports Text_Tools Uuid_Layout
begin

text \<open>
  The tamper-evident audit log of a community, from \<open>buzz-audit\<close>: actions, entries,
  the hash of an entry over its fields and its predecessor's hash, appending
  under the community's advisory lock, and the verification of a stored range.

  The table is a list of rows.  An append is one atomic step because the lock of
  the community is held around its transaction; an append that fails leaves the
  table as it was.  SHA-256, the RFC 3339 text of an instant, the JSON text of a
  scalar and what a \<open>JSONB\<close> column returns for a value stored in it are parameters.
  Instants are nanoseconds.
\<close>

section \<open>Actions and entries\<close>

datatype audit_action =
    EventCreated | EventDeleted | ChannelCreated | ChannelUpdated | ChannelDeleted
  | MemberAdded | MemberRemoved | AuthSuccess | AuthFailure | RateLimitExceeded | MediaUploaded
  | ProjectViewCutover | ProjectViewMaintenance | ProjectViewProvisioning | ProjectViewSecurityInvalidation
  | ProjectContextControl | ProjectContextEdgeControl | ProjectDocumentControl
  | RuntimeSupervisorRegistered | RuntimeSupervisorRevoked | RuntimeAssignmentUnrecoverable

fun audit_action_str :: "audit_action \<Rightarrow> string" where
  "audit_action_str EventCreated = ''event_created''"
| "audit_action_str EventDeleted = ''event_deleted''"
| "audit_action_str ChannelCreated = ''channel_created''"
| "audit_action_str ChannelUpdated = ''channel_updated''"
| "audit_action_str ChannelDeleted = ''channel_deleted''"
| "audit_action_str MemberAdded = ''member_added''"
| "audit_action_str MemberRemoved = ''member_removed''"
| "audit_action_str AuthSuccess = ''auth_success''"
| "audit_action_str AuthFailure = ''auth_failure''"
| "audit_action_str RateLimitExceeded = ''rate_limit_exceeded''"
| "audit_action_str MediaUploaded = ''media_uploaded''"
| "audit_action_str ProjectViewCutover = ''project_view_cutover''"
| "audit_action_str ProjectViewMaintenance = ''project_view_maintenance''"
| "audit_action_str ProjectViewProvisioning = ''project_view_provisioning''"
| "audit_action_str ProjectViewSecurityInvalidation = ''project_view_security_invalidation''"
| "audit_action_str ProjectContextControl = ''project_context_control''"
| "audit_action_str ProjectContextEdgeControl = ''project_context_edge_control''"
| "audit_action_str ProjectDocumentControl = ''project_document_control''"
| "audit_action_str RuntimeSupervisorRegistered = ''runtime_supervisor_registered''"
| "audit_action_str RuntimeSupervisorRevoked = ''runtime_supervisor_revoked''"
| "audit_action_str RuntimeAssignmentUnrecoverable = ''runtime_assignment_unrecoverable''"

definition all_actions :: "audit_action list" where
  "all_actions =
     [EventCreated, EventDeleted, ChannelCreated, ChannelUpdated, ChannelDeleted, MemberAdded, MemberRemoved,
      AuthSuccess, AuthFailure, RateLimitExceeded, MediaUploaded, ProjectViewCutover, ProjectViewMaintenance,
      ProjectViewProvisioning, ProjectViewSecurityInvalidation, ProjectContextControl, ProjectContextEdgeControl,
      ProjectDocumentControl, RuntimeSupervisorRegistered, RuntimeSupervisorRevoked, RuntimeAssignmentUnrecoverable]"

definition audit_action_from_str :: "string \<Rightarrow> audit_action option" where
  "audit_action_from_str s = find (\<lambda>a. audit_action_str a = s) all_actions"

record audit_entry =
  community_id :: uuid
  seq :: int
  hash :: bytes
  prev_hash :: "bytes option"
  action :: audit_action
  actor_pubkey :: "bytes option"
  object_id :: "ustring option"
  detail :: json_value
  created_at :: int

record new_audit_entry =
  new_community :: uuid
  new_action :: audit_action
  new_actor :: "bytes option"
  new_object :: "ustring option"
  new_detail :: json_value

text \<open>A stored row has the action as text.\<close>

record audit_row =
  row_entry :: audit_entry
  row_action :: string

datatype audit_error =
    Database string
  | ChainViolation int
  | HashMismatch int
  | UnknownAction
  | Serialization string


section \<open>The hash of an entry\<close>

record audit_env =
  sha256 :: "bytes \<Rightarrow> bytes"
  to_rfc3339 :: "int \<Rightarrow> ustring"
  scalar_to_string :: "json_value \<Rightarrow> (ustring, string) result"
  jsonb :: "json_value \<Rightarrow> (json_value, string) result"

definition GENESIS_HASH :: bytes where "GENESIS_HASH = replicate 32 0"

definition to_storage_precision :: "int \<Rightarrow> int" where
  "to_storage_precision t = t - t mod 1000"

fun collect_r :: "('a, 'e) result list \<Rightarrow> ('a list, 'e) result" where
  "collect_r [] = Ok []"
| "collect_r (r # rs) = bind_r r (\<lambda>x. bind_r (collect_r rs) (\<lambda>xs. Ok (x # xs)))"

text \<open>Object keys are unique in a \<open>serde_json\<close> map, so sorting them is what the ordered map does.\<close>

fun canonical_json :: "audit_env \<Rightarrow> json_value \<Rightarrow> (ustring, string) result" where
  "canonical_json A (JObject kvs) =
     bind_r (collect_r (map snd (sort_key fst (map (\<lambda>(k, v). (k,
         bind_r (scalar_to_string A (JString k)) (\<lambda>kt.
         bind_r (canonical_json A v) (\<lambda>vt. Ok (kt @ [58] @ vt))))) kvs))))
       (\<lambda>parts. Ok ([123] @ join_on 44 parts @ [125]))"
| "canonical_json A (JArray vs) =
     bind_r (collect_r (map (canonical_json A) vs)) (\<lambda>parts. Ok ([91] @ join_on 44 parts @ [93]))"
| "canonical_json A other = scalar_to_string A other"

definition i64_be_bytes :: "int \<Rightarrow> bytes" where
  "i64_be_bytes n = map (\<lambda>i. ucast (drop_bit (8 * i) (word_of_int n :: 64 word))) [7, 6, 5, 4, 3, 2, 1, 0]"

definition hash_preimage :: "uuid_api \<Rightarrow> audit_env \<Rightarrow> audit_entry \<Rightarrow> (bytes, audit_error) result" where
  "hash_preimage U A e =
     bind_r (map_err Serialization (canonical_json A (detail e))) (\<lambda>text. Ok
       (as_bytes U (community_id e) @ i64_be_bytes (seq e)
        @ str_bytes (to_rfc3339 A (to_storage_precision (created_at e)))
        @ str_bytes (ustr (audit_action_str (action e)))
        @ (case actor_pubkey e of Some pk \<Rightarrow> 1 # pk | None \<Rightarrow> [0])
        @ (case object_id e of Some i \<Rightarrow> 1 # str_bytes i | None \<Rightarrow> [0])
        @ str_bytes text
        @ (case prev_hash e of Some h \<Rightarrow> h | None \<Rightarrow> GENESIS_HASH)))"

definition compute_hash :: "uuid_api \<Rightarrow> audit_env \<Rightarrow> audit_entry \<Rightarrow> (bytes, audit_error) result" where
  "compute_hash U A e = bind_r (hash_preimage U A e) (\<lambda>bs. Ok (sha256 A bs))"


section \<open>The service\<close>

type_synonym audit_table = "audit_row list"

definition row_of :: "audit_entry \<Rightarrow> audit_row" where
  "row_of e = \<lparr>row_entry = e, row_action = audit_action_str (action e)\<rparr>"

definition row_to_audit_entry :: "audit_row \<Rightarrow> (audit_entry, audit_error) result" where
  "row_to_audit_entry row =
     bind_r (ok_or UnknownAction (audit_action_from_str (row_action row))) (\<lambda>a. Ok ((row_entry row)\<lparr>action := a\<rparr>))"

definition community_rows :: "audit_table \<Rightarrow> uuid \<Rightarrow> audit_row list" where
  "community_rows t c = sort_key (\<lambda>r. seq (row_entry r)) (filter (\<lambda>r. community_id (row_entry r) = c) t)"

text \<open>Adding two \<open>i64\<close> wraps.\<close>

definition i64_succ :: "int \<Rightarrow> int" where
  "i64_succ n = sint (word_of_int (n + 1) :: 64 word)"

definition chain_head :: "audit_table \<Rightarrow> uuid \<Rightarrow> int \<times> bytes option" where
  "chain_head t c =
     (case rev (community_rows t c) of
        row # _ \<Rightarrow> (seq (row_entry row), Some (hash (row_entry row)))
      | [] \<Rightarrow> (0, None))"

definition log_timestamp :: "int \<Rightarrow> int" where
  "log_timestamp now = to_storage_precision now"

definition insert_row :: "audit_env \<Rightarrow> audit_table \<Rightarrow> audit_entry \<Rightarrow> (audit_table, audit_error) result" where
  "insert_row A t e =
     bind_r (map_err Database (jsonb A (detail e))) (\<lambda>stored.
       if list_ex (\<lambda>r. community_id (row_entry r) = community_id e
            \<and> (seq (row_entry r) = seq e \<or> hash (row_entry r) = hash e)) t
       then Err (Database ''duplicate key value violates unique constraint'')
       else Ok (t @ [row_of (e\<lparr>detail := stored\<rparr>)]))"

definition append_locked ::
  "uuid_api \<Rightarrow> audit_env \<Rightarrow> int \<Rightarrow> audit_table \<Rightarrow> new_audit_entry \<Rightarrow> (audit_entry \<times> audit_table, audit_error) result" where
  "append_locked U A now t entry =
     (let (prev_seq, prev) = chain_head t (new_community entry);
          audit_entry = \<lparr>community_id = new_community entry, seq = i64_succ prev_seq, hash = [], prev_hash = prev,
               action = new_action entry, actor_pubkey = new_actor entry, object_id = new_object entry,
               detail = new_detail entry, created_at = log_timestamp now\<rparr> in
      bind_r (compute_hash U A audit_entry) (\<lambda>h.
      bind_r (insert_row A t (audit_entry\<lparr>hash := h\<rparr>)) (\<lambda>t'. Ok (audit_entry\<lparr>hash := h\<rparr>, t'))))"

fun verify_rows ::
  "uuid_api \<Rightarrow> audit_env \<Rightarrow> bytes option \<Rightarrow> audit_row list \<Rightarrow> (bool, audit_error) result" where
  "verify_rows U A expected_prev [] = Ok True"
| "verify_rows U A expected_prev (row # rows) =
     bind_r (row_to_audit_entry row) (\<lambda>e.
       if (case expected_prev of Some expected \<Rightarrow> prev_hash e \<noteq> Some expected | None \<Rightarrow> False)
       then Err (ChainViolation (seq e))
       else bind_r (compute_hash U A e) (\<lambda>computed.
         if computed \<noteq> hash e then Err (HashMismatch (seq e))
         else verify_rows U A (Some (hash e)) rows))"

definition verify_chain ::
  "uuid_api \<Rightarrow> audit_env \<Rightarrow> audit_table \<Rightarrow> uuid \<Rightarrow> int \<Rightarrow> int \<Rightarrow> (bool, audit_error) result" where
  "verify_chain U A t community from_seq to_seq =
     (let rows = filter (\<lambda>r. from_seq \<le> seq (row_entry r) \<and> seq (row_entry r) \<le> to_seq) (community_rows t community) in
      if rows = [] then Ok False else verify_rows U A None rows)"

definition get_entries ::
  "audit_table \<Rightarrow> uuid \<Rightarrow> int \<Rightarrow> int \<Rightarrow> (audit_entry list, audit_error) result" where
  "get_entries t community from_seq limit =
     (if limit < 0 then Err (Database ''LIMIT must not be negative'')
      else collect_r (map row_to_audit_entry
        (take (nat limit) (filter (\<lambda>r. from_seq \<le> seq (row_entry r)) (community_rows t community)))))"

end
