(* ===== verification/Audit_Chain.thy ===== *)
theory Audit_Chain
  imports Audit_Log
begin

text \<open>
  What the audit log guarantees.  A log that was only ever appended to verifies on
  every range of every community, and reads back the entries in order.  A log that
  verifies and ends in a hash of an honest log is a suffix of it, entry for entry:
  the preimage of the hash determines every field, as long as the details are
  objects or null and the hashes and keys have 32 bytes.
\<close>

section \<open>Appending\<close>

lemma collect_r_Ok: "collect_r rs = Ok xs \<longleftrightarrow> rs = map Ok xs"
  by (induction rs arbitrary: xs) (auto simp: result_inv Cons_eq_map_conv)

lemma action_roundtrip [simp]: "audit_action_from_str (audit_action_str a) = Some a"
  by (cases a) (simp_all add: audit_action_from_str_def all_actions_def)

text \<open>The rows of a community form a chain: consecutive numbers, each row linked and hashed.\<close>

fun chained :: "uuid_api \<Rightarrow> audit_env \<Rightarrow> bytes option \<Rightarrow> int \<Rightarrow> audit_row list \<Rightarrow> bool" where
  "chained U A prev n [] \<longleftrightarrow> True"
| "chained U A prev n (r # rs) \<longleftrightarrow>
     row_action r = audit_action_str (action (row_entry r)) \<and> seq (row_entry r) = n
     \<and> prev_hash (row_entry r) = prev \<and> compute_hash U A (row_entry r) = Ok (hash (row_entry r))
     \<and> chained U A (Some (hash (row_entry r))) (n + 1) rs"

definition rows_of :: "uuid \<Rightarrow> audit_table \<Rightarrow> audit_row list" where
  "rows_of c t = filter (\<lambda>r. community_id (row_entry r) = c) t"

definition audit_inv :: "uuid_api \<Rightarrow> audit_env \<Rightarrow> audit_table \<Rightarrow> bool" where
  "audit_inv U A t \<longleftrightarrow> (\<forall>c. chained U A None 1 (rows_of c t))"

text \<open>The stored form of a detail hashes like the detail that was appended.\<close>

definition detail_survives :: "audit_env \<Rightarrow> json_value \<Rightarrow> bool" where
  "detail_survives A v \<longleftrightarrow> (\<forall>w. jsonb A v = Ok w \<longrightarrow> canonical_json A w = canonical_json A v)"

type_synonym audit_event = "int \<times> new_audit_entry"

definition audit_step :: "uuid_api \<Rightarrow> audit_env \<Rightarrow> audit_table \<Rightarrow> audit_event \<Rightarrow> audit_table \<Rightarrow> bool" where
  "audit_step U A t ev t' \<longleftrightarrow> (\<exists>e. append_locked U A (fst ev) t (snd ev) = Ok (e, t'))"

definition events_for :: "uuid \<Rightarrow> audit_event list \<Rightarrow> audit_event list" where
  "events_for c es = filter (\<lambda>ev. new_community (snd ev) = c) es"

lemma chained_seqs: "chained U A prev n rs \<Longrightarrow> map (\<lambda>r. seq (row_entry r)) rs = [n .. n + int (length rs) - 1]"
proof (induction rs arbitrary: prev n)
  case (Cons r rs)
  have "map (\<lambda>r. seq (row_entry r)) rs = [n + 1 .. n + 1 + int (length rs) - 1]"
    using Cons.IH [of "Some (hash (row_entry r))" "n + 1"] Cons.prems by simp
  moreover have "[n .. n + int (length rs)] = n # [n + 1 .. n + int (length rs)]" by (simp add: upto.simps)
  ultimately show ?case using Cons.prems by simp
qed simp

lemma chained_sorted: "chained U A prev n rs \<Longrightarrow> sort_key (\<lambda>r. seq (row_entry r)) rs = rs"
  by (rule sort_key_id_if_sorted) (simp add: chained_seqs)

lemma chained_append:
  "chained U A prev n (rs @ [r]) \<longleftrightarrow> chained U A prev n rs
     \<and> chained U A (if rs = [] then prev else Some (hash (row_entry (last rs)))) (n + int (length rs)) [r]"
  by (induction rs arbitrary: prev n) (auto simp: algebra_simps)

lemma community_rows_inv: "audit_inv U A t \<Longrightarrow> community_rows t c = rows_of c t"
  unfolding community_rows_def rows_of_def audit_inv_def using chained_sorted by blast

lemma chain_head_inv:
  assumes "audit_inv U A t"
  shows "chain_head t c = (int (length (rows_of c t)),
           if rows_of c t = [] then None else Some (hash (row_entry (last (rows_of c t)))))"
proof (cases "rows_of c t" rule: rev_cases)
  case Nil
  then show ?thesis using community_rows_inv [OF assms] by (simp add: chain_head_def)
next
  case (snoc rs r)
  then have "chained U A None 1 (rs @ [r])" using assms unfolding audit_inv_def by metis
  then have "seq (row_entry r) = 1 + int (length rs)" by (simp add: chained_append)
  then show ?thesis using snoc community_rows_inv [OF assms] by (simp add: chain_head_def)
qed

lemma i64_succ_small: "0 \<le> n \<Longrightarrow> n < 2 ^ 63 - 1 \<Longrightarrow> i64_succ n = n + 1"
  unfolding i64_succ_def by (simp only: signed_of_int) (simp add: signed_take_bit_int_eq_self)

lemma storage_precision_idem [simp]: "to_storage_precision (to_storage_precision t) = to_storage_precision t"
  by (simp add: to_storage_precision_def mod_diff_eq [symmetric])

lemma hash_preimage_cong:
  assumes "canonical_json A (detail e) = canonical_json A (detail e')"
    and "e'\<lparr>detail := detail e, hash := hash e\<rparr> = e"
  shows "hash_preimage U A e = hash_preimage U A e'"
proof -
  have "community_id e = community_id e'" "seq e = seq e'" "created_at e = created_at e'" "action e = action e'"
    "actor_pubkey e = actor_pubkey e'" "object_id e = object_id e'" "prev_hash e = prev_hash e'"
    using arg_cong [OF assms(2), of community_id] arg_cong [OF assms(2), of seq]
      arg_cong [OF assms(2), of created_at] arg_cong [OF assms(2), of action]
      arg_cong [OF assms(2), of actor_pubkey] arg_cong [OF assms(2), of object_id]
      arg_cong [OF assms(2), of prev_hash] by simp_all
  then show ?thesis using assms(1) by (simp add: hash_preimage_def)
qed

text \<open>What a successful append does to the table.\<close>

lemma append_locked_Ok:
  assumes "append_locked U A now t entry = Ok (e, t')"
  obtains w where "jsonb A (new_detail entry) = Ok w"
    "t' = t @ [row_of (e\<lparr>detail := w\<rparr>)]" "community_id e = new_community entry"
    "seq e = i64_succ (fst (chain_head t (new_community entry)))"
    "prev_hash e = snd (chain_head t (new_community entry))" "detail e = new_detail entry"
    "action e = new_action entry" "actor_pubkey e = new_actor entry" "object_id e = new_object entry"
    "created_at e = to_storage_precision now" "compute_hash U A e = Ok (hash e)"
proof -
  let ?c = "new_community entry"
  let ?e = "\<lparr>community_id = ?c, seq = i64_succ (fst (chain_head t ?c)), hash = [],
     prev_hash = snd (chain_head t ?c), action = new_action entry, actor_pubkey = new_actor entry,
     object_id = new_object entry, detail = new_detail entry, created_at = log_timestamp now\<rparr>"
  obtain h where h: "compute_hash U A ?e = Ok h" and i: "insert_row A t (?e\<lparr>hash := h\<rparr>) = Ok t'"
    and e: "e = ?e\<lparr>hash := h\<rparr>"
    using assms by (auto simp: append_locked_def result_inv split: prod.splits)
  have "hash_preimage U A e = hash_preimage U A ?e" unfolding e by (rule hash_preimage_cong) simp_all
  then have "compute_hash U A e = Ok (hash e)" using h e by (simp add: compute_hash_def)
  moreover obtain w where "jsonb A (new_detail entry) = Ok w" "t' = t @ [row_of (e\<lparr>detail := w\<rparr>)]"
    using i e by (auto simp: insert_row_def result_inv)
  ultimately show ?thesis using e by (intro that [of w]) (simp_all add: log_timestamp_def)
qed

lemma audit_step_inv:
  assumes step: "audit_step U A t ev t'" and inv: "audit_inv U A t"
    and room: "int (length (rows_of (new_community (snd ev)) t)) < 2 ^ 63 - 1"
    and survives: "detail_survives A (new_detail (snd ev))"
  shows "audit_inv U A t' \<and> (\<forall>c. length (rows_of c t') =
           length (rows_of c t) + (if new_community (snd ev) = c then 1 else 0))"
proof -
  let ?c = "new_community (snd ev)"
  obtain e where "append_locked U A (fst ev) t (snd ev) = Ok (e, t')" using step by (auto simp: audit_step_def)
  then obtain w where w: "jsonb A (new_detail (snd ev)) = Ok w"
    and t': "t' = t @ [row_of (e\<lparr>detail := w\<rparr>)]" and c: "community_id e = ?c"
    and s: "seq e = i64_succ (fst (chain_head t ?c))" and p: "prev_hash e = snd (chain_head t ?c)"
    and d: "detail e = new_detail (snd ev)" and h: "compute_hash U A e = Ok (hash e)"
    by (rule append_locked_Ok)
  have "canonical_json A w = canonical_json A (detail e)" using survives w d by (simp add: detail_survives_def)
  then have "hash_preimage U A (e\<lparr>detail := w\<rparr>) = hash_preimage U A e" by (intro hash_preimage_cong) simp_all
  then have h': "compute_hash U A (e\<lparr>detail := w\<rparr>) = Ok (hash e)" using h by (simp add: compute_hash_def)
  have "seq e = int (length (rows_of ?c t)) + 1" using s i64_succ_small room by (simp add: chain_head_inv [OF inv])
  then have "chained U A None 1 (rows_of ?c t @ [row_of (e\<lparr>detail := w\<rparr>)])"
    using inv h' p unfolding chained_append by (simp add: chain_head_inv [OF inv] row_of_def audit_inv_def)
  moreover have rows: "rows_of k t' = rows_of k t @ (if ?c = k then [row_of (e\<lparr>detail := w\<rparr>)] else [])" for k
    by (simp add: rows_of_def t' c row_of_def)
  ultimately show ?thesis using inv by (auto simp: audit_inv_def)
qed

lemma audit_run_inv:
  assumes "steps (audit_step U A) [] es t" and "length es < 2 ^ 63"
    and "\<forall>ev\<in>set es. detail_survives A (new_detail (snd ev))"
  shows "audit_inv U A t \<and> (\<forall>c. length (rows_of c t) = length (events_for c es))"
  using assms
proof (induction "[] :: audit_table" es t rule: steps.induct)
  case steps_Nil
  show ?case by (simp add: audit_inv_def rows_of_def events_for_def)
next
  case (steps_snoc es t ev u)
  let ?c = "new_community (snd ev)"
  have IH: "audit_inv U A t" "\<forall>c. length (rows_of c t) = length (events_for c es)"
    using steps_snoc by auto
  have "length (events_for ?c es) \<le> length es" by (simp add: events_for_def)
  then have "int (length (rows_of ?c t)) < 2 ^ 63 - 1" using IH(2) steps_snoc.prems(1) by simp
  from audit_step_inv [OF steps_snoc.hyps(3) IH(1) this] steps_snoc.prems(2) IH(2)
  show ?case by (simp add: events_for_def)
qed


section \<open>An honest log verifies\<close>

lemma verify_chained:
  "chained U A prev n rs \<Longrightarrow> expected = None \<or> expected = prev \<Longrightarrow> verify_rows U A expected rs = Ok True"
  by (induction rs arbitrary: prev n expected) (auto simp: row_to_audit_entry_def split: option.splits)

definition in_range :: "int \<Rightarrow> int \<Rightarrow> audit_row \<Rightarrow> bool" where
  "in_range a b r \<longleftrightarrow> a \<le> seq (row_entry r) \<and> seq (row_entry r) \<le> b"

lemma chained_seq_ge: "chained U A prev n rs \<Longrightarrow> r \<in> set rs \<Longrightarrow> n \<le> seq (row_entry r)"
  by (induction rs arbitrary: prev n) fastforce+

lemma chained_prefix:
  "chained U A prev n rs \<Longrightarrow> a \<le> n \<Longrightarrow> chained U A prev n (filter (in_range a b) rs)"
proof (induction rs arbitrary: prev n)
  case (Cons r rs)
  show ?case
  proof (cases "n \<le> b")
    case True
    then show ?thesis using Cons by (simp add: in_range_def)
  next
    case False
    then have "filter (in_range a b) (r # rs) = []"
      using chained_seq_ge [OF Cons.prems(1)] by (fastforce simp: filter_empty_conv in_range_def)
    then show ?thesis by simp
  qed
qed simp

lemma chained_range:
  "chained U A prev n rs \<Longrightarrow> \<exists>prev' m. chained U A prev' m (filter (in_range a b) rs)"
proof (induction rs arbitrary: prev n)
  case (Cons r rs)
  show ?case
  proof (cases "a \<le> n")
    case True
    then show ?thesis using chained_prefix [OF Cons.prems] by blast
  next
    case False
    then have "filter (in_range a b) (r # rs) = filter (in_range a b) rs"
      using Cons.prems by (simp add: in_range_def)
    moreover have "chained U A (Some (hash (row_entry r))) (n + 1) rs" using Cons.prems by simp
    ultimately show ?thesis using Cons.IH by metis
  qed
qed simp

lemma chained_range_empty:
  assumes "chained U A None 1 rs"
  shows "filter (in_range a b) rs = [] \<longleftrightarrow> \<not> max a 1 \<le> min b (int (length rs))"
proof -
  have "set (map (\<lambda>r. seq (row_entry r)) rs) = {1 .. int (length rs)}" by (simp add: chained_seqs [OF assms])
  then have seqs: "(\<lambda>r. seq (row_entry r)) ` set rs = {1 .. int (length rs)}" by simp
  have "filter (in_range a b) rs = [] \<longleftrightarrow> \<not> (\<exists>k\<in>(\<lambda>r. seq (row_entry r)) ` set rs. a \<le> k \<and> k \<le> b)"
    by (auto simp: filter_empty_conv in_range_def)
  also have "\<dots> \<longleftrightarrow> \<not> max a 1 \<le> min b (int (length rs))"
    unfolding seqs by (auto dest!: bspec [of _ _ "max a 1"])
  finally show ?thesis .
qed

lemma verify_chain_rows:
  "verify_chain U A t c a b =
     (let rows = filter (in_range a b) (community_rows t c) in if rows = [] then Ok False else verify_rows U A None rows)"
  by (simp add: verify_chain_def in_range_def [abs_def])

lemma verify_honest:
  assumes "audit_inv U A t"
  shows "verify_chain U A t c a b = Ok (max a 1 \<le> min b (int (length (rows_of c t))))"
proof -
  have ch: "chained U A None 1 (rows_of c t)" using assms by (simp add: audit_inv_def)
  obtain prev m where "chained U A prev m (filter (in_range a b) (rows_of c t))" using chained_range [OF ch] by blast
  then have "verify_rows U A None (filter (in_range a b) (rows_of c t)) = Ok True" by (rule verify_chained) simp
  then show ?thesis
    unfolding verify_chain_rows community_rows_inv [OF assms] using chained_range_empty [OF ch] by (auto simp: Let_def)
qed

text \<open>Reading back: the entries of a community are those appended for it, in order.\<close>

definition records :: "audit_env \<Rightarrow> audit_event \<Rightarrow> audit_entry \<Rightarrow> bool" where
  "records A ev e \<longleftrightarrow> community_id e = new_community (snd ev) \<and> action e = new_action (snd ev)
     \<and> actor_pubkey e = new_actor (snd ev) \<and> object_id e = new_object (snd ev)
     \<and> jsonb A (new_detail (snd ev)) = Ok (detail e) \<and> created_at e = to_storage_precision (fst ev)"

lemma audit_step_rows:
  assumes "audit_step U A t ev t'"
  shows "\<exists>r. records A ev (row_entry r)
     \<and> (\<forall>c. rows_of c t' = rows_of c t @ (if new_community (snd ev) = c then [r] else []))"
proof -
  obtain e where "append_locked U A (fst ev) t (snd ev) = Ok (e, t')" using assms by (auto simp: audit_step_def)
  then obtain w where "jsonb A (new_detail (snd ev)) = Ok w" "t' = t @ [row_of (e\<lparr>detail := w\<rparr>)]"
    "community_id e = new_community (snd ev)" "action e = new_action (snd ev)" "actor_pubkey e = new_actor (snd ev)"
    "object_id e = new_object (snd ev)" "created_at e = to_storage_precision (fst ev)"
    by (rule append_locked_Ok)
  then show ?thesis by (intro exI [of _ "row_of (e\<lparr>detail := w\<rparr>)"]) (simp add: records_def row_of_def rows_of_def)
qed

lemma audit_run_records:
  "steps (audit_step U A) [] es t \<Longrightarrow> list_all2 (\<lambda>ev r. records A ev (row_entry r)) (events_for c es) (rows_of c t)"
proof (induction "[] :: audit_table" es t rule: steps.induct)
  case (steps_snoc es t ev u)
  then obtain r where "records A ev (row_entry r)"
    "rows_of c u = rows_of c t @ (if new_community (snd ev) = c then [r] else [])"
    using audit_step_rows by blast
  then show ?case using steps_snoc.hyps(2) by (simp add: events_for_def list_all2_appendI)
qed (simp add: events_for_def rows_of_def)

lemma chained_from:
  "chained U A prev n rs \<Longrightarrow> filter (\<lambda>r. a \<le> seq (row_entry r)) rs = drop (nat (a - n)) rs"
proof (induction rs arbitrary: prev n)
  case (Cons r rs)
  then have IH: "filter (\<lambda>r. a \<le> seq (row_entry r)) rs = drop (nat (a - (n + 1))) rs" "seq (row_entry r) = n"
    by auto
  show ?case
  proof (cases "a \<le> n")
    case False
    then have "nat (a - n) = Suc (nat (a - (n + 1)))" by simp
    then show ?thesis using IH False by simp
  qed (use IH in simp)
qed simp

lemma chained_actions:
  "chained U A prev n rs \<Longrightarrow> r \<in> set rs \<Longrightarrow> row_to_audit_entry r = Ok (row_entry r)"
  by (induction rs arbitrary: prev n) (auto simp: row_to_audit_entry_def)

lemma get_entries_honest:
  assumes "audit_inv U A t" and "0 \<le> n"
  shows "get_entries t c a n = Ok (map row_entry (take (nat n) (drop (nat (a - 1)) (rows_of c t))))"
proof -
  have ch: "chained U A None 1 (rows_of c t)" using assms by (simp add: audit_inv_def)
  have "map row_to_audit_entry (take (nat n) (drop (nat (a - 1)) (rows_of c t)))
      = map (\<lambda>r. Ok (row_entry r)) (take (nat n) (drop (nat (a - 1)) (rows_of c t)))"
    using chained_actions [OF ch] by (auto dest: in_set_takeD in_set_dropD)
  then show ?thesis using assms(2)
    by (simp add: get_entries_def community_rows_inv [OF assms(1)] chained_from [OF ch] collect_r_Ok)
qed


section \<open>Details end where they end\<close>

text \<open>
  A reader of JSON bytes that only tracks strings, escapes and braces.  The text of
  an object closes its first brace with its last byte, so no proper suffix of it is
  the text of an object: a suffix that starts outside a string is left with a
  surplus closing brace, and one that starts inside a string takes strings for
  structure and structure for strings up to the end.
\<close>

datatype lexer_mode = Plain | Quoted | Escaped

fun lex_byte :: "lexer_mode \<times> int \<Rightarrow> u8 \<Rightarrow> (lexer_mode \<times> int) option" where
  "lex_byte (Plain, d) b =
     (if b = 34 then Some (Quoted, d) else if b = 92 then None
      else if b = 123 then Some (Plain, d + 1) else if b = 125 then Some (Plain, d - 1) else Some (Plain, d))"
| "lex_byte (Quoted, d) b =
     (if b = 34 then Some (Plain, d) else if b = 92 then Some (Escaped, d) else Some (Quoted, d))"
| "lex_byte (Escaped, d) b = Some (Quoted, d)"

fun lex :: "lexer_mode \<times> int \<Rightarrow> bytes \<Rightarrow> (lexer_mode \<times> int) option" where
  "lex s [] = Some s"
| "lex s (b # bs) = Option.bind (lex_byte s b) (\<lambda>s'. lex s' bs)"

lemma lex_append: "lex s (xs @ ys) = Option.bind (lex s xs) (\<lambda>s'. lex s' ys)"
  by (induction xs arbitrary: s) (simp_all add: Option.bind_assoc)

lemma lex_byte_shift: "lex_byte (m, d + k) b = map_option (\<lambda>(m', d'). (m', d' + k)) (lex_byte (m, d) b)"
  by (cases m) simp_all

lemma lex_shift: "lex (m, d + k) bs = map_option (\<lambda>(m', d'). (m', d' + k)) (lex (m, d) bs)"
proof (induction bs arbitrary: m d)
  case (Cons b bs)
  show ?case
  proof (cases "lex_byte (m, d) b")
    case (Some s)
    obtain m' d' where "s = (m', d')" by (cases s)
    then show ?thesis using Some Cons.IH [of m' d'] by (simp add: lex_byte_shift)
  qed (simp add: lex_byte_shift)
qed simp

text \<open>A self-contained text: it leaves the reader as it found it, and never goes below its depth.\<close>

definition balanced :: "bytes \<Rightarrow> bool" where
  "balanced bs \<longleftrightarrow> lex (Plain, 0) bs = Some (Plain, 0)
     \<and> (\<forall>p q m d. bs = p @ q \<longrightarrow> lex (Plain, 0) p = Some (m, d) \<longrightarrow> 0 \<le> d)"

lemma balanced_Nil [simp]: "balanced []"
  by (simp add: balanced_def)

lemma balanced_append:
  assumes "balanced xs" "balanced ys"
  shows "balanced (xs @ ys)"
  unfolding balanced_def
proof (intro conjI allI impI)
  show "lex (Plain, 0) (xs @ ys) = Some (Plain, 0)" using assms by (simp add: balanced_def lex_append)
  fix p q m d
  assume pq: "xs @ ys = p @ q" and l: "lex (Plain, 0) p = Some (m, d)"
  from pq consider us where "xs = p @ us" | us where "p = xs @ us" "ys = us @ q"
    by (auto simp: append_eq_append_conv2)
  then show "0 \<le> d"
  proof cases
    case 1
    then show ?thesis using assms(1) l by (auto simp: balanced_def)
  next
    case 2
    then show ?thesis using assms l by (auto simp: balanced_def lex_append)
  qed
qed

lemma balanced_plain: "b \<notin> {34, 92, 123, 125} \<Longrightarrow> balanced [b]"
  by (auto simp: balanced_def Cons_eq_append_conv)

lemma lex_quoted: "\<forall>b\<in>set bs. b \<noteq> 34 \<and> b \<noteq> 92 \<Longrightarrow> lex (Quoted, d) bs = Some (Quoted, d)"
  by (induction bs) simp_all

lemma balanced_string:
  assumes "\<forall>b\<in>set bs. b \<noteq> 34 \<and> b \<noteq> 92"
  shows "balanced (34 # bs @ [34])"
  unfolding balanced_def
proof (intro conjI allI impI)
  show "lex (Plain, 0) (34 # bs @ [34]) = Some (Plain, 0)" using assms by (simp add: lex_append lex_quoted)
  fix p q m d
  assume pq: "34 # bs @ [34] = p @ q" and l: "lex (Plain, 0) p = Some (m, d)"
  consider "p = []" | "p = 34 # bs @ [34]" | p' q' where "p = 34 # p'" "bs = p' @ q'"
    using pq by (cases q rule: rev_cases) (auto simp: Cons_eq_append_conv)
  then show "0 \<le> d"
  proof cases
    case 3
    then have "lex (Quoted, 0) p' = Some (Quoted, 0)" using assms by (intro lex_quoted) simp
    then show ?thesis using l 3(1) by simp
  qed (use l assms in \<open>simp_all add: lex_append lex_quoted\<close>)
qed

lemma lex_object:
  assumes "balanced bs"
  shows "lex (Plain, 0) ([123] @ bs @ [125]) = Some (Plain, 0)"
    and "[123] @ bs @ [125] = p @ q \<Longrightarrow> p \<noteq> [] \<Longrightarrow> q \<noteq> [] \<Longrightarrow> lex (Plain, 0) p = Some (m, d) \<Longrightarrow> 1 \<le> d"
proof -
  have up: "lex (Plain, 1) xs = map_option (\<lambda>(m', d'). (m', d' + 1)) (lex (Plain, 0) xs)" for xs
    using lex_shift [of Plain 0 1 xs] by simp
  show "lex (Plain, 0) ([123] @ bs @ [125]) = Some (Plain, 0)"
    using assms by (simp add: lex_append up balanced_def)
  assume "[123] @ bs @ [125] = p @ q" "p \<noteq> []" "q \<noteq> []" and l: "lex (Plain, 0) p = Some (m, d)"
  then obtain p' q' where "p = 123 # p'" "bs = p' @ q'"
    by (cases q rule: rev_cases) (auto simp: Cons_eq_append_conv)
  then show "1 \<le> d" using l assms by (auto simp: balanced_def up)
qed

lemma balanced_object: "balanced bs \<Longrightarrow> balanced ([123] @ bs @ [125])"
  unfolding balanced_def [of "[123] @ bs @ [125]"]
proof (intro conjI allI impI)
  fix p q m d
  assume b: "balanced bs" and pq: "[123] @ bs @ [125] = p @ q" and l: "lex (Plain, 0) p = Some (m, d)"
  show "0 \<le> d"
  proof (cases "p = [] \<or> q = []")
    case True
    then show ?thesis using l pq lex_object(1) [OF b] by auto
  next
    case False
    then show ?thesis using lex_object(2) [OF b pq _ _ l] by simp
  qed
qed (rule lex_object(1))

text \<open>Two readers of the same bytes, one inside a string and one outside, never agree.\<close>

lemma lex_opposed:
  "lex (Plain, d) bs = Some (m, d') \<Longrightarrow> lex (Quoted, e) bs = Some (m', e') \<Longrightarrow>
     (m = Plain \<and> m' \<noteq> Plain) \<or> (m \<noteq> Plain \<and> m' = Plain)"
proof (induction bs arbitrary: d e m d' m' e')
  case (Cons b bs)
  show ?case
  proof (cases "b = 34")
    case True
    then have "lex (Plain, e) bs = Some (m', e')" "lex (Quoted, d) bs = Some (m, d')" using Cons.prems by simp_all
    then show ?thesis using Cons.IH by blast
  next
    case False
    then have "b \<noteq> 92" using Cons.prems by auto
    with False obtain d'' where "lex (Plain, d'') bs = Some (m, d')" "lex (Quoted, e) bs = Some (m', e')"
      using Cons.prems by (auto split: if_splits)
    then show ?thesis using Cons.IH by blast
  qed
qed auto

lemma object_suffix:
  assumes bal: "balanced bs" "balanced bs'" and eq: "[123] @ bs @ [125] = p @ [123] @ bs' @ [125]"
  shows "p = []"
proof (rule ccontr)
  assume "p \<noteq> []"
  let ?s = "[123] @ bs' @ [125]"
  have "Option.bind (lex (Plain, 0) p) (\<lambda>s. lex s ?s) = Some (Plain, 0)"
    using lex_object(1) [OF bal(1)] unfolding eq lex_append [of _ p] .
  then obtain m d where p: "lex (Plain, 0) p = Some (m, d)" and s: "lex (m, d) ?s = Some (Plain, 0)"
    by (auto simp: bind_eq_Some_conv)
  have d: "1 \<le> d" using lex_object(2) [OF bal(1) eq \<open>p \<noteq> []\<close> _ p] by simp
  have out: "lex (Plain, 0) ?s = Some (Plain, 0)" by (rule lex_object(1) [OF bal(2)])
  show False
  proof (cases m)
    case Plain
    then show False using s out d lex_shift [of Plain 0 d ?s] by simp
  next
    case Quoted
    then show False using lex_opposed [OF out] s by blast
  next
    case Escaped
    then have "lex (Quoted, d) (bs' @ [125]) = Some (Plain, 0)" using s by simp
    moreover have "lex (Plain, 1) (bs' @ [125]) = Some (Plain, 0)" using out by simp
    ultimately show False using lex_opposed by blast
  qed
qed

text \<open>What the JSON text of a scalar looks like to this reader.\<close>

definition scalar_texts :: "audit_env \<Rightarrow> bool" where
  "scalar_texts A \<longleftrightarrow> scalar_to_string A JNull = Ok (ustr ''null'')
     \<and> (\<forall>v out. scalar_to_string A v = Ok out \<longrightarrow> balanced (str_bytes out))"

lemma str_bytes_ascii: "c < 128 \<Longrightarrow> str_bytes (c # s) = word_of_nat c # str_bytes s"
  by (simp add: str_bytes_def utf8_char_def)

lemma balanced_join:
  "\<forall>s\<in>set ss. balanced (str_bytes s) \<Longrightarrow> balanced (str_bytes (join_on 44 ss))"
proof (induction "44 :: nat" ss rule: join_on.induct)
  case (3 s t ss)
  have "balanced [44]" by (rule balanced_plain) simp
  with 3 show ?case using balanced_append [of "[44]"] by (auto intro!: balanced_append simp: str_bytes_ascii)
qed simp_all

lemma object_inner:
  assumes A: "scalar_texts A" and IH: "\<And>k v o'. (k, v) \<in> set kvs \<Longrightarrow> canonical_json A v = Ok o' \<Longrightarrow> balanced (str_bytes o')"
    and obj: "canonical_json A (JObject kvs) = Ok out"
  shows "\<exists>bs. balanced bs \<and> str_bytes out = [123] @ bs @ [125]"
proof -
  define part where "part k v = bind_r (scalar_to_string A (JString k)) (\<lambda>kt.
     bind_r (canonical_json A v) (\<lambda>vt. Ok (kt @ [58] @ vt)))" for k v
  obtain parts where parts: "map snd (sort_key fst (map (\<lambda>(k, v). (k, part k v)) kvs)) = map Ok parts"
    and out: "out = [123] @ join_on 44 parts @ [125]"
    using obj by (auto simp: result_inv collect_r_Ok part_def)
  have "balanced (str_bytes s)" if "s \<in> set parts" for s
  proof -
    have "Ok s \<in> set (map snd (sort_key fst (map (\<lambda>(k, v). (k, part k v)) kvs)))" unfolding parts using that by simp
    then obtain k v where kv: "(k, v) \<in> set kvs" "part k v = Ok s" by auto
    then obtain kt vt where s: "s = kt @ [58] @ vt" and t: "scalar_to_string A (JString k) = Ok kt" "canonical_json A v = Ok vt"
      by (auto simp: part_def result_inv)
    have "balanced (str_bytes vt)" using IH [OF kv(1) t(2)] .
    moreover have "balanced (str_bytes kt)" using A t(1) by (simp add: scalar_texts_def)
    moreover have "balanced [58]" by (rule balanced_plain) simp
    ultimately show ?thesis unfolding s using balanced_append [of "[58]"]
      by (auto intro!: balanced_append simp: str_bytes_ascii)
  qed
  then have "balanced (str_bytes (join_on 44 parts))" by (intro balanced_join) blast
  then show ?thesis by (intro exI [of _ "str_bytes (join_on 44 parts)"]) (simp add: out str_bytes_ascii)
qed

lemma canonical_balanced:
  assumes A: "scalar_texts A"
  shows "canonical_json A v = Ok out \<Longrightarrow> balanced (str_bytes out)"
proof (induction v arbitrary: out)
  case (JArray vs)
  then obtain parts where parts: "map (canonical_json A) vs = map Ok parts" and out: "out = [91] @ join_on 44 parts @ [93]"
    by (auto simp: result_inv collect_r_Ok)
  have "balanced (str_bytes s)" if "s \<in> set parts" for s
  proof -
    have "Ok s \<in> set (map (canonical_json A) vs)" unfolding parts using that by simp
    then show ?thesis using JArray.IH by auto
  qed
  then have "balanced (str_bytes (join_on 44 parts))" by (intro balanced_join) blast
  moreover have "balanced [91]" "balanced [93]" by (rule balanced_plain, simp)+
  ultimately show ?case unfolding out
    using balanced_append [of "[91]"] balanced_append [of _ "[93]"] by (simp add: str_bytes_ascii)
next
  case (JObject kvs)
  have "\<exists>bs. balanced bs \<and> str_bytes out = [123] @ bs @ [125]"
  proof (rule object_inner [OF A _ JObject.prems])
    fix k v o' assume "(k, v) \<in> set kvs" "canonical_json A v = Ok o'"
    then show "balanced (str_bytes o')" using JObject.IH [of "(k, v)" v o'] by simp
  qed
  then show ?case using balanced_object by auto
qed (use A in \<open>auto simp: scalar_texts_def\<close>)

definition plain_detail :: "json_value \<Rightarrow> bool" where
  "plain_detail v \<longleftrightarrow> (case v of JNull \<Rightarrow> True | JObject _ \<Rightarrow> True | _ \<Rightarrow> False)"

lemma plain_text:
  assumes "scalar_texts A" "plain_detail v" "canonical_json A v = Ok out"
  shows "str_bytes out = str_bytes (ustr ''null'') \<or> (\<exists>bs. balanced bs \<and> str_bytes out = [123] @ bs @ [125])"
  using assms object_inner [OF assms(1) canonical_balanced [OF assms(1)]]
  by (auto simp: plain_detail_def scalar_texts_def split: json_value.splits)

lemma plain_text_suffix:
  assumes "scalar_texts A" "plain_detail v" "plain_detail v'"
    "canonical_json A v = Ok out" "canonical_json A v' = Ok out'" "str_bytes out = p @ str_bytes out'"
  shows "p = []"
proof -
  have null: "str_bytes (ustr ''null'') = [110, 117, 108, 108]" by (simp add: ustr_def str_bytes_def utf8_char_def)
  have last: "last (str_bytes out) = last (str_bytes out')"
    using plain_text [OF assms(1,3,5)] by (auto simp: assms(6) null)
  from plain_text [OF assms(1,2,4)] plain_text [OF assms(1,3,5)] consider
      (nulls) "str_bytes out = str_bytes (ustr ''null'')" "str_bytes out' = str_bytes (ustr ''null'')"
    | (objects) bs bs' where "balanced bs" "balanced bs'" "str_bytes out = [123] @ bs @ [125]" "str_bytes out' = [123] @ bs' @ [125]"
    | (mixed) "last (str_bytes out) \<noteq> last (str_bytes out')"
    by (fastforce simp: null)
  then show ?thesis
  proof cases
    case nulls
    then show ?thesis using assms(6) by simp
  next
    case objects
    then show ?thesis using object_suffix [of bs bs' p] assms(6) by simp
  qed (use last in simp)
qed

lemma plain_text_split:
  assumes "scalar_texts A" "plain_detail v" "plain_detail v'"
    "canonical_json A v = Ok out" "canonical_json A v' = Ok out'" "x @ str_bytes out = x' @ str_bytes out'"
  shows "x = x' \<and> str_bytes out = str_bytes out'"
proof -
  from assms(6) consider p where "str_bytes out = p @ str_bytes out'" | p where "str_bytes out' = p @ str_bytes out"
    unfolding append_eq_append_conv2 by metis
  then show ?thesis
  proof cases
    case 1
    with plain_text_suffix [OF assms(1-5)] show ?thesis using assms(6) by auto
  next
    case 2
    with plain_text_suffix [OF assms(1,3,2,5,4)] show ?thesis using assms(6) by auto
  qed
qed


section \<open>The preimage determines the entry\<close>

definition link_bytes :: "audit_entry \<Rightarrow> bytes" where
  "link_bytes e = (case prev_hash e of Some h \<Rightarrow> h | None \<Rightarrow> GENESIS_HASH)"

definition detail_bytes :: "audit_env \<Rightarrow> audit_entry \<Rightarrow> bytes option" where
  "detail_bytes A e = (case canonical_json A (detail e) of Ok out \<Rightarrow> Some (str_bytes out) | Err _ \<Rightarrow> None)"

text \<open>Two entries say the same, and continue the same predecessor.\<close>

definition same_entry :: "audit_env \<Rightarrow> audit_entry \<Rightarrow> audit_entry \<Rightarrow> bool" where
  "same_entry A e e' \<longleftrightarrow> community_id e = community_id e' \<and> seq e = seq e'
     \<and> to_storage_precision (created_at e) = to_storage_precision (created_at e')
     \<and> action e = action e' \<and> actor_pubkey e = actor_pubkey e'
     \<and> map_option str_bytes (object_id e) = map_option str_bytes (object_id e')
     \<and> detail_bytes A e = detail_bytes A e' \<and> link_bytes e = link_bytes e'"

text \<open>Rows of the shape the relay writes.\<close>

definition entry_shape :: "audit_entry \<Rightarrow> bool" where
  "entry_shape e \<longleftrightarrow> plain_detail (detail e) \<and> - (2 ^ 63) \<le> seq e \<and> seq e < 2 ^ 63
     \<and> (case actor_pubkey e of None \<Rightarrow> True | Some pk \<Rightarrow> length pk = 32)
     \<and> (case prev_hash e of None \<Rightarrow> True | Some h \<Rightarrow> length h = 32)"

definition timestamp_texts :: "audit_env \<Rightarrow> bool" where
  "timestamp_texts A \<longleftrightarrow> inj (to_rfc3339 A) \<and> (\<forall>t. \<forall>c\<in>set (to_rfc3339 A t). c < 97)"


lemma span_unique:
  assumes "\<forall>b\<in>set xs. P b" "\<not> P y" "\<forall>b\<in>set xs'. P b" "\<not> P y'" "xs @ y # ys = xs' @ y' # ys'"
  shows "xs = xs' \<and> y # ys = y' # ys'"
proof -
  have "takeWhile P (xs @ y # ys) = xs" "takeWhile P (xs' @ y' # ys') = xs'"
    using assms(1-4) by (simp_all add: takeWhile_append2)
  then show ?thesis using assms(5) by simp
qed

lemma str_bytes_map: "\<forall>c\<in>set s. c < 128 \<Longrightarrow> str_bytes s = map word_of_nat s"
  by (induction s) (simp_all add: str_bytes_ascii)

lemma timestamp_bytes:
  assumes "timestamp_texts A"
  shows "\<forall>b\<in>set (str_bytes (to_rfc3339 A t)). b < 97"
    and "str_bytes (to_rfc3339 A t) = str_bytes (to_rfc3339 A t') \<longleftrightarrow> t = t'"
proof -
  have c: "\<forall>c\<in>set (to_rfc3339 A t). c < 97" for t using assms by (simp add: timestamp_texts_def)
  then have c': "\<forall>c\<in>set (to_rfc3339 A t). c < 128" for t by fastforce
  have "b < 97" if b: "b \<in> set (str_bytes (to_rfc3339 A t))" for b
  proof -
    obtain c where "b = word_of_nat c" "c < 97" using b c str_bytes_map [OF c'] by auto
    then show ?thesis by (simp add: word_less_nat_alt unat_ascii)
  qed
  then show "\<forall>b\<in>set (str_bytes (to_rfc3339 A t)). b < 97" by blast
  show "str_bytes (to_rfc3339 A t) = str_bytes (to_rfc3339 A t') \<longleftrightarrow> t = t'"
    using str_bytes_ascii_inject c' assms by (auto simp: list_all_iff timestamp_texts_def dest: injD)
qed

lemma action_bytes:
  "\<exists>b bs. str_bytes (ustr (audit_action_str a)) = b # bs \<and> \<not> b < 97 \<and> (\<forall>b\<in>set (b # bs). 95 \<le> b)"
  by (cases a) (simp_all add: ustr_def str_bytes_def utf8_char_def)

lemma action_bytes_inject:
  "str_bytes (ustr (audit_action_str a)) = str_bytes (ustr (audit_action_str a')) \<longleftrightarrow> a = a'"
proof
  assume "str_bytes (ustr (audit_action_str a)) = str_bytes (ustr (audit_action_str a'))"
  moreover have "list_all (\<lambda>c. c < 128) (ustr (audit_action_str a))" for a
    by (cases a) (simp_all add: ustr_def)
  ultimately have "audit_action_str a = audit_action_str a'" using str_bytes_ascii_inject by auto
  then show "a = a'" by (metis action_roundtrip option.inject)
qed simp

lemma word_bytes_inject:
  assumes "map (\<lambda>i. ucast (drop_bit (8 * i) v) :: u8) [7, 6, 5, 4, 3, 2, 1, 0 :: nat]
         = map (\<lambda>i. ucast (drop_bit (8 * i) w)) [7, 6, 5, 4, 3, 2, 1, 0]"
  shows "v = (w :: 64 word)"
proof (rule bit_word_eqI)
  fix n assume n: "n < LENGTH(64)"
  have "n div 8 \<in> set [7, 6, 5, 4, 3, 2, 1, 0 :: nat]" using n by auto
  then have "(ucast (drop_bit (8 * (n div 8)) v) :: u8) = ucast (drop_bit (8 * (n div 8)) w)"
    using assms unfolding map_eq_conv by blast
  then have "bit (ucast (drop_bit (8 * (n div 8)) v) :: u8) (n mod 8) = bit (ucast (drop_bit (8 * (n div 8)) w) :: u8) (n mod 8)"
    by simp
  then show "bit v n = bit w n" by (simp add: bit_unsigned_iff bit_drop_bit_eq)
qed

lemma i64_bytes_inject:
  assumes "i64_be_bytes m = i64_be_bytes n" "- (2 ^ 63) \<le> m" "m < 2 ^ 63" "- (2 ^ 63) \<le> n" "n < 2 ^ 63"
  shows "m = n"
proof -
  have "(word_of_int m :: 64 word) = word_of_int n" using assms(1) unfolding i64_be_bytes_def by (rule word_bytes_inject)
  then have "sint (word_of_int m :: 64 word) = sint (word_of_int n :: 64 word)" by simp
  then show ?thesis using assms(2-5) by (simp add: signed_of_int signed_take_bit_int_eq_self)
qed

lemma length_i64_be_bytes [simp]: "length (i64_be_bytes n) = 8"
  by (simp add: i64_be_bytes_def)

lemma tagged_key:
  assumes "(case k of Some pk \<Rightarrow> 1 # pk | None \<Rightarrow> [0]) @ xs = (case k' of Some pk \<Rightarrow> 1 # pk | None \<Rightarrow> [0]) @ (xs' :: bytes)"
    "case k of None \<Rightarrow> True | Some pk \<Rightarrow> length pk = 32" "case k' of None \<Rightarrow> True | Some pk \<Rightarrow> length pk = 32"
  shows "k = k' \<and> xs = xs'"
  using assms by (auto split: option.splits)

lemma tagged_head: "(case k of Some pk \<Rightarrow> 1 # pk | None \<Rightarrow> [0]) @ xs
   = (if k = None then 0 else 1 :: u8) # (case k of Some pk \<Rightarrow> pk | None \<Rightarrow> []) @ xs"
  by (cases k) simp_all

lemma length_link_bytes: "entry_shape e \<Longrightarrow> length (link_bytes e) = 32"
  by (auto simp: entry_shape_def link_bytes_def GENESIS_HASH_def split: option.splits)

lemma preimage_Ok:
  "hash_preimage U A e = Ok p \<longleftrightarrow> (\<exists>out. canonical_json A (detail e) = Ok out \<and>
     p = as_bytes U (community_id e) @ i64_be_bytes (seq e)
        @ str_bytes (to_rfc3339 A (to_storage_precision (created_at e)))
        @ str_bytes (ustr (audit_action_str (action e)))
        @ (case actor_pubkey e of Some pk \<Rightarrow> 1 # pk | None \<Rightarrow> [0])
        @ (case object_id e of Some i \<Rightarrow> 1 # str_bytes i | None \<Rightarrow> [0])
        @ str_bytes out @ link_bytes e)"
  by (auto simp: hash_preimage_def link_bytes_def result_inv)

lemma object_and_detail:
  assumes "scalar_texts A" "plain_detail v" "plain_detail v'" "canonical_json A v = Ok out" "canonical_json A v' = Ok out'"
    and eq: "(case i of Some i \<Rightarrow> 1 # str_bytes i | None \<Rightarrow> [0]) @ str_bytes out
         = (case i' of Some i \<Rightarrow> 1 # str_bytes i | None \<Rightarrow> [0]) @ str_bytes out'"
  shows "map_option str_bytes i = map_option str_bytes i' \<and> str_bytes out = str_bytes out'"
  using plain_text_split [OF assms(1-5), of "case i of Some i \<Rightarrow> 1 # str_bytes i | None \<Rightarrow> [0]"
      "case i' of Some i \<Rightarrow> 1 # str_bytes i | None \<Rightarrow> [0]"] eq
  by (auto split: option.splits)

lemma time_and_action:
  assumes "timestamp_texts A" "x < 95" "y < 95"
    and eq: "str_bytes (to_rfc3339 A t) @ str_bytes (ustr (audit_action_str a)) @ x # xs
           = str_bytes (to_rfc3339 A t') @ str_bytes (ustr (audit_action_str a')) @ y # ys"
  shows "t = t' \<and> a = a' \<and> x # xs = y # ys"
proof -
  obtain b bs where b: "str_bytes (ustr (audit_action_str a)) = b # bs" "\<not> b < 97" "\<forall>c\<in>set (b # bs). 95 \<le> c"
    using action_bytes by blast
  obtain b' bs' where b': "str_bytes (ustr (audit_action_str a')) = b' # bs'" "\<not> b' < 97" "\<forall>c\<in>set (b' # bs'). 95 \<le> c"
    using action_bytes by blast
  have "str_bytes (to_rfc3339 A t) @ b # (bs @ x # xs) = str_bytes (to_rfc3339 A t') @ b' # (bs' @ y # ys)"
    using eq b(1) b'(1) by simp
  from span_unique [OF timestamp_bytes(1) [OF assms(1)] b(2) timestamp_bytes(1) [OF assms(1)] b'(2) this]
  have t: "str_bytes (to_rfc3339 A t) = str_bytes (to_rfc3339 A t')" and r: "(b # bs) @ x # xs = (b' # bs') @ y # ys"
    by simp_all
  have "\<not> 95 \<le> x" "\<not> 95 \<le> y" using assms(2,3) by simp_all
  from span_unique [OF b(3) this(1) b'(3) this(2) r] show ?thesis
    using t b(1) b'(1) timestamp_bytes(2) [OF assms(1)] action_bytes_inject by metis
qed

lemma preimage_determines:
  assumes U: "uuid_bytes_ok U" and A: "scalar_texts A" "timestamp_texts A"
    and shape: "entry_shape e" "entry_shape e'"
    and pre: "hash_preimage U A e = Ok p" "hash_preimage U A e' = Ok p"
  shows "same_entry A e e'"
proof -
  let ?k = "\<lambda>e. case actor_pubkey e of Some pk \<Rightarrow> 1 # pk | None \<Rightarrow> [0]"
  let ?o = "\<lambda>e. case object_id e of Some i \<Rightarrow> 1 # str_bytes i | None \<Rightarrow> [0]"
  obtain out out' where out: "canonical_json A (detail e) = Ok out" "canonical_json A (detail e') = Ok out'"
    and eq: "as_bytes U (community_id e) @ i64_be_bytes (seq e)
        @ str_bytes (to_rfc3339 A (to_storage_precision (created_at e)))
        @ str_bytes (ustr (audit_action_str (action e))) @ ?k e @ ?o e @ str_bytes out @ link_bytes e
      = as_bytes U (community_id e') @ i64_be_bytes (seq e')
        @ str_bytes (to_rfc3339 A (to_storage_precision (created_at e')))
        @ str_bytes (ustr (audit_action_str (action e'))) @ ?k e' @ ?o e' @ str_bytes out' @ link_bytes e'"
    using pre unfolding preimage_Ok by metis
  have c: "community_id e = community_id e'" and eq1: "i64_be_bytes (seq e)
        @ str_bytes (to_rfc3339 A (to_storage_precision (created_at e)))
        @ str_bytes (ustr (audit_action_str (action e))) @ ?k e @ ?o e @ str_bytes out @ link_bytes e
      = i64_be_bytes (seq e')
        @ str_bytes (to_rfc3339 A (to_storage_precision (created_at e')))
        @ str_bytes (ustr (audit_action_str (action e'))) @ ?k e' @ ?o e' @ str_bytes out' @ link_bytes e'"
    using eq U by (auto simp: uuid_bytes_ok_def inj_eq)
  have s: "seq e = seq e'" using eq1 shape i64_bytes_inject by (auto simp: entry_shape_def)
  from eq1 have eq2: "str_bytes (to_rfc3339 A (to_storage_precision (created_at e)))
        @ str_bytes (ustr (audit_action_str (action e))) @ ?k e @ ?o e @ str_bytes out @ link_bytes e
      = str_bytes (to_rfc3339 A (to_storage_precision (created_at e')))
        @ str_bytes (ustr (audit_action_str (action e'))) @ ?k e' @ ?o e' @ str_bytes out' @ link_bytes e'"
    by simp
  have t: "to_storage_precision (created_at e) = to_storage_precision (created_at e')" and a: "action e = action e'"
    and eq3: "?k e @ ?o e @ str_bytes out @ link_bytes e = ?k e' @ ?o e' @ str_bytes out' @ link_bytes e'"
    using time_and_action [OF A(2) _ _ eq2 [unfolded tagged_head [of "actor_pubkey e"] tagged_head [of "actor_pubkey e'"]]]
    by (simp_all add: tagged_head)
  have k: "actor_pubkey e = actor_pubkey e'"
    and eq4: "(?o e @ str_bytes out) @ link_bytes e = (?o e' @ str_bytes out') @ link_bytes e'"
    using tagged_key [OF eq3] shape by (simp_all add: entry_shape_def)
  have len: "length (link_bytes e) = length (link_bytes e')" by (simp add: length_link_bytes shape)
  then have l: "link_bytes e = link_bytes e'" using eq4 by (metis append_eq_append_conv)
  have "?o e @ str_bytes out = ?o e' @ str_bytes out'" using eq4 len by (metis append_eq_append_conv)
  then show ?thesis
    using l object_and_detail [OF A(1) _ _ out] shape out c s t a k
    by (simp add: same_entry_def entry_shape_def detail_bytes_def)
qed


section \<open>A verified log is authentic\<close>

definition stored_entries :: "audit_table \<Rightarrow> audit_entry set" where
  "stored_entries t = {e. \<exists>r\<in>set t. row_to_audit_entry r = Ok e}"

definition preimages :: "uuid_api \<Rightarrow> audit_env \<Rightarrow> audit_entry set \<Rightarrow> bytes set" where
  "preimages U A es = {p. \<exists>e\<in>es. hash_preimage U A e = Ok p}"

definition same_row :: "audit_env \<Rightarrow> audit_row \<Rightarrow> audit_row \<Rightarrow> bool" where
  "same_row A h r \<longleftrightarrow> (\<exists>e. row_to_audit_entry r = Ok e \<and> same_entry A (row_entry h) e)"

text \<open>SHA-256 has no collision on these entries, and none of them hashes to zero.\<close>

definition collision_free :: "uuid_api \<Rightarrow> audit_env \<Rightarrow> audit_entry set \<Rightarrow> bool" where
  "collision_free U A es \<longleftrightarrow> inj_on (sha256 A) (preimages U A es) \<and> GENESIS_HASH \<notin> sha256 A ` preimages U A es"

lemma verify_rows_snoc:
  "verify_rows U A x (rs @ [r]) = Ok True \<longleftrightarrow> verify_rows U A x rs = Ok True
     \<and> (\<exists>e. row_to_audit_entry r = Ok e \<and> compute_hash U A e = Ok (hash e)
          \<and> (case (if rs = [] then x else Some (hash (row_entry (last rs)))) of
               Some h \<Rightarrow> prev_hash e = Some h | None \<Rightarrow> True))"
  by (induction rs arbitrary: x) (auto simp: result_inv row_to_audit_entry_def split: option.splits if_splits)

lemma compute_hash_Ok: "compute_hash U A e = Ok h \<longleftrightarrow> (\<exists>p. hash_preimage U A e = Ok p \<and> h = sha256 A p)"
  by (auto simp: compute_hash_def result_inv)

lemma hash_determines:
  assumes env: "uuid_bytes_ok U" "scalar_texts A" "timestamp_texts A" and free: "collision_free U A es"
    and e: "e \<in> es" "entry_shape e" "compute_hash U A e = Ok h" and e': "e' \<in> es" "entry_shape e'" "compute_hash U A e' = Ok h"
  shows "same_entry A e e'"
proof -
  obtain p p' where p: "hash_preimage U A e = Ok p" "hash_preimage U A e' = Ok p'" "sha256 A p = sha256 A p'"
    using e(3) e'(3) unfolding compute_hash_Ok by metis
  then have "p = p'" using free e(1) e'(1) by (auto simp: collision_free_def preimages_def dest: inj_onD)
  then show ?thesis using preimage_determines [OF env e(2) e'(2)] p by simp
qed

lemma chain_authentic:
  assumes env: "uuid_bytes_ok U" "scalar_texts A" "timestamp_texts A" and free: "collision_free U A es"
    and shape: "\<forall>e\<in>es. entry_shape e"
  shows "chained U A None 1 hs \<Longrightarrow> verify_rows U A None rs = Ok True \<Longrightarrow> hs \<noteq> [] \<Longrightarrow> rs \<noteq> [] \<Longrightarrow>
     hash (row_entry (last rs)) = hash (row_entry (last hs)) \<Longrightarrow>
     \<forall>r\<in>set hs \<union> set rs. \<forall>e. row_to_audit_entry r = Ok e \<longrightarrow> e \<in> es \<Longrightarrow>
     \<exists>k. list_all2 (same_row A) (drop k hs) rs"
proof (induction rs arbitrary: hs rule: rev_induct)
  case (snoc r rs)
  obtain hs' h where hs: "hs = hs' @ [h]" using \<open>hs \<noteq> []\<close> by (cases hs rule: rev_cases) auto
  have ch: "chained U A None 1 hs'" "row_to_audit_entry h = Ok (row_entry h)" "compute_hash U A (row_entry h) = Ok (hash (row_entry h))"
    "prev_hash (row_entry h) = (if hs' = [] then None else Some (hash (row_entry (last hs'))))"
    using snoc.prems(1) unfolding hs chained_append by (auto simp: row_to_audit_entry_def)
  obtain e where e: "row_to_audit_entry r = Ok e" "compute_hash U A e = Ok (hash e)"
    and rs: "verify_rows U A None rs = Ok True"
    and link: "rs \<noteq> [] \<Longrightarrow> prev_hash e = Some (hash (row_entry (last rs)))"
    using snoc.prems(2) unfolding verify_rows_snoc by (auto split: if_splits)
  have "hash e = hash (row_entry r)" using e(1) by (auto simp: row_to_audit_entry_def result_inv)
  moreover have "hash (row_entry r) = hash (row_entry h)" using snoc.prems(5) by (simp add: hs)
  moreover have mem: "e \<in> es" "row_entry h \<in> es" using snoc.prems(6) e(1) ch(2) by (auto simp: hs)
  ultimately have same: "same_entry A (row_entry h) e"
    using hash_determines [OF env free, of "row_entry h" _ e] shape ch(3) e(2) by simp
  then have row: "same_row A h r" using e(1) by (auto simp: same_row_def)
  show ?case
  proof (cases "rs = []")
    case True
    then show ?thesis using row by (intro exI [of _ "length hs'"]) (simp add: hs)
  next
    case False
    obtain e0 where e0: "row_to_audit_entry (last rs) = Ok e0" "compute_hash U A e0 = Ok (hash e0)"
      using rs False by (cases rs rule: rev_cases) (auto simp: verify_rows_snoc)
    have h0: "hash e0 = hash (row_entry (last rs))" using e0(1) by (auto simp: row_to_audit_entry_def result_inv)
    have "e0 \<in> es" using snoc.prems(6) e0(1) False by auto
    then have "hash e0 \<noteq> GENESIS_HASH" using free e0(2) by (auto simp: collision_free_def preimages_def compute_hash_Ok)
    then have "hs' \<noteq> []" and eq: "hash (row_entry (last rs)) = hash (row_entry (last hs'))"
      using same link [OF False] ch(4) h0 by (auto simp: same_entry_def link_bytes_def split: if_splits)
    then obtain k where "list_all2 (same_row A) (drop k hs') rs"
      using snoc.IH [OF ch(1) rs _ False eq] snoc.prems(6) by (auto simp: hs)
    moreover from this have "k \<le> length hs'" using False by (cases "k \<le> length hs'") auto
    ultimately have "list_all2 (same_row A) (drop k hs) (rs @ [r])" using row by (simp add: hs list_all2_appendI)
    then show ?thesis ..
  qed
qed simp

text \<open>The number of the first row says where in the honest chain the verified rows begin.\<close>

lemma chain_authentic_from:
  assumes "uuid_bytes_ok U" "scalar_texts A" "timestamp_texts A" "collision_free U A es" "\<forall>e\<in>es. entry_shape e"
    and ch: "chained U A None 1 hs" and "verify_rows U A None rs = Ok True" "hs \<noteq> []" and rs: "rs \<noteq> []"
    and "hash (row_entry (last rs)) = hash (row_entry (last hs))"
    and "\<forall>r\<in>set hs \<union> set rs. \<forall>e. row_to_audit_entry r = Ok e \<longrightarrow> e \<in> es"
  shows "list_all2 (same_row A) (drop (nat (seq (row_entry (hd rs)) - 1)) hs) rs"
proof -
  obtain k where k: "list_all2 (same_row A) (drop k hs) rs"
    using chain_authentic [OF assms(1-5) ch assms(7,8) rs assms(10,11)] by blast
  with rs have less: "k < length hs" by (cases "k < length hs") auto
  then have "drop k hs \<noteq> []" "hd (drop k hs) = hs ! k" by (simp_all add: hd_drop_conv_nth)
  with k rs have "same_row A (hs ! k) (hd rs)" by (cases "drop k hs"; cases rs) auto
  then have "seq (row_entry (hd rs)) = seq (row_entry (hs ! k))"
    by (auto simp: same_row_def same_entry_def row_to_audit_entry_def result_inv)
  also have "\<dots> = [1 .. 1 + int (length hs) - 1] ! k"
    using chained_seqs [OF ch] less by (metis nth_map)
  also have "\<dots> = 1 + int k" using less by (simp add: nth_upto)
  finally show ?thesis using k by simp
qed

lemma chained_take: "chained U A prev n rs \<Longrightarrow> chained U A prev n (take m rs)"
  by (induction rs arbitrary: prev n m) (auto simp: take_Cons split: nat.splits)


section \<open>A concrete log\<close>

definition demo_scalar :: "json_value \<Rightarrow> (ustring, string) result" where
  "demo_scalar v =
     (case v of
        JNull \<Rightarrow> Ok (ustr ''null'')
      | JString s \<Rightarrow> if list_all (\<lambda>c. c < 128 \<and> c \<noteq> 34 \<and> c \<noteq> 92) s then Ok (34 # s @ [34]) else Err ''unsupported''
      | _ \<Rightarrow> Err ''unsupported'')"

definition demo_time :: "int \<Rightarrow> ustring" where
  "demo_time t = (if t < 0 then [45] else [43]) @ ustr (show_nat (nat \<bar>t\<bar>))"

definition demo_sha :: "bytes \<Rightarrow> bytes" where
  "demo_sha bs = replicate 31 1 @ [bs ! 23]"

definition demo_audit :: audit_env where
  "demo_audit = \<lparr>sha256 = demo_sha, to_rfc3339 = demo_time, scalar_to_string = demo_scalar, jsonb = Ok\<rparr>"

definition demo_first :: new_audit_entry where
  "demo_first = \<lparr>new_community = id_a, new_action = ChannelCreated, new_actor = Some (replicate 32 7),
     new_object = Some (ustr ''general''), new_detail = JNull\<rparr>"

definition demo_second :: new_audit_entry where
  "demo_second = \<lparr>new_community = id_a, new_action = MemberAdded, new_actor = None,
     new_object = None, new_detail = JObject [(ustr ''role'', JString (ustr ''bot''))]\<rparr>"

definition demo_row1 :: audit_row where
  "demo_row1 = \<lparr>row_entry = \<lparr>community_id = id_a, seq = 1, hash = replicate 31 1 @ [1], prev_hash = None,
       action = ChannelCreated, actor_pubkey = Some (replicate 32 7), object_id = Some (ustr ''general''),
       detail = JNull, created_at = 1000\<rparr>, row_action = ''channel_created''\<rparr>"

definition demo_row2 :: audit_row where
  "demo_row2 = \<lparr>row_entry = \<lparr>community_id = id_a, seq = 2, hash = replicate 31 1 @ [2], prev_hash = Some (replicate 31 1 @ [1]),
       action = MemberAdded, actor_pubkey = None, object_id = None,
       detail = JObject [(ustr ''role'', JString (ustr ''bot''))], created_at = 2000\<rparr>, row_action = ''member_added''\<rparr>"

lemma demo_audit_sel [simp]:
  "sha256 demo_audit = demo_sha" "to_rfc3339 demo_audit = demo_time" "scalar_to_string demo_audit = demo_scalar"
  "jsonb demo_audit = Ok"
  by (simp_all add: demo_audit_def)

lemma demo_append1: "append_locked rfc4122 demo_audit 1234 [] demo_first = Ok (row_entry demo_row1, [demo_row1])"
  by code_simp

lemma demo_append2: "append_locked rfc4122 demo_audit 2000 [demo_row1] demo_second = Ok (row_entry demo_row2, [demo_row1, demo_row2])"
  by code_simp

lemma demo_run_audit:
  "steps (audit_step rfc4122 demo_audit) [] [(1234, demo_first), (2000, demo_second)] [demo_row1, demo_row2]"
  using steps_snoc [OF steps_single, of "audit_step rfc4122 demo_audit" "[]" "(1234, demo_first)" "[demo_row1]"
      "(2000, demo_second)" "[demo_row1, demo_row2]"]
    demo_append1 demo_append2 by (simp add: audit_step_def)

lemma demo_hashes:
  "compute_hash rfc4122 demo_audit (row_entry demo_row1) = Ok (hash (row_entry demo_row1))"
  "compute_hash rfc4122 demo_audit (row_entry demo_row2) = Ok (hash (row_entry demo_row2))"
  by code_simp+

lemma demo_time_inj: "inj demo_time"
proof (rule injI)
  fix s t assume "demo_time s = demo_time t"
  then have "(s < 0 \<longleftrightarrow> t < 0) \<and> nat \<bar>s\<bar> = nat \<bar>t\<bar>"
    by (auto simp: demo_time_def dest: arg_cong [of _ _ digits_value] simp: digits_value_show split: if_splits)
  then show "s = t" by auto
qed

lemma demo_timestamps: "timestamp_texts demo_audit"
  using demo_time_inj ustr_show_nat_digits by (fastforce simp: timestamp_texts_def demo_time_def is_digit_cp_def)

lemma demo_scalars: "scalar_texts demo_audit"
proof -
  have "balanced (str_bytes out)" if "demo_scalar v = Ok out" for v out
  proof (cases v)
    case JNull
    then have "out = ustr ''null''" using that by (simp add: demo_scalar_def)
    moreover have "balanced ([110] @ [117] @ [108] @ [108])" by (intro balanced_append balanced_plain) simp_all
    ultimately show ?thesis by (simp add: ustr_def str_bytes_def utf8_char_def)
  next
    case (JString s)
    then have s: "\<forall>c\<in>set s. c < 128 \<and> c \<noteq> 34 \<and> c \<noteq> 92" and out: "out = 34 # s @ [34]"
      using that by (auto simp: demo_scalar_def list_all_iff split: if_splits)
    have "word_of_nat c \<noteq> (34 :: u8) \<and> word_of_nat c \<noteq> (92 :: u8)" if "c \<in> set s" for c
      using s that unat_ascii [of c] unat_ascii [of 34] unat_ascii [of 92] by fastforce
    then have "\<forall>b\<in>set (map word_of_nat s :: bytes). b \<noteq> 34 \<and> b \<noteq> 92" by auto
    from balanced_string [OF this] show ?thesis using s by (simp add: out str_bytes_ascii str_bytes_map)
  qed (use that in \<open>simp_all add: demo_scalar_def\<close>)
  then show ?thesis by (auto simp: scalar_texts_def demo_scalar_def)
qed

lemma demo_survives [simp]: "detail_survives demo_audit v"
  by (simp add: detail_survives_def)

lemma demo_stored: "stored_entries [demo_row1, demo_row2] = {row_entry demo_row1, row_entry demo_row2}"
  "stored_entries [demo_row2] = {row_entry demo_row2}"
  by (auto simp: stored_entries_def row_to_audit_entry_def demo_row1_def demo_row2_def audit_action_from_str_def all_actions_def)

lemma demo_nonzero: "GENESIS_HASH \<noteq> replicate 31 1 @ [x]"
proof
  assume "GENESIS_HASH = replicate 31 1 @ [x]"
  then have "GENESIS_HASH ! 0 = (replicate 31 1 @ [x]) ! 0" by simp
  then show False by (simp add: GENESIS_HASH_def nth_append)
qed

lemma demo_free: "collision_free rfc4122 demo_audit {row_entry demo_row1, row_entry demo_row2}"
proof -
  obtain p q where p: "hash_preimage rfc4122 demo_audit (row_entry demo_row1) = Ok p" "demo_sha p = replicate 31 1 @ [1]"
    and q: "hash_preimage rfc4122 demo_audit (row_entry demo_row2) = Ok q" "demo_sha q = replicate 31 1 @ [2]"
    using demo_hashes unfolding compute_hash_Ok by (auto simp: demo_row1_def demo_row2_def)
  then have "preimages rfc4122 demo_audit {row_entry demo_row1, row_entry demo_row2} = {p, q}"
    by (auto simp: preimages_def)
  then show ?thesis using p(2) q(2) demo_nonzero by (auto simp: collision_free_def inj_on_def)
qed

lemma demo_shapes: "\<forall>e\<in>{row_entry demo_row1, row_entry demo_row2}. entry_shape e"
  by (simp add: entry_shape_def plain_detail_def demo_row1_def demo_row2_def)



section \<open>Properties\<close>

text \<open>
  C11: an audit log that was only appended to, in any interleaving of communities,
  is complete and verifies.  For every community and every range, verification
  answers that the range is intact, or that it is empty exactly when no entry of
  the community has a number in it; and reading from a number returns the entries
  that were appended for the community from there on, in order.
\<close>

theorem audit_log_complete:
  assumes "steps (audit_step U A) [] es t" and "length es < 2 ^ 63"
    and "\<forall>ev\<in>set es. detail_survives A (new_detail (snd ev))"
  shows "verify_chain U A t c a b = Ok (max a 1 \<le> min b (int (length (events_for c es))))
    \<and> (0 \<le> n \<longrightarrow> (\<exists>entries. get_entries t c a n = Ok entries
        \<and> list_all2 (records A) (take (nat n) (drop (nat (a - 1)) (events_for c es))) entries))"
proof -
  have inv: "audit_inv U A t" and len: "length (rows_of c t) = length (events_for c es)"
    using audit_run_inv [OF assms] by simp_all
  have "list_all2 (\<lambda>ev r. records A ev (row_entry r)) (take (nat n) (drop (nat (a - 1)) (events_for c es)))
      (take (nat n) (drop (nat (a - 1)) (rows_of c t)))"
    using audit_run_records [OF assms(1)] by (intro list_all2_takeI list_all2_dropI)
  then show ?thesis using get_entries_honest [OF inv] verify_honest [OF inv] by (simp add: len list_all2_map2)
qed

theorem audit_log_complete_witness:
  "verify_chain rfc4122 demo_audit [demo_row1, demo_row2] id_a 1 9 = Ok True
   \<and> verify_chain rfc4122 demo_audit [demo_row1, demo_row2] id_b 1 9 = Ok False"
  using audit_log_complete [OF demo_run_audit, of id_a 1 9] audit_log_complete [OF demo_run_audit, of id_b 1 9]
  by (simp add: events_for_def demo_first_def demo_second_def)

text \<open>
  C7: the log is tamper-evident.  Take any table, however it was changed, whose rows
  of a community verify over a range, and whose last row there carries the hash of
  an entry of the honest log.  Then its rows in the range are, one for one, the
  honest entries from the number of its first row up to that entry: none in between
  is altered, missing, inserted or moved.  Each agrees with the honest one in
  community, number, action, actor, object and predecessor, in the time to the
  precision of storage, and in the canonical text of the detail.  Verification does
  not anchor the first row, so rows missing before it are not noticed; when it has
  number one the rows are the whole honest log up to that entry.  This holds when
  the rows have the shapes the relay writes (object or null details, 32-byte keys
  and hashes) and SHA-256 does not collide on them.
\<close>

theorem verified_log_authentic:
  assumes "uuid_bytes_ok U" "scalar_texts A" "timestamp_texts A"
    and run: "steps (audit_step U A) [] es t" "length es < 2 ^ 63"
      "\<forall>ev\<in>set es. detail_survives A (new_detail (snd ev))"
    and free: "collision_free U A (stored_entries t \<union> stored_entries t')"
    and shape: "\<forall>e\<in>stored_entries t \<union> stored_entries t'. entry_shape e"
    and verified: "verify_chain U A t' c a b = Ok True"
    and anchor: "m < length (rows_of c t)"
      "hash (row_entry (last (filter (in_range a b) (community_rows t' c)))) = hash (row_entry (rows_of c t ! m))"
  shows "let rows = filter (in_range a b) (community_rows t' c) in
    list_all2 (same_row A) (drop (nat (seq (row_entry (hd rows)) - 1)) (take (Suc m) (rows_of c t))) rows"
  unfolding Let_def
proof (rule chain_authentic_from [OF assms(1-3) free shape])
  let ?rs = "filter (in_range a b) (community_rows t' c)"
  have "chained U A None 1 (rows_of c t)" using audit_run_inv [OF run] by (simp add: audit_inv_def)
  then show "chained U A None 1 (take (Suc m) (rows_of c t))" by (rule chained_take)
  show "take (Suc m) (rows_of c t) \<noteq> []" using anchor(1) by auto
  show "verify_rows U A None ?rs = Ok True" and "?rs \<noteq> []"
    using verified unfolding verify_chain_rows by (auto simp: Let_def split: if_splits)
  show "hash (row_entry (last ?rs)) = hash (row_entry (last (take (Suc m) (rows_of c t))))"
    using anchor by (simp add: take_Suc_conv_app_nth)
  have "set (take (Suc m) (rows_of c t)) \<subseteq> set t" "set ?rs \<subseteq> set t'"
    by (auto simp: rows_of_def community_rows_def dest: in_set_takeD)
  then show "\<forall>r\<in>set (take (Suc m) (rows_of c t)) \<union> set ?rs. \<forall>e. row_to_audit_entry r = Ok e \<longrightarrow>
      e \<in> stored_entries t \<union> stored_entries t'"
    by (auto simp: stored_entries_def)
qed

lemma demo_partial: "filter (in_range 1 2) (community_rows [demo_row2] id_a) = [demo_row2]"
  "rows_of id_a [demo_row1, demo_row2] = [demo_row1, demo_row2]"
  by (simp_all add: community_rows_def rows_of_def in_range_def demo_row1_def demo_row2_def)

text \<open>A table whose first row was deleted still verifies over the range that contains it.\<close>

lemma demo_verified: "verify_chain rfc4122 demo_audit [demo_row2] id_a 1 2 = Ok True"
proof -
  have "row_to_audit_entry demo_row2 = Ok (row_entry demo_row2)"
    by (simp add: row_to_audit_entry_def demo_row2_def audit_action_from_str_def all_actions_def)
  then show ?thesis using demo_hashes(2) unfolding verify_chain_rows demo_partial(1) by simp
qed

theorem verified_log_authentic_witness:
  "list_all2 (same_row demo_audit) (drop (nat (seq (row_entry demo_row2) - 1)) [demo_row1, demo_row2]) [demo_row2]"
proof -
  have union: "stored_entries [demo_row1, demo_row2] \<union> stored_entries [demo_row2] = {row_entry demo_row1, row_entry demo_row2}"
    by (simp add: demo_stored insert_commute)
  show ?thesis
    using verified_log_authentic [OF rfc4122_bytes_ok demo_scalars demo_timestamps demo_run_audit _ _ _ _ demo_verified, of 1]
      demo_free demo_shapes by (simp add: union demo_partial Let_def)
qed

text \<open>
  Outside those shapes the preimage is ambiguous: the object identifier is hashed
  without its length, so digits can move between it and a detail that is a number.
\<close>

theorem bare_detail_ambiguous:
  assumes "scalar_to_string A (JNumber ''12'') = Ok (ustr ''12'')" "scalar_to_string A (JNumber ''2'') = Ok (ustr ''2'')"
  shows "compute_hash U A (e\<lparr>object_id := Some (ustr ''a''), detail := JNumber ''12''\<rparr>)
       = compute_hash U A (e\<lparr>object_id := Some (ustr ''a1''), detail := JNumber ''2''\<rparr>)"
  using assms by (simp add: compute_hash_def hash_preimage_def ustr_def str_bytes_def utf8_char_def)

end
