(* ===== verification/View_Model.thy ===== *)
theory View_Model
  imports View_Vocabulary Text_Tools
begin

text \<open>
  Project View objects, the canonical state and the mutations on it: \<open>error.rs\<close>,
  \<open>model.rs\<close>, \<open>patch.rs\<close>, \<open>mutation.rs\<close> and the types of \<open>state.rs\<close> in
  \<open>crates/buzz-project-view/src\<close>.  The state maps object identifiers to entries in
  key order.  Records carry the fields of the source structs under a prefix, since
  several structs share field names.
\<close>

section \<open>Errors\<close>

datatype domain_error =
    InvalidMutationJson string
  | MutationContentTooLarge nat nat
  | MutationJsonTooDeep nat nat
  | UnsupportedSchemaVersion u32 u32
  | NotInitialized
  | AlreadyInitialized
  | RevisionOutOfRange u64 u64
  | ProjectRevisionConflict u64 u64
  | RevisionExhausted
  | InvalidInitialGoalCount nat nat nat
  | InvalidObjectId uuid
  | ReservedProfileId uuid
  | ObjectIdAlreadyUsed uuid
  | ObjectNotFound uuid
  | ObjectDeleted uuid
  | ObjectTypeMismatch uuid project_view_object_type project_view_object_type
  | DataTypeMismatch project_view_object_type project_view_object_type
  | ProfileCreateForbidden
  | ImmutableField string
  | InvalidField string string
  | RequiredField string
  | FieldTooLong string nat nat
  | TooManyItems string nat nat
  | InvalidLocator string
  | InvalidRelation string string
  | MissingRequiredRelation string
  | RelationNotAllowed string project_view_object_type
  | RelationTargetNotFound string uuid
  | RelationTargetDeleted string uuid
  | RelationTargetTypeMismatch string uuid project_view_object_type project_view_object_type
  | SelfReference string uuid
  | InvalidWorkTarget project_view_object_type
  | ObjectStillReferenced uuid string
  | ProfileDeletionForbidden
  | LastGoalDeletionForbidden
  | NoChanges
  | InvalidFinalState string

fun domain_error_code :: "domain_error \<Rightarrow> string" where
  "domain_error_code (InvalidMutationJson _) = ''invalid_json''"
| "domain_error_code (MutationContentTooLarge _ _) = ''content_too_large''"
| "domain_error_code (MutationJsonTooDeep _ _) = ''json_too_deep''"
| "domain_error_code (UnsupportedSchemaVersion _ _) = ''schema_version''"
| "domain_error_code NotInitialized = ''not_initialized''"
| "domain_error_code AlreadyInitialized = ''already_initialized''"
| "domain_error_code (RevisionOutOfRange _ _) = ''revision_out_of_range''"
| "domain_error_code (ProjectRevisionConflict _ _) = ''revision''"
| "domain_error_code RevisionExhausted = ''revision_exhausted''"
| "domain_error_code (InvalidInitialGoalCount _ _ _) = ''initial_goal_count''"
| "domain_error_code (InvalidObjectId _) = ''invalid_object_id''"
| "domain_error_code (ReservedProfileId _) = ''reserved_profile_id''"
| "domain_error_code (ObjectIdAlreadyUsed _) = ''object_id_used''"
| "domain_error_code (ObjectNotFound _) = ''object_not_found''"
| "domain_error_code (ObjectDeleted _) = ''object_deleted''"
| "domain_error_code (ObjectTypeMismatch _ _ _) = ''object_type''"
| "domain_error_code (DataTypeMismatch _ _) = ''data_type''"
| "domain_error_code ProfileCreateForbidden = ''profile_create_forbidden''"
| "domain_error_code (ImmutableField _) = ''immutable_field''"
| "domain_error_code (InvalidField _ _) = ''invalid_field''"
| "domain_error_code (RequiredField _) = ''required_field''"
| "domain_error_code (FieldTooLong _ _ _) = ''field_too_long''"
| "domain_error_code (TooManyItems _ _ _) = ''too_many_items''"
| "domain_error_code (InvalidLocator _) = ''invalid_locator''"
| "domain_error_code (InvalidRelation _ _) = ''invalid_relation''"
| "domain_error_code (MissingRequiredRelation _) = ''missing_relation''"
| "domain_error_code (RelationNotAllowed _ _) = ''relation_not_allowed''"
| "domain_error_code (RelationTargetNotFound _ _) = ''relation_target_not_found''"
| "domain_error_code (RelationTargetDeleted _ _) = ''relation_target_deleted''"
| "domain_error_code (RelationTargetTypeMismatch _ _ _ _) = ''relation_target_type''"
| "domain_error_code (SelfReference _ _) = ''self_reference''"
| "domain_error_code (InvalidWorkTarget _) = ''invalid_work_target''"
| "domain_error_code (ObjectStillReferenced _ _) = ''object_referenced''"
| "domain_error_code ProfileDeletionForbidden = ''profile_delete_forbidden''"
| "domain_error_code LastGoalDeletionForbidden = ''last_goal_delete_forbidden''"
| "domain_error_code NoChanges = ''no_changes''"
| "domain_error_code (InvalidFinalState _) = ''invalid_final_state''"

type_synonym 'a domain_result = "('a, domain_error) result"


section \<open>Objects\<close>

record object_ref =
  ref_type :: project_view_object_type
  ref_id :: uuid

record resource_locator =
  loc_type :: locator_type
  loc_value :: ustring

record project_profile =
  profile_name :: ustring
  profile_positioning :: ustring
  profile_purpose :: ustring
  profile_problem :: ustring
  profile_scope :: ustring
  profile_summary :: "ustring option"

record goal =
  goal_title :: ustring
  goal_desired_outcome :: ustring
  goal_directions :: "ustring list"
  goal_summary :: "ustring option"

record project_role =
  role_name :: ustring
  role_purpose :: ustring
  role_responsibilities :: "ustring list"
  role_boundaries :: "ustring list"
  role_active :: bool
  role_summary :: "ustring option"

record project_plan =
  plan_title :: ustring
  plan_description :: ustring
  plan_state :: plan_status
  plan_summary :: "ustring option"

record project_stage =
  stage_title :: ustring
  stage_description :: ustring
  stage_state :: stage_status
  stage_summary :: "ustring option"

record requirement =
  req_title :: ustring
  req_description :: ustring
  req_state :: requirement_status
  req_priority :: priority
  req_summary :: "ustring option"

record project_issue =
  issue_title :: ustring
  issue_description :: ustring
  issue_state :: issue_status
  issue_priority :: priority
  issue_summary :: "ustring option"

record project_work =
  work_title :: ustring
  work_description :: ustring
  work_state :: work_status
  work_priority :: priority
  work_summary :: "ustring option"

record project_resource =
  res_name :: ustring
  res_type :: resource_type
  res_locator :: resource_locator
  res_description :: ustring

datatype object_data =
    ProfileData project_profile
  | GoalData goal
  | RoleData project_role
  | PlanData project_plan
  | StageData project_stage
  | RequirementData requirement
  | IssueData project_issue
  | WorkData project_work
  | ResourceData project_resource

fun data_type :: "object_data \<Rightarrow> project_view_object_type" where
  "data_type (ProfileData _) = ProjectProfile"
| "data_type (GoalData _) = Goal"
| "data_type (RoleData _) = Role"
| "data_type (PlanData _) = Plan"
| "data_type (StageData _) = Stage"
| "data_type (RequirementData _) = Requirement"
| "data_type (IssueData _) = Issue"
| "data_type (WorkData _) = Work"
| "data_type (ResourceData _) = Resource"

record view_relations =
  under_goal_id :: "uuid option"
  under_plan_id :: "uuid option"
  planned_in_stage_id :: "uuid option"
  about :: "object_ref option"
  handles :: "object_ref option"

definition no_relations :: view_relations where
  "no_relations = \<lparr>under_goal_id = None, under_plan_id = None, planned_in_stage_id = None, about = None, handles = None\<rparr>"

record view_object =
  obj_id :: uuid
  obj_type :: project_view_object_type
  obj_revision :: u64
  obj_project_revision :: u64
  obj_created_at :: timestamp
  obj_updated_at :: timestamp
  obj_created_by :: public_key
  obj_updated_by :: public_key
  obj_data :: object_data
  obj_relations :: view_relations


section \<open>The state\<close>

record view_tombstone =
  tomb_id :: uuid
  tomb_type :: project_view_object_type
  tomb_revision :: u64
  tomb_project_revision :: u64
  tomb_created_at :: timestamp
  tomb_deleted_at :: timestamp
  tomb_created_by :: public_key
  tomb_deleted_by :: public_key

datatype view_entry = ActiveObject view_object | Tombstone view_tombstone

fun entry_id :: "view_entry \<Rightarrow> uuid" where
  "entry_id (ActiveObject v) = obj_id v"
| "entry_id (Tombstone d) = tomb_id d"

fun entry_type :: "view_entry \<Rightarrow> project_view_object_type" where
  "entry_type (ActiveObject v) = obj_type v"
| "entry_type (Tombstone d) = tomb_type d"

fun entry_revision :: "view_entry \<Rightarrow> u64" where
  "entry_revision (ActiveObject v) = obj_revision v"
| "entry_revision (Tombstone d) = tomb_revision d"

fun entry_project_revision :: "view_entry \<Rightarrow> u64" where
  "entry_project_revision (ActiveObject v) = obj_project_revision v"
| "entry_project_revision (Tombstone d) = tomb_project_revision d"

type_synonym view_entries = "(uuid \<times> view_entry) list"

record view_state =
  view_project_id :: uuid
  view_revision :: u64
  view_initialized_at :: "timestamp option"
  view_updated_at :: "timestamp option"
  view_entries :: view_entries

definition view_new :: "uuid \<Rightarrow> view_state" where
  "view_new project_id =
     \<lparr>view_project_id = project_id, view_revision = 0, view_initialized_at = None, view_updated_at = None, view_entries = []\<rparr>"

definition is_initialized :: "view_state \<Rightarrow> bool" where
  "is_initialized s \<longleftrightarrow> view_initialized_at s \<noteq> None"

definition entry_at :: "view_state \<Rightarrow> uuid \<Rightarrow> view_entry option" where
  "entry_at s i = map_of (view_entries s) i"

fun active_of :: "view_entry list \<Rightarrow> view_object list" where
  "active_of [] = []"
| "active_of (ActiveObject v # es) = v # active_of es"
| "active_of (Tombstone d # es) = active_of es"

definition active_objects :: "view_state \<Rightarrow> view_object list" where
  "active_objects s = active_of (map snd (view_entries s))"


section \<open>Mutations\<close>

definition MUTATION_SCHEMA_VERSION :: "16 word" where "MUTATION_SCHEMA_VERSION = 1"
definition MAX_MUTATION_CONTENT_BYTES :: nat where "MAX_MUTATION_CONTENT_BYTES = 64 * 1024"
definition MAX_MUTATION_JSON_DEPTH :: nat where "MAX_MUTATION_JSON_DEPTH = 16"
definition MAX_INITIAL_GOALS :: nat where "MAX_INITIAL_GOALS = 32"

datatype 'a patch = Unchanged | Clear | Set 'a

fun is_unchanged :: "'a patch \<Rightarrow> bool" where
  "is_unchanged Unchanged = True"
| "is_unchanged _ = False"

fun is_clear :: "'a patch \<Rightarrow> bool" where
  "is_clear Clear = True"
| "is_clear _ = False"

record initialize_goal =
  ig_id :: uuid
  ig_title :: ustring
  ig_desired_outcome :: ustring
  ig_directions :: "ustring list"
  ig_summary :: "ustring option"

definition into_goal :: "initialize_goal \<Rightarrow> goal" where
  "into_goal g = \<lparr>goal_title = ig_title g, goal_desired_outcome = ig_desired_outcome g,
     goal_directions = ig_directions g, goal_summary = ig_summary g\<rparr>"

record initialize_mutation =
  init_profile :: project_profile
  init_goals :: "initialize_goal list"

datatype new_view_object =
    NewGoal uuid ustring ustring "ustring list"
  | NewRole uuid ustring ustring "ustring list" "ustring list" bool
  | NewPlan uuid ustring ustring plan_status "uuid option"
  | NewStage uuid ustring ustring stage_status uuid
  | NewRequirement uuid ustring ustring requirement_status priority "uuid option"
  | NewIssue uuid ustring ustring issue_status priority "uuid option" "object_ref option"
  | NewWork uuid ustring ustring work_status priority object_ref
  | NewResource uuid ustring resource_type resource_locator ustring

fun new_object_id :: "new_view_object \<Rightarrow> uuid" where
  "new_object_id (NewGoal i _ _ _) = i"
| "new_object_id (NewRole i _ _ _ _ _) = i"
| "new_object_id (NewPlan i _ _ _ _) = i"
| "new_object_id (NewStage i _ _ _ _) = i"
| "new_object_id (NewRequirement i _ _ _ _ _) = i"
| "new_object_id (NewIssue i _ _ _ _ _ _) = i"
| "new_object_id (NewWork i _ _ _ _ _) = i"
| "new_object_id (NewResource i _ _ _ _) = i"

fun into_parts :: "new_view_object \<Rightarrow> uuid \<times> object_data \<times> view_relations" where
  "into_parts (NewGoal i title desired_outcome directions) =
     (i, GoalData \<lparr>goal_title = title, goal_desired_outcome = desired_outcome, goal_directions = directions,
        goal_summary = None\<rparr>, no_relations)"
| "into_parts (NewRole i name purpose responsibilities boundaries active) =
     (i, RoleData \<lparr>role_name = name, role_purpose = purpose, role_responsibilities = responsibilities,
        role_boundaries = boundaries, role_active = active, role_summary = None\<rparr>, no_relations)"
| "into_parts (NewPlan i title description status goal) =
     (i, PlanData \<lparr>plan_title = title, plan_description = description, plan_state = status, plan_summary = None\<rparr>,
      no_relations\<lparr>under_goal_id := goal\<rparr>)"
| "into_parts (NewStage i title description status plan) =
     (i, StageData \<lparr>stage_title = title, stage_description = description, stage_state = status, stage_summary = None\<rparr>,
      no_relations\<lparr>under_plan_id := Some plan\<rparr>)"
| "into_parts (NewRequirement i title description status priority stage) =
     (i, RequirementData \<lparr>req_title = title, req_description = description, req_state = status,
        req_priority = priority, req_summary = None\<rparr>, no_relations\<lparr>planned_in_stage_id := stage\<rparr>)"
| "into_parts (NewIssue i title description status priority stage subject) =
     (i, IssueData \<lparr>issue_title = title, issue_description = description, issue_state = status,
        issue_priority = priority, issue_summary = None\<rparr>,
      no_relations\<lparr>planned_in_stage_id := stage, about := subject\<rparr>)"
| "into_parts (NewWork i title description status priority target) =
     (i, WorkData \<lparr>work_title = title, work_description = description, work_state = status,
        work_priority = priority, work_summary = None\<rparr>, no_relations\<lparr>handles := Some target\<rparr>)"
| "into_parts (NewResource i name rtype locator description) =
     (i, ResourceData \<lparr>res_name = name, res_type = rtype, res_locator = locator, res_description = description\<rparr>,
      no_relations)"

record profile_patch =
  pp_name :: "ustring patch"
  pp_positioning :: "ustring patch"
  pp_purpose :: "ustring patch"
  pp_problem :: "ustring patch"
  pp_scope :: "ustring patch"

record goal_patch =
  gp_title :: "ustring patch"
  gp_desired_outcome :: "ustring patch"
  gp_directions :: "ustring list patch"

record role_patch =
  rp_name :: "ustring patch"
  rp_purpose :: "ustring patch"
  rp_responsibilities :: "ustring list patch"
  rp_boundaries :: "ustring list patch"
  rp_active :: "bool patch"

record plan_patch =
  plp_title :: "ustring patch"
  plp_description :: "ustring patch"
  plp_status :: "plan_status patch"
  plp_under_goal_id :: "uuid patch"

record stage_patch =
  sp_title :: "ustring patch"
  sp_description :: "ustring patch"
  sp_status :: "stage_status patch"
  sp_under_plan_id :: "uuid patch"

record requirement_patch =
  rqp_title :: "ustring patch"
  rqp_description :: "ustring patch"
  rqp_status :: "requirement_status patch"
  rqp_priority :: "priority patch"
  rqp_planned_in_stage_id :: "uuid patch"

record issue_patch =
  ip_title :: "ustring patch"
  ip_description :: "ustring patch"
  ip_status :: "issue_status patch"
  ip_priority :: "priority patch"
  ip_planned_in_stage_id :: "uuid patch"
  ip_about :: "object_ref patch"

record work_patch =
  wp_title :: "ustring patch"
  wp_description :: "ustring patch"
  wp_status :: "work_status patch"
  wp_priority :: "priority patch"
  wp_handles :: "object_ref patch"

record resource_patch =
  rsp_name :: "ustring patch"
  rsp_resource_type :: "resource_type patch"
  rsp_locator :: "resource_locator patch"
  rsp_description :: "ustring patch"

datatype update_mutation =
    UpdateProfile uuid profile_patch
  | UpdateGoal uuid goal_patch
  | UpdateRole uuid role_patch
  | UpdatePlan uuid plan_patch
  | UpdateStage uuid stage_patch
  | UpdateRequirement uuid requirement_patch
  | UpdateIssue uuid issue_patch
  | UpdateWork uuid work_patch
  | UpdateResource uuid resource_patch

fun update_object_id :: "update_mutation \<Rightarrow> uuid" where
  "update_object_id (UpdateProfile i _) = i"
| "update_object_id (UpdateGoal i _) = i"
| "update_object_id (UpdateRole i _) = i"
| "update_object_id (UpdatePlan i _) = i"
| "update_object_id (UpdateStage i _) = i"
| "update_object_id (UpdateRequirement i _) = i"
| "update_object_id (UpdateIssue i _) = i"
| "update_object_id (UpdateWork i _) = i"
| "update_object_id (UpdateResource i _) = i"

fun update_object_type :: "update_mutation \<Rightarrow> project_view_object_type" where
  "update_object_type (UpdateProfile _ _) = ProjectProfile"
| "update_object_type (UpdateGoal _ _) = Goal"
| "update_object_type (UpdateRole _ _) = Role"
| "update_object_type (UpdatePlan _ _) = Plan"
| "update_object_type (UpdateStage _ _) = Stage"
| "update_object_type (UpdateRequirement _ _) = Requirement"
| "update_object_type (UpdateIssue _ _) = Issue"
| "update_object_type (UpdateWork _ _) = Work"
| "update_object_type (UpdateResource _ _) = Resource"

record delete_mutation =
  del_object_type :: project_view_object_type
  del_object_id :: uuid

datatype mutation_request =
    InitializeView initialize_mutation
  | CreateObject new_view_object
  | UpdateObject update_mutation
  | DeleteObject delete_mutation

record view_mutation =
  mut_schema_version :: "16 word"
  mut_expected_revision :: u64
  mut_request :: mutation_request

definition mutation_new :: "u64 \<Rightarrow> mutation_request \<Rightarrow> view_mutation" where
  "mutation_new expected request =
     \<lparr>mut_schema_version = MUTATION_SCHEMA_VERSION, mut_expected_revision = expected, mut_request = request\<rparr>"

record mutation_outcome =
  out_project_revision :: u64
  out_changed_entries :: "view_entry list"

end
