(* ===== verification/View_Validation.thy ===== *)
theory View_Validation
  imports View_Model
begin

text \<open>
  Field, relation-shape and whole-state validation of Project View, and the checks a
  client makes before it submits a mutation: \<open>validation.rs\<close> and
  \<open>validate_for_submission\<close> of \<open>mutation.rs\<close> in \<open>crates/buzz-project-view/src\<close>.

  The environment has the \<open>uuid\<close> crate and \<open>Url::parse\<close>, of which the code reads the user
  name and the password.
\<close>

record view_env =
  ids :: uuid_api
  parse_url :: "ustring \<Rightarrow> (ustring \<times> ustring option, string) result"

definition SHORT_TEXT_MAX_BYTES :: nat where "SHORT_TEXT_MAX_BYTES = 256"
definition LONG_TEXT_MAX_BYTES :: nat where "LONG_TEXT_MAX_BYTES = 32 * 1024"
definition LIST_MAX_ITEMS :: nat where "LIST_MAX_ITEMS = 64"
definition LIST_ITEM_MAX_BYTES :: nat where "LIST_ITEM_MAX_BYTES = 512"
definition LOCATOR_MAX_BYTES :: nat where "LOCATOR_MAX_BYTES = 4096"


section \<open>Fields\<close>

definition validate_client_generated_id :: "view_env \<Rightarrow> uuid \<Rightarrow> unit domain_result" where
  "validate_client_generated_id E i =
     (if get_version_num (ids E) i \<noteq> 4 \<or> get_variant (ids E) i \<noteq> RFC4122 then Err (InvalidObjectId i) else Ok ())"

definition validate_client_object_id :: "view_env \<Rightarrow> uuid \<Rightarrow> uuid \<Rightarrow> unit domain_result" where
  "validate_client_object_id E project_id i =
     (if i = project_id then Err (ReservedProfileId i)
      else if get_version_num (ids E) i \<noteq> 4 \<or> get_variant (ids E) i \<noteq> RFC4122 then Err (InvalidObjectId i)
      else Ok ())"

definition validate_view_revision :: "u64 \<Rightarrow> unit domain_result" where
  "validate_view_revision revision =
     (if revision > MAX_SAFE_REVISION then Err (RevisionOutOfRange revision MAX_SAFE_REVISION) else Ok ())"

definition validate_required_text :: "string \<Rightarrow> ustring \<Rightarrow> nat \<Rightarrow> unit domain_result" where
  "validate_required_text field v max_bytes =
     (if trim v = [] then Err (RequiredField field)
      else if utf8_len v > max_bytes then Err (FieldTooLong field max_bytes (utf8_len v))
      else Ok ())"

definition validate_required_short :: "string \<Rightarrow> ustring \<Rightarrow> unit domain_result" where
  "validate_required_short field v = validate_required_text field v SHORT_TEXT_MAX_BYTES"

definition validate_required_long :: "string \<Rightarrow> ustring \<Rightarrow> unit domain_result" where
  "validate_required_long field v = validate_required_text field v LONG_TEXT_MAX_BYTES"

definition validate_string_list :: "string \<Rightarrow> ustring list \<Rightarrow> unit domain_result" where
  "validate_string_list field vs =
     (if length vs > LIST_MAX_ITEMS then Err (TooManyItems field LIST_MAX_ITEMS (length vs))
      else for_each (\<lambda>v. validate_required_text field v LIST_ITEM_MAX_BYTES) vs)"

text \<open>\<open>char::is_control\<close>: the category Cc.\<close>

definition is_control :: "nat \<Rightarrow> bool" where
  "is_control c \<longleftrightarrow> c < 32 \<or> (127 \<le> c \<and> c < 160)"

definition validate_locator :: "view_env \<Rightarrow> resource_locator \<Rightarrow> unit domain_result" where
  "validate_locator E l =
     (if trim (loc_value l) = [] then Err (RequiredField ''locator'')
      else if utf8_len (loc_value l) > LOCATOR_MAX_BYTES
      then Err (FieldTooLong ''locator'' LOCATOR_MAX_BYTES (utf8_len (loc_value l)))
      else if list_ex is_control (loc_value l) then Err (InvalidLocator ''control characters are not allowed'')
      else if loc_type l = UrlLocator then
        (case parse_url E (loc_value l) of
           Err message \<Rightarrow> Err (InvalidLocator (''URL cannot be parsed: '' @ message))
         | Ok (username, password) \<Rightarrow>
             if username \<noteq> [] \<or> password \<noteq> None
             then Err (InvalidLocator ''URL user information is not allowed'') else Ok ())
      else Ok ())"

definition validate_summary :: "ustring option \<Rightarrow> unit domain_result" where
  "validate_summary summary =
     (case summary of
        None \<Rightarrow> Ok ()
      | Some s \<Rightarrow>
          if s = [] then Err (InvalidField ''summary'' ''must be omitted or contain non-empty text'')
          else if 0 \<in> set s then Err (InvalidField ''summary'' ''must not contain NUL'')
          else Ok ())"

fun validate_data :: "view_env \<Rightarrow> object_data \<Rightarrow> unit domain_result" where
  "validate_data E (ProfileData p) =
     then_r (validate_required_short ''name'' (profile_name p))
     (then_r (validate_required_long ''positioning'' (profile_positioning p))
     (then_r (validate_required_long ''purpose'' (profile_purpose p))
     (then_r (validate_required_long ''problem'' (profile_problem p))
     (then_r (validate_required_long ''scope'' (profile_scope p))
       (validate_summary (profile_summary p))))))"
| "validate_data E (GoalData g) =
     then_r (validate_required_short ''title'' (goal_title g))
     (then_r (validate_required_long ''desired_outcome'' (goal_desired_outcome g))
     (then_r (validate_string_list ''directions'' (goal_directions g))
       (validate_summary (goal_summary g))))"
| "validate_data E (RoleData r) =
     then_r (validate_required_short ''name'' (role_name r))
     (then_r (validate_required_long ''purpose'' (role_purpose r))
     (then_r (validate_string_list ''responsibilities'' (role_responsibilities r))
     (then_r (validate_string_list ''boundaries'' (role_boundaries r))
       (validate_summary (role_summary r)))))"
| "validate_data E (PlanData p) =
     then_r (validate_required_short ''title'' (plan_title p))
     (then_r (validate_required_long ''description'' (plan_description p))
       (validate_summary (plan_summary p)))"
| "validate_data E (StageData p) =
     then_r (validate_required_short ''title'' (stage_title p))
     (then_r (validate_required_long ''description'' (stage_description p))
       (validate_summary (stage_summary p)))"
| "validate_data E (RequirementData p) =
     then_r (validate_required_short ''title'' (req_title p))
     (then_r (validate_required_long ''description'' (req_description p))
       (validate_summary (req_summary p)))"
| "validate_data E (IssueData p) =
     then_r (validate_required_short ''title'' (issue_title p))
     (then_r (validate_required_long ''description'' (issue_description p))
       (validate_summary (issue_summary p)))"
| "validate_data E (WorkData p) =
     then_r (validate_required_short ''title'' (work_title p))
     (then_r (validate_required_long ''description'' (work_description p))
       (validate_summary (work_summary p)))"
| "validate_data E (ResourceData p) =
     then_r (validate_required_short ''name'' (res_name p))
     (then_r (validate_locator E (res_locator p))
       (validate_required_long ''description'' (res_description p)))"


section \<open>Relations\<close>

fun allowed_relations :: "project_view_object_type \<Rightarrow> string list" where
  "allowed_relations Plan = [''under_goal_id'']"
| "allowed_relations Stage = [''under_plan_id'']"
| "allowed_relations Requirement = [''planned_in_stage_id'']"
| "allowed_relations Issue = [''planned_in_stage_id'', ''about'']"
| "allowed_relations Work = [''handles'']"
| "allowed_relations _ = []"

definition validate_relation_shape :: "project_view_object_type \<Rightarrow> view_relations \<Rightarrow> unit domain_result" where
  "validate_relation_shape ty r =
     then_r (for_each (\<lambda>(name, present).
         if present \<and> name \<notin> set (allowed_relations ty) then Err (RelationNotAllowed name ty) else Ok ())
       [(''under_goal_id'', under_goal_id r \<noteq> None), (''under_plan_id'', under_plan_id r \<noteq> None),
        (''planned_in_stage_id'', planned_in_stage_id r \<noteq> None), (''about'', about r \<noteq> None),
        (''handles'', handles r \<noteq> None)])
     (if ty = Stage \<and> under_plan_id r = None then Err (MissingRequiredRelation ''under_plan_id'')
      else if ty = Work \<and> handles r = None then Err (MissingRequiredRelation ''handles'')
      else Ok ())"

definition active_relation_target :: "view_state \<Rightarrow> string \<Rightarrow> uuid \<Rightarrow> view_object domain_result" where
  "active_relation_target s relation target_id =
     (case entry_at s target_id of
        Some (ActiveObject v) \<Rightarrow> Ok v
      | Some (Tombstone _) \<Rightarrow> Err (RelationTargetDeleted relation target_id)
      | None \<Rightarrow> Err (RelationTargetNotFound relation target_id))"

definition validate_typed_target :: "view_state \<Rightarrow> string \<Rightarrow> uuid \<Rightarrow> project_view_object_type \<Rightarrow> unit domain_result" where
  "validate_typed_target s relation target_id expected =
     bind_r (active_relation_target s relation target_id) (\<lambda>target.
       if obj_type target \<noteq> expected
       then Err (RelationTargetTypeMismatch relation target_id expected (obj_type target)) else Ok ())"

definition validate_declared_target :: "view_state \<Rightarrow> string \<Rightarrow> object_ref \<Rightarrow> unit domain_result" where
  "validate_declared_target s relation target =
     bind_r (active_relation_target s relation (ref_id target)) (\<lambda>actual.
       if obj_type actual \<noteq> ref_type target
       then Err (RelationTargetTypeMismatch relation (ref_id target) (ref_type target) (obj_type actual)) else Ok ())"

definition validate_work_target :: "project_view_object_type \<Rightarrow> unit domain_result" where
  "validate_work_target actual =
     (if actual = Requirement \<or> actual = Issue then Ok () else Err (InvalidWorkTarget actual))"

definition when_some :: "'a option \<Rightarrow> ('a \<Rightarrow> unit domain_result) \<Rightarrow> unit domain_result" where
  "when_some x f = (case x of None \<Rightarrow> Ok () | Some v \<Rightarrow> f v)"

definition validate_relation_targets :: "view_state \<Rightarrow> view_object \<Rightarrow> unit domain_result" where
  "validate_relation_targets s v =
     (let r = obj_relations v in
      then_r (when_some (under_goal_id r) (\<lambda>i. validate_typed_target s ''under_goal_id'' i Goal))
      (then_r (when_some (under_plan_id r) (\<lambda>i. validate_typed_target s ''under_plan_id'' i Plan))
      (then_r (when_some (planned_in_stage_id r) (\<lambda>i. validate_typed_target s ''planned_in_stage_id'' i Stage))
      (then_r (when_some (about r) (\<lambda>target.
          if ref_id target = obj_id v then Err (SelfReference ''about'' (obj_id v))
          else validate_declared_target s ''about'' target))
        (when_some (handles r) (\<lambda>target.
          then_r (validate_work_target (ref_type target)) (validate_declared_target s ''handles'' target)))))))"


section \<open>Objects and states\<close>

definition validate_object :: "view_env \<Rightarrow> view_object \<Rightarrow> unit domain_result" where
  "validate_object E v =
     (if obj_type v \<noteq> data_type (obj_data v) then Err (DataTypeMismatch (obj_type v) (data_type (obj_data v)))
      else then_r (validate_view_revision (obj_revision v))
       (then_r (validate_view_revision (obj_project_revision v))
        (if obj_revision v = 0 \<or> obj_project_revision v = 0
         then Err (InvalidFinalState (''active object '' @ uuid_display (ids E) (obj_id v)
           @ '' must have positive object and project revisions''))
         else if obj_updated_at v < obj_created_at v
         then Err (InvalidFinalState (''active object '' @ uuid_display (ids E) (obj_id v)
           @ '' was updated before it was created''))
         else then_r (validate_data E (obj_data v)) (validate_relation_shape (obj_type v) (obj_relations v)))))"

text \<open>One turn of the loop over the entries, without the two counters.\<close>

definition validate_active :: "view_env \<Rightarrow> view_state \<Rightarrow> timestamp \<Rightarrow> view_object \<Rightarrow> unit domain_result" where
  "validate_active E s updated_at v =
     then_r (validate_object E v)
     (if obj_project_revision v > view_revision s
      then Err (InvalidFinalState (''object '' @ uuid_display (ids E) (obj_id v)
        @ '' was changed at future project revision '' @ show_nat (unat (obj_project_revision v))))
      else if obj_updated_at v > updated_at
      then Err (InvalidFinalState (''object '' @ uuid_display (ids E) (obj_id v)
        @ '' was updated after the aggregate update time''))
      else if obj_type v = ProjectProfile
      then (if obj_id v \<noteq> view_project_id s
            then Err (InvalidFinalState ''profile id must equal the server-resolved community id'') else Ok ())
      else validate_client_object_id E (view_project_id s) (obj_id v))"

definition validate_tombstone :: "view_env \<Rightarrow> view_state \<Rightarrow> timestamp \<Rightarrow> view_tombstone \<Rightarrow> unit domain_result" where
  "validate_tombstone E s updated_at d =
     then_r (validate_view_revision (tomb_revision d))
     (then_r (validate_view_revision (tomb_project_revision d))
      (if tomb_revision d = 0 \<or> tomb_project_revision d = 0
       then Err (InvalidFinalState (''tombstone '' @ uuid_display (ids E) (tomb_id d)
         @ '' must have positive object and project revisions''))
       else if tomb_deleted_at d < tomb_created_at d
       then Err (InvalidFinalState (''tombstone '' @ uuid_display (ids E) (tomb_id d)
         @ '' was deleted before it was created''))
       else if tomb_project_revision d > view_revision s
       then Err (InvalidFinalState (''tombstone '' @ uuid_display (ids E) (tomb_id d)
         @ '' was changed at future project revision '' @ show_nat (unat (tomb_project_revision d))))
       else if tomb_deleted_at d > updated_at
       then Err (InvalidFinalState (''tombstone '' @ uuid_display (ids E) (tomb_id d)
         @ '' was deleted after the aggregate update time''))
       else if tomb_type d = ProjectProfile
       then Err (InvalidFinalState ''the project profile cannot be tombstoned'')
       else validate_client_object_id E (view_project_id s) (tomb_id d)))"

definition validate_entry :: "view_env \<Rightarrow> view_state \<Rightarrow> timestamp \<Rightarrow> uuid \<times> view_entry \<Rightarrow> unit domain_result" where
  "validate_entry E s updated_at ke =
     (let (key, e) = ke in
      if key \<noteq> entry_id e
      then Err (InvalidFinalState (''entry map key '' @ uuid_display (ids E) key
        @ '' does not match canonical object id '' @ uuid_display (ids E) (entry_id e)))
      else case e of
        ActiveObject v \<Rightarrow> validate_active E s updated_at v
      | Tombstone d \<Rightarrow> validate_tombstone E s updated_at d)"

definition count_type :: "project_view_object_type \<Rightarrow> view_state \<Rightarrow> nat" where
  "count_type ty s = length (filter (\<lambda>v. obj_type v = ty) (active_objects s))"

definition validate_state :: "view_env \<Rightarrow> view_state \<Rightarrow> unit domain_result" where
  "validate_state E s =
     then_r (validate_view_revision (view_revision s))
     (if \<not> is_initialized s then
        (if view_revision s = 0 \<and> view_entries s = [] \<and> view_updated_at s = None then Ok ()
         else Err (InvalidFinalState
           ''an uninitialized state must have revision zero, no objects, and no update time''))
      else if view_revision s = 0
      then Err (InvalidFinalState ''an initialized state must have a positive revision'')
      else case view_updated_at s of
        None \<Rightarrow> Err (InvalidFinalState ''an initialized state must have an update time'')
      | Some updated_at \<Rightarrow>
          if (case view_initialized_at s of Some t \<Rightarrow> t > updated_at | None \<Rightarrow> False)
          then Err (InvalidFinalState ''project initialization time cannot be after its update time'')
          else then_r (for_each (validate_entry E s updated_at) (view_entries s))
           (if count_type ProjectProfile s \<noteq> 1
            then Err (InvalidFinalState (''expected exactly one active profile, found ''
              @ show_nat (count_type ProjectProfile s)))
            else if count_type Goal s = 0 then Err (InvalidFinalState ''expected at least one active goal'')
            else for_each (validate_relation_targets s) (active_objects s)))"


section \<open>Checks before submission\<close>

definition validate_short_patch :: "ustring patch \<Rightarrow> string \<Rightarrow> unit domain_result" where
  "validate_short_patch p field =
     (case p of Unchanged \<Rightarrow> Ok () | Clear \<Rightarrow> Err (RequiredField field) | Set v \<Rightarrow> validate_required_short field v)"

definition validate_long_patch :: "ustring patch \<Rightarrow> string \<Rightarrow> unit domain_result" where
  "validate_long_patch p field =
     (case p of Unchanged \<Rightarrow> Ok () | Clear \<Rightarrow> Err (RequiredField field) | Set v \<Rightarrow> validate_required_long field v)"

definition validate_list_patch :: "ustring list patch \<Rightarrow> string \<Rightarrow> unit domain_result" where
  "validate_list_patch p field =
     (case p of Unchanged \<Rightarrow> Ok () | Clear \<Rightarrow> Err (RequiredField field) | Set vs \<Rightarrow> validate_string_list field vs)"

definition validate_required_patch :: "'a patch \<Rightarrow> string \<Rightarrow> unit domain_result" where
  "validate_required_patch p field = (if is_clear p then Err (RequiredField field) else Ok ())"

definition validate_required_relation_patch :: "'a patch \<Rightarrow> string \<Rightarrow> unit domain_result" where
  "validate_required_relation_patch p relation =
     (if is_clear p then Err (MissingRequiredRelation relation) else Ok ())"

fun validate_patch :: "view_env \<Rightarrow> update_mutation \<Rightarrow> bool domain_result" where
  "validate_patch E (UpdateProfile i p) =
     then_r (validate_short_patch (pp_name p) ''name'')
     (then_r (validate_long_patch (pp_positioning p) ''positioning'')
     (then_r (validate_long_patch (pp_purpose p) ''purpose'')
     (then_r (validate_long_patch (pp_problem p) ''problem'')
     (then_r (validate_long_patch (pp_scope p) ''scope'')
       (Ok (\<not> is_unchanged (pp_name p) \<or> \<not> is_unchanged (pp_positioning p) \<or> \<not> is_unchanged (pp_purpose p)
         \<or> \<not> is_unchanged (pp_problem p) \<or> \<not> is_unchanged (pp_scope p)))))))"
| "validate_patch E (UpdateGoal i p) =
     then_r (validate_short_patch (gp_title p) ''title'')
     (then_r (validate_long_patch (gp_desired_outcome p) ''desired_outcome'')
     (then_r (validate_list_patch (gp_directions p) ''directions'')
       (Ok (\<not> is_unchanged (gp_title p) \<or> \<not> is_unchanged (gp_desired_outcome p)
         \<or> \<not> is_unchanged (gp_directions p)))))"
| "validate_patch E (UpdateRole i p) =
     then_r (validate_short_patch (rp_name p) ''name'')
     (then_r (validate_long_patch (rp_purpose p) ''purpose'')
     (then_r (validate_list_patch (rp_responsibilities p) ''responsibilities'')
     (then_r (validate_list_patch (rp_boundaries p) ''boundaries'')
     (then_r (validate_required_patch (rp_active p) ''active'')
       (Ok (\<not> is_unchanged (rp_name p) \<or> \<not> is_unchanged (rp_purpose p) \<or> \<not> is_unchanged (rp_responsibilities p)
         \<or> \<not> is_unchanged (rp_boundaries p) \<or> \<not> is_unchanged (rp_active p)))))))"
| "validate_patch E (UpdatePlan i p) =
     then_r (validate_short_patch (plp_title p) ''title'')
     (then_r (validate_long_patch (plp_description p) ''description'')
     (then_r (validate_required_patch (plp_status p) ''status'')
       (Ok (\<not> is_unchanged (plp_title p) \<or> \<not> is_unchanged (plp_description p) \<or> \<not> is_unchanged (plp_status p)
         \<or> \<not> is_unchanged (plp_under_goal_id p)))))"
| "validate_patch E (UpdateStage i p) =
     then_r (validate_short_patch (sp_title p) ''title'')
     (then_r (validate_long_patch (sp_description p) ''description'')
     (then_r (validate_required_patch (sp_status p) ''status'')
     (then_r (validate_required_relation_patch (sp_under_plan_id p) ''under_plan_id'')
       (Ok (\<not> is_unchanged (sp_title p) \<or> \<not> is_unchanged (sp_description p) \<or> \<not> is_unchanged (sp_status p)
         \<or> \<not> is_unchanged (sp_under_plan_id p))))))"
| "validate_patch E (UpdateRequirement i p) =
     then_r (validate_short_patch (rqp_title p) ''title'')
     (then_r (validate_long_patch (rqp_description p) ''description'')
     (then_r (validate_required_patch (rqp_status p) ''status'')
     (then_r (validate_required_patch (rqp_priority p) ''priority'')
       (Ok (\<not> is_unchanged (rqp_title p) \<or> \<not> is_unchanged (rqp_description p) \<or> \<not> is_unchanged (rqp_status p)
         \<or> \<not> is_unchanged (rqp_priority p) \<or> \<not> is_unchanged (rqp_planned_in_stage_id p))))))"
| "validate_patch E (UpdateIssue i p) =
     then_r (validate_short_patch (ip_title p) ''title'')
     (then_r (validate_long_patch (ip_description p) ''description'')
     (then_r (validate_required_patch (ip_status p) ''status'')
     (then_r (validate_required_patch (ip_priority p) ''priority'')
     (then_r (case ip_about p of
          Set target \<Rightarrow> if ref_id target = i then Err (SelfReference ''about'' i) else Ok ()
        | _ \<Rightarrow> Ok ())
       (Ok (\<not> is_unchanged (ip_title p) \<or> \<not> is_unchanged (ip_description p) \<or> \<not> is_unchanged (ip_status p)
         \<or> \<not> is_unchanged (ip_priority p) \<or> \<not> is_unchanged (ip_planned_in_stage_id p)
         \<or> \<not> is_unchanged (ip_about p)))))))"
| "validate_patch E (UpdateWork i p) =
     then_r (validate_short_patch (wp_title p) ''title'')
     (then_r (validate_long_patch (wp_description p) ''description'')
     (then_r (validate_required_patch (wp_status p) ''status'')
     (then_r (validate_required_patch (wp_priority p) ''priority'')
     (then_r (validate_required_relation_patch (wp_handles p) ''handles'')
     (then_r (case wp_handles p of Set target \<Rightarrow> validate_work_target (ref_type target) | _ \<Rightarrow> Ok ())
       (Ok (\<not> is_unchanged (wp_title p) \<or> \<not> is_unchanged (wp_description p) \<or> \<not> is_unchanged (wp_status p)
         \<or> \<not> is_unchanged (wp_priority p) \<or> \<not> is_unchanged (wp_handles p))))))))"
| "validate_patch E (UpdateResource i p) =
     then_r (validate_short_patch (rsp_name p) ''name'')
     (then_r (validate_required_patch (rsp_resource_type p) ''resource_type'')
     (then_r (case rsp_locator p of
          Clear \<Rightarrow> Err (RequiredField ''locator'') | Set l \<Rightarrow> validate_locator E l | Unchanged \<Rightarrow> Ok ())
     (then_r (validate_long_patch (rsp_description p) ''description'')
       (Ok (\<not> is_unchanged (rsp_name p) \<or> \<not> is_unchanged (rsp_resource_type p) \<or> \<not> is_unchanged (rsp_locator p)
         \<or> \<not> is_unchanged (rsp_description p))))))"

definition validate_update_input :: "view_env \<Rightarrow> update_mutation \<Rightarrow> unit domain_result" where
  "validate_update_input E u =
     then_r (if update_object_type u \<noteq> ProjectProfile then validate_client_generated_id E (update_object_id u) else Ok ())
     (bind_r (validate_patch E u) (\<lambda>changed. if changed then Ok () else Err NoChanges))"

fun validate_initial_goals :: "view_env \<Rightarrow> uuid set \<Rightarrow> initialize_goal list \<Rightarrow> unit domain_result" where
  "validate_initial_goals E seen [] = Ok ()"
| "validate_initial_goals E seen (g # gs) =
     then_r (validate_client_generated_id E (ig_id g))
     (if ig_id g \<in> seen then Err (ObjectIdAlreadyUsed (ig_id g))
      else then_r (validate_data E (GoalData (into_goal g))) (validate_initial_goals E (insert (ig_id g) seen) gs))"

definition validate_create_input :: "view_env \<Rightarrow> new_view_object \<Rightarrow> unit domain_result" where
  "validate_create_input E n =
     then_r (validate_client_generated_id E (new_object_id n))
     (let (i, d, r) = into_parts n in
      then_r (validate_data E d)
      (then_r (validate_relation_shape (data_type d) r)
       (case d of
          IssueData _ \<Rightarrow>
            if (case about r of Some target \<Rightarrow> ref_id target = i | None \<Rightarrow> False)
            then Err (SelfReference ''about'' i) else Ok ()
        | WorkData _ \<Rightarrow> when_some (handles r) (\<lambda>target. validate_work_target (ref_type target))
        | _ \<Rightarrow> Ok ())))"

fun validate_mutation_input :: "view_env \<Rightarrow> mutation_request \<Rightarrow> unit domain_result" where
  "validate_mutation_input E (InitializeView m) =
     (if length (init_goals m) < 1 \<or> length (init_goals m) > MAX_INITIAL_GOALS
      then Err (InvalidInitialGoalCount 1 MAX_INITIAL_GOALS (length (init_goals m)))
      else then_r (validate_data E (ProfileData (init_profile m))) (validate_initial_goals E {} (init_goals m)))"
| "validate_mutation_input E (CreateObject n) = validate_create_input E n"
| "validate_mutation_input E (UpdateObject u) = validate_update_input E u"
| "validate_mutation_input E (DeleteObject d) =
     (if del_object_type d = ProjectProfile then Err ProfileDeletionForbidden
      else validate_client_generated_id E (del_object_id d))"

definition validate_for_submission :: "view_env \<Rightarrow> view_mutation \<Rightarrow> unit domain_result" where
  "validate_for_submission E m =
     (if mut_schema_version m \<noteq> MUTATION_SCHEMA_VERSION
      then Err (UnsupportedSchemaVersion (ucast (mut_schema_version m)) (ucast MUTATION_SCHEMA_VERSION))
      else then_r (validate_view_revision (mut_expected_revision m)) (validate_mutation_input E (mut_request m)))"

text \<open>
  Parsing: \<open>serde_json\<close> reads the text and decodes the closed schema; the depth is
  measured in between.
\<close>

record mutation_codec =
  json_from_str :: "ustring \<Rightarrow> (json_value, string) result"
  mutation_from_value :: "json_value \<Rightarrow> (view_mutation, string) result"

definition mutation_from_json :: "mutation_codec \<Rightarrow> ustring \<Rightarrow> view_mutation domain_result" where
  "mutation_from_json J content =
     (if utf8_len content > MAX_MUTATION_CONTENT_BYTES
      then Err (MutationContentTooLarge MAX_MUTATION_CONTENT_BYTES (utf8_len content))
      else bind_r (map_err InvalidMutationJson (json_from_str J content)) (\<lambda>v.
        if json_depth v > MAX_MUTATION_JSON_DEPTH then Err (MutationJsonTooDeep MAX_MUTATION_JSON_DEPTH (json_depth v))
        else bind_r (map_err InvalidMutationJson (mutation_from_value J v)) (\<lambda>m.
          if mut_schema_version m \<noteq> MUTATION_SCHEMA_VERSION
          then Err (UnsupportedSchemaVersion (ucast (mut_schema_version m)) (ucast MUTATION_SCHEMA_VERSION))
          else then_r (validate_view_revision (mut_expected_revision m)) (Ok m))))"

end
