(* ===== verification/View_Reducer.thy ===== *)
theory View_Reducer
  imports View_Validation
begin

text \<open>
  The Project View reducer, from \<open>crates/buzz-project-view/src/state.rs\<close>: one definition
  per operation, the whole-state validation before and after.  The source changes a
  clone and drops it on an error; here an error is the result.
\<close>

section \<open>Patches\<close>

definition apply_required :: "'a \<Rightarrow> 'a patch \<Rightarrow> string \<Rightarrow> 'a domain_result" where
  "apply_required current p field =
     (case p of Unchanged \<Rightarrow> Ok current | Clear \<Rightarrow> Err (RequiredField field) | Set v \<Rightarrow> Ok v)"

definition apply_optional :: "'a option \<Rightarrow> 'a patch \<Rightarrow> 'a option" where
  "apply_optional current p = (case p of Unchanged \<Rightarrow> current | Clear \<Rightarrow> None | Set v \<Rightarrow> Some v)"

definition apply_required_relation :: "'a option \<Rightarrow> 'a patch \<Rightarrow> string \<Rightarrow> 'a option domain_result" where
  "apply_required_relation current p relation =
     (case p of Unchanged \<Rightarrow> Ok current | Clear \<Rightarrow> Err (MissingRequiredRelation relation) | Set v \<Rightarrow> Ok (Some v))"

fun patch_data :: "update_mutation \<Rightarrow> object_data \<Rightarrow> view_relations \<Rightarrow> (object_data \<times> view_relations) domain_result option" where
  "patch_data (UpdateProfile _ p) d r =
     (case d of ProfileData x \<Rightarrow> Some (
     bind_r (apply_required (profile_name x) (pp_name p) ''name'') (\<lambda>name.
     bind_r (apply_required (profile_positioning x) (pp_positioning p) ''positioning'') (\<lambda>positioning.
     bind_r (apply_required (profile_purpose x) (pp_purpose p) ''purpose'') (\<lambda>purpose.
     bind_r (apply_required (profile_problem x) (pp_problem p) ''problem'') (\<lambda>problem.
     bind_r (apply_required (profile_scope x) (pp_scope p) ''scope'') (\<lambda>scope.
     Ok (ProfileData (x\<lparr>profile_name := name, profile_positioning := positioning, profile_purpose := purpose,
           profile_problem := problem, profile_scope := scope\<rparr>), r))))))) | _ \<Rightarrow> None)"
| "patch_data (UpdateGoal _ p) d r =
     (case d of GoalData x \<Rightarrow> Some (
     bind_r (apply_required (goal_title x) (gp_title p) ''title'') (\<lambda>title.
     bind_r (apply_required (goal_desired_outcome x) (gp_desired_outcome p) ''desired_outcome'') (\<lambda>desired_outcome.
     bind_r (apply_required (goal_directions x) (gp_directions p) ''directions'') (\<lambda>directions.
     Ok (GoalData (x\<lparr>goal_title := title, goal_desired_outcome := desired_outcome, goal_directions := directions\<rparr>), r))))) | _ \<Rightarrow> None)"
| "patch_data (UpdateRole _ p) d r =
     (case d of RoleData x \<Rightarrow> Some (
     bind_r (apply_required (role_name x) (rp_name p) ''name'') (\<lambda>name.
     bind_r (apply_required (role_purpose x) (rp_purpose p) ''purpose'') (\<lambda>purpose.
     bind_r (apply_required (role_responsibilities x) (rp_responsibilities p) ''responsibilities'') (\<lambda>responsibilities.
     bind_r (apply_required (role_boundaries x) (rp_boundaries p) ''boundaries'') (\<lambda>boundaries.
     bind_r (apply_required (role_active x) (rp_active p) ''active'') (\<lambda>active.
     Ok (RoleData (x\<lparr>role_name := name, role_purpose := purpose, role_responsibilities := responsibilities,
           role_boundaries := boundaries, role_active := active\<rparr>), r))))))) | _ \<Rightarrow> None)"
| "patch_data (UpdatePlan _ p) d r =
     (case d of PlanData x \<Rightarrow> Some (
     bind_r (apply_required (plan_title x) (plp_title p) ''title'') (\<lambda>title.
     bind_r (apply_required (plan_description x) (plp_description p) ''description'') (\<lambda>description.
     bind_r (apply_required (plan_state x) (plp_status p) ''status'') (\<lambda>status.
     Ok (PlanData (x\<lparr>plan_title := title, plan_description := description, plan_state := status\<rparr>),
         r\<lparr>under_goal_id := apply_optional (under_goal_id r) (plp_under_goal_id p)\<rparr>))))) | _ \<Rightarrow> None)"
| "patch_data (UpdateStage _ p) d r =
     (case d of StageData x \<Rightarrow> Some (
     bind_r (apply_required (stage_title x) (sp_title p) ''title'') (\<lambda>title.
     bind_r (apply_required (stage_description x) (sp_description p) ''description'') (\<lambda>description.
     bind_r (apply_required (stage_state x) (sp_status p) ''status'') (\<lambda>status.
     bind_r (apply_required_relation (under_plan_id r) (sp_under_plan_id p) ''under_plan_id'') (\<lambda>plan.
     Ok (StageData (x\<lparr>stage_title := title, stage_description := description, stage_state := status\<rparr>),
         r\<lparr>under_plan_id := plan\<rparr>)))))) | _ \<Rightarrow> None)"
| "patch_data (UpdateRequirement _ p) d r =
     (case d of RequirementData x \<Rightarrow> Some (
     bind_r (apply_required (req_title x) (rqp_title p) ''title'') (\<lambda>title.
     bind_r (apply_required (req_description x) (rqp_description p) ''description'') (\<lambda>description.
     bind_r (apply_required (req_state x) (rqp_status p) ''status'') (\<lambda>status.
     bind_r (apply_required (req_priority x) (rqp_priority p) ''priority'') (\<lambda>priority.
     Ok (RequirementData (x\<lparr>req_title := title, req_description := description, req_state := status,
           req_priority := priority\<rparr>),
         r\<lparr>planned_in_stage_id := apply_optional (planned_in_stage_id r) (rqp_planned_in_stage_id p)\<rparr>)))))) | _ \<Rightarrow> None)"
| "patch_data (UpdateIssue _ p) d r =
     (case d of IssueData x \<Rightarrow> Some (
     bind_r (apply_required (issue_title x) (ip_title p) ''title'') (\<lambda>title.
     bind_r (apply_required (issue_description x) (ip_description p) ''description'') (\<lambda>description.
     bind_r (apply_required (issue_state x) (ip_status p) ''status'') (\<lambda>status.
     bind_r (apply_required (issue_priority x) (ip_priority p) ''priority'') (\<lambda>priority.
     Ok (IssueData (x\<lparr>issue_title := title, issue_description := description, issue_state := status,
           issue_priority := priority\<rparr>),
         r\<lparr>planned_in_stage_id := apply_optional (planned_in_stage_id r) (ip_planned_in_stage_id p),
           about := apply_optional (about r) (ip_about p)\<rparr>)))))) | _ \<Rightarrow> None)"
| "patch_data (UpdateWork _ p) d r =
     (case d of WorkData x \<Rightarrow> Some (
     bind_r (apply_required (work_title x) (wp_title p) ''title'') (\<lambda>title.
     bind_r (apply_required (work_description x) (wp_description p) ''description'') (\<lambda>description.
     bind_r (apply_required (work_state x) (wp_status p) ''status'') (\<lambda>status.
     bind_r (apply_required (work_priority x) (wp_priority p) ''priority'') (\<lambda>priority.
     bind_r (apply_required_relation (handles r) (wp_handles p) ''handles'') (\<lambda>target.
     Ok (WorkData (x\<lparr>work_title := title, work_description := description, work_state := status,
           work_priority := priority\<rparr>), r\<lparr>handles := target\<rparr>))))))) | _ \<Rightarrow> None)"
| "patch_data (UpdateResource _ p) d r =
     (case d of ResourceData x \<Rightarrow> Some (
     bind_r (apply_required (res_name x) (rsp_name p) ''name'') (\<lambda>name.
     bind_r (apply_required (res_type x) (rsp_resource_type p) ''resource_type'') (\<lambda>rtype.
     bind_r (apply_required (res_locator x) (rsp_locator p) ''locator'') (\<lambda>locator.
     bind_r (apply_required (res_description x) (rsp_description p) ''description'') (\<lambda>description.
     Ok (ResourceData (x\<lparr>res_name := name, res_type := rtype, res_locator := locator,
           res_description := description\<rparr>), r)))))) | _ \<Rightarrow> None)"

definition apply_typed_patch :: "view_object \<Rightarrow> update_mutation \<Rightarrow> view_object domain_result" where
  "apply_typed_patch v u =
     (case patch_data u (obj_data v) (obj_relations v) of
        None \<Rightarrow> Err (DataTypeMismatch (obj_type v) (data_type (obj_data v)))
      | Some patched \<Rightarrow> bind_r patched (\<lambda>(d, r). Ok (v\<lparr>obj_data := d, obj_relations := r\<rparr>)))"


section \<open>The four operations\<close>

definition view_next_revision :: "u64 \<Rightarrow> u64 domain_result" where
  "view_next_revision current =
     bind_r (ok_or RevisionExhausted (checked_add current 1)) (\<lambda>next.
       if next > MAX_SAFE_REVISION then Err RevisionExhausted else Ok next)"

definition insert_new :: "view_env \<Rightarrow> view_entry \<Rightarrow> view_state \<Rightarrow> view_state domain_result" where
  "insert_new E e s =
     (if entry_at s (entry_id e) \<noteq> None then Err (ObjectIdAlreadyUsed (entry_id e))
      else Ok (s\<lparr>view_entries := om_insert (uuid_cmp (ids E)) (entry_id e) e (view_entries s)\<rparr>))"

definition new_active ::
  "uuid \<Rightarrow> object_data \<Rightarrow> view_relations \<Rightarrow> u64 \<Rightarrow> public_key \<Rightarrow> timestamp \<Rightarrow> view_object" where
  "new_active i d r project_revision actor now =
     \<lparr>obj_id = i, obj_type = data_type d, obj_revision = 1, obj_project_revision = project_revision,
      obj_created_at = now, obj_updated_at = now, obj_created_by = actor, obj_updated_by = actor,
      obj_data = d, obj_relations = r\<rparr>"

fun insert_goals ::
  "view_env \<Rightarrow> u64 \<Rightarrow> public_key \<Rightarrow> timestamp \<Rightarrow> initialize_goal list \<Rightarrow> view_state
   \<Rightarrow> (view_entry list \<times> view_state) domain_result" where
  "insert_goals E project_revision actor now [] s = Ok ([], s)"
| "insert_goals E project_revision actor now (g # gs) s =
     then_r (validate_client_object_id E (view_project_id s) (ig_id g))
     (let v = new_active (ig_id g) (GoalData (into_goal g)) no_relations project_revision actor now in
      then_r (validate_data E (obj_data v))
      (bind_r (insert_new E (ActiveObject v) s) (\<lambda>s.
       bind_r (insert_goals E project_revision actor now gs s) (\<lambda>(changed, s). Ok (ActiveObject v # changed, s)))))"

definition apply_initialize ::
  "view_env \<Rightarrow> initialize_mutation \<Rightarrow> public_key \<Rightarrow> timestamp \<Rightarrow> view_state
   \<Rightarrow> (view_entry list \<times> view_state) domain_result" where
  "apply_initialize E m actor now s =
     (if is_initialized s then Err AlreadyInitialized
      else if length (init_goals m) < 1 \<or> length (init_goals m) > MAX_INITIAL_GOALS
      then Err (InvalidInitialGoalCount 1 MAX_INITIAL_GOALS (length (init_goals m)))
      else
        bind_r (view_next_revision (view_revision s)) (\<lambda>project_revision.
        let profile = new_active (view_project_id s) (ProfileData (init_profile m)) no_relations
              project_revision actor now in
        then_r (validate_data E (obj_data profile))
        (bind_r (insert_new E (ActiveObject profile) s) (\<lambda>s.
         bind_r (insert_goals E project_revision actor now (init_goals m) s) (\<lambda>(changed, s).
         Ok (sort_by (\<lambda>a b. uuid_cmp (ids E) (entry_id a) (entry_id b)) (ActiveObject profile # changed),
             s\<lparr>view_revision := project_revision, view_initialized_at := Some now,
               view_updated_at := Some now\<rparr>))))))"

definition apply_create ::
  "view_env \<Rightarrow> new_view_object \<Rightarrow> public_key \<Rightarrow> timestamp \<Rightarrow> view_state
   \<Rightarrow> (view_entry \<times> view_state) domain_result" where
  "apply_create E n actor now s =
     bind_r (view_next_revision (view_revision s)) (\<lambda>project_revision.
     let (i, d, r) = into_parts n in
     then_r (validate_client_object_id E (view_project_id s) i)
     (if entry_at s i \<noteq> None then Err (ObjectIdAlreadyUsed i)
      else then_r (validate_data E d)
       (let e = ActiveObject (new_active i d r project_revision actor now) in
        bind_r (insert_new E e s) (\<lambda>s.
          Ok (e, s\<lparr>view_revision := project_revision, view_updated_at := Some now\<rparr>)))))"

definition current_object :: "view_state \<Rightarrow> uuid \<Rightarrow> project_view_object_type \<Rightarrow> view_object domain_result" where
  "current_object s i expected =
     (case entry_at s i of
        Some (ActiveObject v) \<Rightarrow>
          if obj_type v \<noteq> expected then Err (ObjectTypeMismatch i expected (obj_type v)) else Ok v
      | Some (Tombstone _) \<Rightarrow> Err (ObjectDeleted i)
      | None \<Rightarrow> Err (ObjectNotFound i))"

definition put_entry :: "view_env \<Rightarrow> uuid \<Rightarrow> view_entry \<Rightarrow> u64 \<Rightarrow> timestamp \<Rightarrow> view_state \<Rightarrow> view_state" where
  "put_entry E i e project_revision now s =
     s\<lparr>view_entries := om_insert (uuid_cmp (ids E)) i e (view_entries s),
       view_revision := project_revision, view_updated_at := Some now\<rparr>"

definition apply_update ::
  "view_env \<Rightarrow> update_mutation \<Rightarrow> public_key \<Rightarrow> timestamp \<Rightarrow> view_state \<Rightarrow> (view_entry \<times> view_state) domain_result" where
  "apply_update E u actor now s =
     bind_r (current_object s (update_object_id u) (update_object_type u)) (\<lambda>current.
     bind_r (apply_typed_patch current u) (\<lambda>updated.
     if obj_data updated = obj_data current \<and> obj_relations updated = obj_relations current then Err NoChanges
     else then_r (validate_data E (obj_data updated))
      (bind_r (view_next_revision (view_revision s)) (\<lambda>project_revision.
       bind_r (view_next_revision (obj_revision current)) (\<lambda>object_revision.
       let e = ActiveObject (updated\<lparr>obj_revision := object_revision, obj_project_revision := project_revision,
             obj_updated_at := now, obj_updated_by := actor\<rparr>) in
       Ok (e, put_entry E (update_object_id u) e project_revision now s))))))"

fun incoming_relation :: "uuid \<Rightarrow> view_object list \<Rightarrow> string option" where
  "incoming_relation i [] = None"
| "incoming_relation i (v # vs) =
     (let r = obj_relations v in
      if under_goal_id r = Some i then Some ''under_goal_id''
      else if under_plan_id r = Some i then Some ''under_plan_id''
      else if planned_in_stage_id r = Some i then Some ''planned_in_stage_id''
      else if (case about r of Some t \<Rightarrow> ref_id t = i | None \<Rightarrow> False) then Some ''about''
      else if (case handles r of Some t \<Rightarrow> ref_id t = i | None \<Rightarrow> False) then Some ''handles''
      else incoming_relation i vs)"

definition first_incoming_relation :: "view_state \<Rightarrow> uuid \<Rightarrow> string option" where
  "first_incoming_relation s i = incoming_relation i (active_objects s)"

definition apply_delete ::
  "view_env \<Rightarrow> delete_mutation \<Rightarrow> public_key \<Rightarrow> timestamp \<Rightarrow> view_state \<Rightarrow> (view_entry \<times> view_state) domain_result" where
  "apply_delete E m actor now s =
     bind_r (current_object s (del_object_id m) (del_object_type m)) (\<lambda>current.
     if obj_type current = ProjectProfile then Err ProfileDeletionForbidden
     else if obj_type current = Goal \<and> count_type Goal s = 1 then Err LastGoalDeletionForbidden
     else case first_incoming_relation s (obj_id current) of
       Some relation \<Rightarrow> Err (ObjectStillReferenced (obj_id current) relation)
     | None \<Rightarrow>
         bind_r (view_next_revision (view_revision s)) (\<lambda>project_revision.
         bind_r (view_next_revision (obj_revision current)) (\<lambda>object_revision.
         let e = Tombstone \<lparr>tomb_id = obj_id current, tomb_type = obj_type current, tomb_revision = object_revision,
               tomb_project_revision = project_revision, tomb_created_at = obj_created_at current,
               tomb_deleted_at = now, tomb_created_by = obj_created_by current, tomb_deleted_by = actor\<rparr> in
         Ok (e, put_entry E (obj_id current) e project_revision now s))))"

definition require_initialized :: "view_state \<Rightarrow> unit domain_result" where
  "require_initialized s = (if is_initialized s then Ok () else Err NotInitialized)"

definition validate_mutation_envelope :: "view_state \<Rightarrow> view_mutation \<Rightarrow> unit domain_result" where
  "validate_mutation_envelope s m =
     (if mut_schema_version m \<noteq> MUTATION_SCHEMA_VERSION
      then Err (UnsupportedSchemaVersion (ucast (mut_schema_version m)) (ucast MUTATION_SCHEMA_VERSION))
      else then_r (validate_view_revision (mut_expected_revision m))
       (if mut_expected_revision m \<noteq> view_revision s
        then Err (ProjectRevisionConflict (mut_expected_revision m) (view_revision s)) else Ok ()))"

definition single :: "(view_entry \<times> view_state) domain_result \<Rightarrow> (view_entry list \<times> view_state) domain_result" where
  "single r = bind_r r (\<lambda>(e, s). Ok ([e], s))"

definition apply_request ::
  "view_env \<Rightarrow> mutation_request \<Rightarrow> public_key \<Rightarrow> timestamp \<Rightarrow> view_state \<Rightarrow> (view_entry list \<times> view_state) domain_result" where
  "apply_request E request actor now s =
     (case request of
        InitializeView m \<Rightarrow> apply_initialize E m actor now s
      | CreateObject n \<Rightarrow> then_r (require_initialized s) (single (apply_create E n actor now s))
      | UpdateObject u \<Rightarrow> then_r (require_initialized s) (single (apply_update E u actor now s))
      | DeleteObject d \<Rightarrow> then_r (require_initialized s) (single (apply_delete E d actor now s)))"

definition view_reduce ::
  "view_env \<Rightarrow> view_state \<Rightarrow> view_mutation \<Rightarrow> public_key \<Rightarrow> timestamp \<Rightarrow> (view_state \<times> mutation_outcome) domain_result" where
  "view_reduce E s m actor now =
     then_r (validate_state E s)
     (then_r (validate_mutation_envelope s m)
      (bind_r (apply_request E (mut_request m) actor now s) (\<lambda>(changed, next).
       then_r (validate_state E next)
         (Ok (next, \<lparr>out_project_revision = view_revision next, out_changed_entries = changed\<rparr>)))))"

text \<open>Loading a snapshot: the entries in any order, no identifier twice.\<close>

fun collect_entries :: "view_env \<Rightarrow> view_entries \<Rightarrow> view_entry list \<Rightarrow> view_entries domain_result" where
  "collect_entries E m [] = Ok m"
| "collect_entries E m (e # es) =
     (if map_of m (entry_id e) \<noteq> None then Err (ObjectIdAlreadyUsed (entry_id e))
      else collect_entries E (om_insert (uuid_cmp (ids E)) (entry_id e) e m) es)"

definition view_from_snapshot ::
  "view_env \<Rightarrow> uuid \<Rightarrow> u64 \<Rightarrow> timestamp option \<Rightarrow> timestamp option \<Rightarrow> view_entry list \<Rightarrow> view_state domain_result" where
  "view_from_snapshot E project_id project_revision initialized_at updated_at es =
     bind_r (collect_entries E [] es) (\<lambda>by_id.
     let s = \<lparr>view_project_id = project_id, view_revision = project_revision, view_initialized_at = initialized_at,
           view_updated_at = updated_at, view_entries = by_id\<rparr> in
     then_r (validate_state E s) (Ok s))"

end
