(* ===== verification/View_Valid.thy ===== *)
theory View_Valid
  imports View_Reducer
begin

text \<open>
  What a valid Project View state is, without the order of the checks, and what the
  operations of the reducer do to a state in key order.
\<close>

section \<open>Relations resolve\<close>

text \<open>The type of the active object an identifier names.\<close>

definition active_type :: "view_state \<Rightarrow> uuid \<Rightarrow> project_view_object_type option" where
  "active_type s i = (case entry_at s i of Some (ActiveObject v) \<Rightarrow> Some (obj_type v) | _ \<Rightarrow> None)"

lemma when_some_Ok [result_inv]: "when_some x f = Ok () \<longleftrightarrow> (\<forall>v. x = Some v \<longrightarrow> f v = Ok ())"
  by (simp add: when_some_def split: option.split)

lemma when_some_simps [simp]: "when_some None f = Ok ()" "when_some (Some v) f = f v"
  by (simp_all add: when_some_def)

lemma active_relation_target_Ok [result_inv]:
  "active_relation_target s relation i = Ok v \<longleftrightarrow> entry_at s i = Some (ActiveObject v)"
  by (auto simp: active_relation_target_def split: option.split view_entry.split)

lemma validate_typed_target_Ok [result_inv]:
  "validate_typed_target s relation i ty = Ok () \<longleftrightarrow> active_type s i = Some ty"
  by (auto simp: validate_typed_target_def active_relation_target_def active_type_def split: option.split view_entry.split)

lemma validate_declared_target_Ok [result_inv]:
  "validate_declared_target s relation t = Ok () \<longleftrightarrow> active_type s (ref_id t) = Some (ref_type t)"
  by (auto simp: validate_declared_target_def active_relation_target_def active_type_def split: option.split view_entry.split)

lemma validate_work_target_Ok [result_inv]: "validate_work_target ty = Ok () \<longleftrightarrow> ty = Requirement \<or> ty = Issue"
  by (simp add: validate_work_target_def)

definition resolves :: "(uuid \<Rightarrow> project_view_object_type option) \<Rightarrow> uuid \<Rightarrow> view_relations \<Rightarrow> bool" where
  "resolves types i r \<longleftrightarrow>
     (\<forall>j. under_goal_id r = Some j \<longrightarrow> types j = Some Goal)
     \<and> (\<forall>j. under_plan_id r = Some j \<longrightarrow> types j = Some Plan)
     \<and> (\<forall>j. planned_in_stage_id r = Some j \<longrightarrow> types j = Some Stage)
     \<and> (\<forall>t. about r = Some t \<longrightarrow> ref_id t \<noteq> i \<and> types (ref_id t) = Some (ref_type t))
     \<and> (\<forall>t. handles r = Some t \<longrightarrow> (ref_type t = Requirement \<or> ref_type t = Issue) \<and> types (ref_id t) = Some (ref_type t))"

lemma validate_relation_targets_Ok [result_inv]:
  "validate_relation_targets s v = Ok () \<longleftrightarrow> resolves (active_type s) (obj_id v) (obj_relations v)"
  by (auto simp: validate_relation_targets_def resolves_def Let_def result_inv)

definition references :: "view_relations \<Rightarrow> uuid set" where
  "references r = set_option (under_goal_id r) \<union> set_option (under_plan_id r) \<union> set_option (planned_in_stage_id r)
     \<union> ref_id ` set_option (about r) \<union> ref_id ` set_option (handles r)"

lemma resolves_cong:
  "resolves types i r \<Longrightarrow> (\<And>j. j \<in> references r \<Longrightarrow> types' j = types j) \<Longrightarrow> resolves types' i r"
  by (auto simp: resolves_def references_def)

lemma incoming_relation_None: "incoming_relation i vs = None \<longleftrightarrow> (\<forall>v\<in>set vs. i \<notin> references (obj_relations v))"
  by (induction vs) (auto simp: references_def Let_def split: option.splits)


section \<open>Valid entries\<close>

lemma validate_view_revision_Ok [result_inv]: "validate_view_revision n = Ok () \<longleftrightarrow> n \<le> MAX_SAFE_REVISION"
  by (auto simp: validate_view_revision_def)

lemma validate_client_object_id_Ok [result_inv]:
  "validate_client_object_id E p i = Ok () \<longleftrightarrow>
     i \<noteq> p \<and> get_version_num (ids E) i = 4 \<and> get_variant (ids E) i = RFC4122"
  by (auto simp: validate_client_object_id_def)

lemma validate_client_generated_id_Ok [result_inv]:
  "validate_client_generated_id E i = Ok () \<longleftrightarrow> get_version_num (ids E) i = 4 \<and> get_variant (ids E) i = RFC4122"
  by (auto simp: validate_client_generated_id_def)

definition shape_ok :: "project_view_object_type \<Rightarrow> view_relations \<Rightarrow> bool" where
  "shape_ok ty r \<longleftrightarrow>
     (under_goal_id r \<noteq> None \<longrightarrow> ty = Plan) \<and> (under_plan_id r \<noteq> None \<longleftrightarrow> ty = Stage)
     \<and> (planned_in_stage_id r \<noteq> None \<longrightarrow> ty = Requirement \<or> ty = Issue) \<and> (about r \<noteq> None \<longrightarrow> ty = Issue)
     \<and> (handles r \<noteq> None \<longleftrightarrow> ty = Work)"

lemma validate_relation_shape_Ok [result_inv]: "validate_relation_shape ty r = Ok () \<longleftrightarrow> shape_ok ty r"
  by (cases ty) (auto simp: validate_relation_shape_def shape_ok_def result_inv)

definition object_ok :: "view_env \<Rightarrow> uuid \<Rightarrow> view_object \<Rightarrow> bool" where
  "object_ok E project v \<longleftrightarrow> obj_type v = data_type (obj_data v)
     \<and> 0 < obj_revision v \<and> obj_revision v \<le> MAX_SAFE_REVISION
     \<and> 0 < obj_project_revision v \<and> obj_project_revision v \<le> MAX_SAFE_REVISION
     \<and> obj_created_at v \<le> obj_updated_at v \<and> validate_data E (obj_data v) = Ok ()
     \<and> shape_ok (obj_type v) (obj_relations v)
     \<and> (if obj_type v = ProjectProfile then obj_id v = project
        else validate_client_object_id E project (obj_id v) = Ok ())"

definition tombstone_ok :: "view_env \<Rightarrow> uuid \<Rightarrow> view_tombstone \<Rightarrow> bool" where
  "tombstone_ok E project d \<longleftrightarrow> 0 < tomb_revision d \<and> tomb_revision d \<le> MAX_SAFE_REVISION
     \<and> 0 < tomb_project_revision d \<and> tomb_project_revision d \<le> MAX_SAFE_REVISION
     \<and> tomb_created_at d \<le> tomb_deleted_at d \<and> tomb_type d \<noteq> ProjectProfile
     \<and> validate_client_object_id E project (tomb_id d) = Ok ()"

fun entry_ok :: "view_env \<Rightarrow> uuid \<Rightarrow> view_entry \<Rightarrow> bool" where
  "entry_ok E project (ActiveObject v) \<longleftrightarrow> object_ok E project v"
| "entry_ok E project (Tombstone d) \<longleftrightarrow> tombstone_ok E project d"

fun entry_time :: "view_entry \<Rightarrow> timestamp" where
  "entry_time (ActiveObject v) = obj_updated_at v"
| "entry_time (Tombstone d) = tomb_deleted_at d"

fun entry_created :: "view_entry \<Rightarrow> timestamp \<times> public_key" where
  "entry_created (ActiveObject v) = (obj_created_at v, obj_created_by v)"
| "entry_created (Tombstone d) = (tomb_created_at d, tomb_created_by d)"

lemma validate_entry_Ok [result_inv]:
  "validate_entry E s u (k, e) = Ok () \<longleftrightarrow> k = entry_id e \<and> entry_ok E (view_project_id s) e
     \<and> entry_project_revision e \<le> view_revision s \<and> entry_time e \<le> u"
  by (cases e) (auto simp: validate_entry_def validate_active_def validate_tombstone_def validate_object_def
      object_ok_def tombstone_ok_def result_inv word_neq_0_conv not_less split: if_splits)

definition entries_ok :: "view_env \<Rightarrow> view_state \<Rightarrow> timestamp \<Rightarrow> bool" where
  "entries_ok E s u \<longleftrightarrow> (\<forall>(k, e)\<in>set (view_entries s). k = entry_id e \<and> entry_ok E (view_project_id s) e
     \<and> entry_project_revision e \<le> view_revision s \<and> entry_time e \<le> u)"

definition initialized_ok :: "view_env \<Rightarrow> view_state \<Rightarrow> bool" where
  "initialized_ok E s \<longleftrightarrow> 0 < view_revision s \<and> view_revision s \<le> MAX_SAFE_REVISION
     \<and> (\<exists>i u. view_initialized_at s = Some i \<and> view_updated_at s = Some u \<and> i \<le> u \<and> entries_ok E s u)
     \<and> count_type ProjectProfile s = 1 \<and> count_type Goal s \<noteq> 0
     \<and> (\<forall>v\<in>set (active_objects s). resolves (active_type s) (obj_id v) (obj_relations v))"

definition blank :: "view_state \<Rightarrow> bool" where
  "blank s \<longleftrightarrow> view_revision s = 0 \<and> view_entries s = [] \<and> view_initialized_at s = None \<and> view_updated_at s = None"

lemma entries_ok_iff: "for_each (validate_entry E s u) (view_entries s) = Ok () \<longleftrightarrow> entries_ok E s u"
  unfolding for_each_Ok_iff entries_ok_def by (auto simp: result_inv)

lemma validate_state_Ok: "validate_state E s = Ok () \<longleftrightarrow> blank s \<or> initialized_ok E s"
proof (cases "view_initialized_at s")
  case None
  then show ?thesis
    by (auto simp: validate_state_def is_initialized_def blank_def initialized_ok_def result_inv)
next
  case (Some i)
  show ?thesis
  proof (cases "view_updated_at s")
    case None
    then show ?thesis using Some
      by (auto simp: validate_state_def is_initialized_def blank_def initialized_ok_def result_inv)
  next
    case u: (Some u)
    show ?thesis using Some u
      by (auto simp: validate_state_def is_initialized_def blank_def initialized_ok_def result_inv
          entries_ok_iff [unfolded for_each_Ok_iff] word_neq_0_conv split: if_splits)
  qed
qed


section \<open>States in key order\<close>

abbreviation ordered :: "view_env \<Rightarrow> view_state \<Rightarrow> bool" where
  "ordered E s \<equiv> om_ok (uuid_cmp (ids E)) (view_entries s)"

lemma active_of_append [simp]: "active_of (xs @ ys) = active_of xs @ active_of ys"
  by (induction xs rule: active_of.induct) simp_all

lemma set_active_of: "v \<in> set (active_of es) \<longleftrightarrow> ActiveObject v \<in> set es"
  by (induction es rule: active_of.induct) auto

lemma ordered_distinct: "uuid_bytes_ok (ids E) \<Longrightarrow> ordered E s \<Longrightarrow> distinct (map fst (view_entries s))"
  by (rule total_comparison.om_distinct [OF uuid_total])

lemma entry_at_mem:
  assumes "uuid_bytes_ok (ids E)" "ordered E s"
  shows "(k, e) \<in> set (view_entries s) \<longleftrightarrow> entry_at s k = Some e"
  unfolding entry_at_def using ordered_distinct [OF assms] by simp

lemma set_active_objects:
  assumes "uuid_bytes_ok (ids E)" "ordered E s"
  shows "v \<in> set (active_objects s) \<longleftrightarrow> (\<exists>k. entry_at s k = Some (ActiveObject v))"
proof -
  have "v \<in> set (active_objects s) \<longleftrightarrow> (\<exists>k. (k, ActiveObject v) \<in> set (view_entries s))"
    unfolding active_objects_def set_active_of by force
  then show ?thesis using entry_at_mem [OF assms] by simp
qed

lemma length_active_of:
  "distinct (map fst m) \<Longrightarrow>
   length (filter P (active_of (map snd m))) = card {k. \<exists>v. map_of m k = Some (ActiveObject v) \<and> P v}"
proof (induction m)
  case (Cons ke m)
  obtain k e where ke: "ke = (k, e)" by (cases ke)
  let ?S = "\<lambda>m. {k. \<exists>v. map_of m k = Some (ActiveObject v) \<and> P v}"
  have k: "map_of m k = None" using Cons.prems by (simp add: ke map_of_eq_None_iff)
  have fin: "finite (?S m)" by (rule finite_subset [of _ "fst ` set m"]) (auto dest: map_of_SomeD intro: rev_image_eqI)
  have "?S (ke # m) = (if \<exists>v. e = ActiveObject v \<and> P v then insert k (?S m) else ?S m)"
    using k by (auto simp: ke)
  moreover have "k \<notin> ?S m" using k by simp
  ultimately have "card (?S (ke # m)) = (if \<exists>v. e = ActiveObject v \<and> P v then Suc (card (?S m)) else card (?S m))"
    using fin by simp
  then show ?case using Cons by (cases e) (simp_all add: ke)
qed simp

lemma active_type_Some: "active_type s k = Some ty \<longleftrightarrow> (\<exists>v. entry_at s k = Some (ActiveObject v) \<and> obj_type v = ty)"
  by (cases "entry_at s k") (auto simp: active_type_def split: view_entry.split)

lemma count_type_card:
  assumes "uuid_bytes_ok (ids E)" "ordered E s"
  shows "count_type ty s = card {k. active_type s k = Some ty}"
proof -
  have "{k. active_type s k = Some ty} = {k. \<exists>v. map_of (view_entries s) k = Some (ActiveObject v) \<and> obj_type v = ty}"
    unfolding active_type_Some entry_at_def ..
  then show ?thesis
    unfolding count_type_def active_objects_def using length_active_of [OF ordered_distinct [OF assms]] by simp
qed

lemma finite_active_type: "finite {k. active_type s k = Some ty}"
proof (rule finite_subset)
  show "{k. active_type s k = Some ty} \<subseteq> dom (map_of (view_entries s))"
    by (auto simp: active_type_def entry_at_def split: option.splits)
qed (rule finite_dom_map_of)

text \<open>Replacing or adding one entry.\<close>

lemma put_entry_simps [simp]:
  "view_project_id (put_entry E i e n now s) = view_project_id s"
  "view_revision (put_entry E i e n now s) = n"
  "view_initialized_at (put_entry E i e n now s) = view_initialized_at s"
  "view_updated_at (put_entry E i e n now s) = Some now"
  "view_entries (put_entry E i e n now s) = om_insert (uuid_cmp (ids E)) i e (view_entries s)"
  by (simp_all add: put_entry_def)

lemma ordered_put [simp]: "uuid_bytes_ok (ids E) \<Longrightarrow> ordered E s \<Longrightarrow> ordered E (put_entry E i e n now s)"
  by (simp add: total_comparison.om_ok_insert [OF uuid_total])

lemma entry_at_put:
  "uuid_bytes_ok (ids E) \<Longrightarrow> ordered E s \<Longrightarrow> entry_at (put_entry E i e n now s) = (entry_at s)(i \<mapsto> e)"
  by (simp add: entry_at_def [abs_def] fun_eq_iff total_comparison.map_of_om_insert [OF uuid_total])

lemma active_type_put:
  assumes "uuid_bytes_ok (ids E)" "ordered E s"
  shows "active_type (put_entry E i e n now s) =
     (active_type s)(i := case e of ActiveObject v \<Rightarrow> Some (obj_type v) | Tombstone d \<Rightarrow> None)"
  by (auto simp: active_type_def fun_eq_iff entry_at_put [OF assms] split: view_entry.split)

lemma entries_ok_put:
  assumes "uuid_bytes_ok (ids E)" "ordered E s" "entries_ok E s u" "u \<le> now" "view_revision s \<le> n"
    and "i = entry_id e" "entry_ok E (view_project_id s) e" "entry_project_revision e = n" "entry_time e \<le> now"
  shows "entries_ok E (put_entry E i e n now s) now"
  unfolding entries_ok_def
proof (clarify, intro conjI)
  fix k e'
  let ?s = "put_entry E i e n now s"
  assume "(k, e') \<in> set (view_entries (put_entry E i e n now s))"
  moreover have "(k, e') \<in> set (view_entries ?s) \<longleftrightarrow> entry_at ?s k = Some e'"
    by (rule entry_at_mem [OF assms(1) ordered_put [OF assms(1,2)]])
  ultimately have "((entry_at s)(i \<mapsto> e)) k = Some e'" unfolding entry_at_put [OF assms(1,2)] by blast
  then have "k = i \<and> e' = e \<or> entry_at s k = Some e'" by (auto split: if_splits)
  then consider "k = i" "e' = e" | "(k, e') \<in> set (view_entries s)"
    using entry_at_mem [OF assms(1,2), of k e'] by blast
  then have "k = entry_id e' \<and> entry_ok E (view_project_id s) e' \<and> entry_project_revision e' \<le> n \<and> entry_time e' \<le> now"
  proof cases
    case 1
    then show ?thesis using assms(6-9) by simp
  next
    case 2
    then show ?thesis using assms(3-5) by (fastforce simp: entries_ok_def)
  qed
  then show "k = entry_id e'" "entry_ok E (view_project_id (put_entry E i e n now s)) e'"
    "entry_project_revision e' \<le> view_revision (put_entry E i e n now s)" "entry_time e' \<le> now" by simp_all
qed

text \<open>When all elements but one pass a check, the loop answers what the check answers for that one.\<close>

lemma for_each_Err: "f v = Err err \<Longrightarrow> for_each f (xs @ v # ys) = (case for_each f xs of Ok _ \<Rightarrow> Err err | Err e \<Rightarrow> Err e)"
  by (induction xs) (auto simp: then_r_def split: result.splits)

lemma for_each_one:
  assumes mem: "v \<in> set xs" and others: "\<And>x. x \<in> set xs \<Longrightarrow> x \<noteq> v \<Longrightarrow> f x = Ok ()"
  shows "for_each f xs = f v"
proof (cases "f v")
  case (Ok u)
  have "\<forall>x\<in>set xs. f x = Ok ()"
  proof
    fix x assume "x \<in> set xs"
    then show "f x = Ok ()" using others Ok by (cases "x = v") auto
  qed
  then have "for_each f xs = Ok ()" by (simp only: for_each_Ok_iff)
  then show ?thesis using Ok by simp
next
  case (Err err)
  obtain ys zs where xs: "xs = ys @ v # zs" "v \<notin> set ys" using split_list_first [OF mem] by blast
  have "\<forall>x\<in>set ys. f x = Ok ()" using others xs by auto
  then have "for_each f ys = Ok ()" by (simp only: for_each_Ok_iff)
  then show ?thesis using for_each_Err [of f v err ys zs] Err xs(1) by simp
qed


section \<open>The operations\<close>

lemma view_next_revision_Ok [result_inv]:
  "view_next_revision n = Ok m \<longleftrightarrow> n < MAX_SAFE_REVISION \<and> m = n + 1"
proof -
  have "view_next_revision n = Ok m \<longleftrightarrow> checked_succ n = Some m"
    by (auto simp: view_next_revision_def checked_succ_def result_inv not_less)
  also have "\<dots> \<longleftrightarrow> unat n < 9007199254740991 \<and> m = n + 1"
    by (auto simp: checked_succ_Some_iff word_unat_eq_iff unat_succ_safe)
  finally show ?thesis by (simp add: word_less_nat_alt)
qed

lemma one_le_MAX_SAFE [simp]: "1 \<le> MAX_SAFE_REVISION" by (simp add: le_MAX_SAFE_iff)

lemma next_revision_bounds:
  assumes "view_next_revision k = Ok n"
  shows "k \<le> n" "n \<le> MAX_SAFE_REVISION" "0 < n" "unat n = unat k + 1"
proof -
  have k: "unat k < 9007199254740991" "n = k + 1" using assms by (simp_all add: view_next_revision_Ok word_less_nat_alt)
  then show "unat n = unat k + 1" using unat_succ_safe by simp
  then show "k \<le> n" "n \<le> MAX_SAFE_REVISION" "0 < n" using k(1) by (simp_all add: word_le_nat_alt word_less_nat_alt)
qed

lemma new_active_simps [simp]:
  "obj_id (new_active i d r n actor now) = i" "obj_type (new_active i d r n actor now) = data_type d"
  "obj_revision (new_active i d r n actor now) = 1" "obj_project_revision (new_active i d r n actor now) = n"
  "obj_created_at (new_active i d r n actor now) = now" "obj_updated_at (new_active i d r n actor now) = now"
  "obj_created_by (new_active i d r n actor now) = actor" "obj_updated_by (new_active i d r n actor now) = actor"
  "obj_data (new_active i d r n actor now) = d" "obj_relations (new_active i d r n actor now) = r"
  by (simp_all add: new_active_def)

lemma single_Ok [result_inv]: "single r = Ok (changed, s) \<longleftrightarrow> (\<exists>e. r = Ok (e, s) \<and> changed = [e])"
  by (cases r) (auto simp: single_def)

lemma current_object_Ok [result_inv]:
  "current_object s i ty = Ok v \<longleftrightarrow> entry_at s i = Some (ActiveObject v) \<and> obj_type v = ty"
  by (auto simp: current_object_def split: option.split view_entry.split)

lemma insert_new_Ok [result_inv]:
  "insert_new E e s = Ok s' \<longleftrightarrow> entry_at s (entry_id e) = None
     \<and> s' = s\<lparr>view_entries := om_insert (uuid_cmp (ids E)) (entry_id e) e (view_entries s)\<rparr>"
  by (auto simp: insert_new_def)

lemma apply_create_Ok:
  "apply_create E new actor now s = Ok (e, s') \<longleftrightarrow>
     (\<exists>i d r n. into_parts new = (i, d, r) \<and> view_next_revision (view_revision s) = Ok n
        \<and> validate_client_object_id E (view_project_id s) i = Ok () \<and> entry_at s i = None \<and> validate_data E d = Ok ()
        \<and> e = ActiveObject (new_active i d r n actor now) \<and> s' = put_entry E i e n now s)"
proof -
  obtain i d r where parts: "into_parts new = (i, d, r)" by (cases "into_parts new") auto
  show ?thesis
    by (auto simp: apply_create_def parts result_inv Let_def put_entry_def split: if_splits)
qed

lemma apply_update_Ok:
  "apply_update E u actor now s = Ok (e, s') \<longleftrightarrow>
     (\<exists>v w n m. entry_at s (update_object_id u) = Some (ActiveObject v) \<and> obj_type v = update_object_type u
        \<and> apply_typed_patch v u = Ok w \<and> \<not> (obj_data w = obj_data v \<and> obj_relations w = obj_relations v)
        \<and> validate_data E (obj_data w) = Ok () \<and> view_next_revision (view_revision s) = Ok n
        \<and> view_next_revision (obj_revision v) = Ok m
        \<and> e = ActiveObject (w\<lparr>obj_revision := m, obj_project_revision := n, obj_updated_at := now, obj_updated_by := actor\<rparr>)
        \<and> s' = put_entry E (update_object_id u) e n now s)"
  by (auto simp: apply_update_def result_inv Let_def split: if_splits)

lemma apply_delete_Ok:
  "apply_delete E d actor now s = Ok (e, s') \<longleftrightarrow>
     (\<exists>v n m. entry_at s (del_object_id d) = Some (ActiveObject v) \<and> obj_type v = del_object_type d
        \<and> obj_type v \<noteq> ProjectProfile \<and> \<not> (obj_type v = Goal \<and> count_type Goal s = 1)
        \<and> first_incoming_relation s (obj_id v) = None \<and> view_next_revision (view_revision s) = Ok n
        \<and> view_next_revision (obj_revision v) = Ok m
        \<and> e = Tombstone \<lparr>tomb_id = obj_id v, tomb_type = obj_type v, tomb_revision = m, tomb_project_revision = n,
               tomb_created_at = obj_created_at v, tomb_deleted_at = now, tomb_created_by = obj_created_by v,
               tomb_deleted_by = actor\<rparr>
        \<and> s' = put_entry E (obj_id v) e n now s)"
  by (auto simp: apply_delete_def result_inv Let_def split: if_splits option.splits)

lemma into_parts_shape:
  assumes "into_parts new = (i, d, r)"
  shows "data_type d \<noteq> ProjectProfile" and "shape_ok (data_type d) r"
  using assms by (cases new; auto simp: shape_ok_def no_relations_def)+

lemma patch_data_Ok:
  assumes "patch_data u d r = Some (Ok (d', r'))"
  shows "data_type d' = data_type d" and "update_object_type u = data_type d"
    and "shape_ok (data_type d) r \<Longrightarrow> shape_ok (data_type d) r'"
proof -
  have opt: "apply_required_relation x p n = Ok y \<Longrightarrow> x \<noteq> None \<Longrightarrow> y \<noteq> None" for x :: "'a option" and p n y
    by (auto simp: apply_required_relation_def split: patch.splits)
  show "data_type d' = data_type d" "update_object_type u = data_type d"
    using assms by (cases u; auto simp: result_inv split: object_data.splits)+
  assume "shape_ok (data_type d) r"
  then show "shape_ok (data_type d) r'"
    using assms by (cases u; auto simp: result_inv shape_ok_def split: object_data.splits dest!: opt)
qed

lemma apply_typed_patch_Ok:
  assumes "apply_typed_patch v u = Ok w"
  obtains d r where "w = v\<lparr>obj_data := d, obj_relations := r\<rparr>" "data_type d = data_type (obj_data v)"
    "shape_ok (data_type (obj_data v)) (obj_relations v) \<Longrightarrow> shape_ok (data_type (obj_data v)) r"
proof -
  obtain d r where "patch_data u (obj_data v) (obj_relations v) = Some (Ok (d, r))" "w = v\<lparr>obj_data := d, obj_relations := r\<rparr>"
    using assms by (auto simp: apply_typed_patch_def result_inv split: option.splits)
  then show thesis using patch_data_Ok that by metis
qed


section \<open>One changed entry\<close>

definition check_changed :: "view_state \<Rightarrow> view_entry \<Rightarrow> unit domain_result" where
  "check_changed s e = (case e of ActiveObject v \<Rightarrow> validate_relation_targets s v | Tombstone _ \<Rightarrow> Ok ())"

lemma resolves_types: "resolves types i r \<Longrightarrow> j \<in> references r \<Longrightarrow> types j \<noteq> None"
  by (auto simp: resolves_def references_def)

text \<open>
  If the changed entry is itself well-formed, the counters still hold and the other
  objects still resolve, then validating the whole state comes down to the relation
  targets of the changed entry.
\<close>

lemma validate_put:
  fixes E s i e n now
  defines "s' \<equiv> put_entry E i e n now s"
  assumes U: "uuid_bytes_ok (ids E)" and ord: "ordered E s" and init: "initialized_ok E s"
    and clock: "view_updated_at s = Some u" "u \<le> now" and n: "view_revision s \<le> n" "n \<le> MAX_SAFE_REVISION"
    and e: "i = entry_id e" "entry_ok E (view_project_id s) e" "entry_project_revision e = n" "entry_time e \<le> now"
    and counts: "count_type ProjectProfile s' = 1" "count_type Goal s' \<noteq> 0"
    and others: "\<And>k v. k \<noteq> i \<Longrightarrow> entry_at s k = Some (ActiveObject v) \<Longrightarrow> resolves (active_type s') (obj_id v) (obj_relations v)"
  shows "validate_state E s' = check_changed s' e"
proof -
  obtain t where t: "view_initialized_at s = Some t" "t \<le> u" and old: "entries_ok E s u" and pos: "0 < view_revision s"
    using init clock(1) by (auto simp: initialized_ok_def)
  have ord': "ordered E s'" unfolding s'_def by (rule ordered_put [OF U ord])
  have at: "entry_at s' = (entry_at s)(i \<mapsto> e)" unfolding s'_def by (rule entry_at_put [OF U ord])
  have "entries_ok E s' now" unfolding s'_def using entries_ok_put [OF U ord old clock(2) n(1) e(1-4)] .
  then have loop: "for_each (validate_entry E s' now) (view_entries s') = Ok ()" by (simp add: entries_ok_iff)
  have head: "view_updated_at s' = Some now" "view_initialized_at s' = Some t" "view_revision s' = n" "t \<le> now" "n \<noteq> 0"
    using t clock n pos by (auto simp: s'_def)
  have targets: "for_each (validate_relation_targets s') (active_objects s') = check_changed s' e"
  proof (cases e)
    case (ActiveObject v)
    have "v \<in> set (active_objects s')" using at ActiveObject by (auto simp: set_active_objects [OF U ord'])
    moreover have "validate_relation_targets s' w = Ok ()" if w: "w \<in> set (active_objects s')" "w \<noteq> v" for w
    proof -
      obtain k where "entry_at s' k = Some (ActiveObject w)" using w(1) by (auto simp: set_active_objects [OF U ord'])
      then have "k \<noteq> i" "entry_at s k = Some (ActiveObject w)" using at ActiveObject w(2) by (auto split: if_splits)
      then show ?thesis using others by (simp add: validate_relation_targets_Ok)
    qed
    ultimately have "for_each (validate_relation_targets s') (active_objects s') = validate_relation_targets s' v"
      by (rule for_each_one)
    then show ?thesis using ActiveObject by (simp add: check_changed_def)
  next
    case (Tombstone d)
    have "validate_relation_targets s' w = Ok ()" if w: "w \<in> set (active_objects s')" for w
    proof -
      obtain k where "entry_at s' k = Some (ActiveObject w)" using w by (auto simp: set_active_objects [OF U ord'])
      then have "k \<noteq> i" "entry_at s k = Some (ActiveObject w)" using at Tombstone by (auto split: if_splits)
      then show ?thesis using others by (simp add: validate_relation_targets_Ok)
    qed
    then show ?thesis using Tombstone by (simp add: check_changed_def for_each_Ok_iff)
  qed
  have "validate_view_revision (view_revision s') = Ok ()" using head(3) n(2) by (simp add: validate_view_revision_Ok)
  then show ?thesis
    unfolding validate_state_def is_initialized_def using head loop counts targets by simp
qed

lemma initialized_types:
  assumes "uuid_bytes_ok (ids E)" "ordered E s" "initialized_ok E s" "entry_at s k = Some (ActiveObject v)"
  shows "obj_id v = k" "object_ok E (view_project_id s) v" "resolves (active_type s) k (obj_relations v)"
    "obj_project_revision v \<le> view_revision s" "\<exists>u. view_updated_at s = Some u \<and> obj_updated_at v \<le> u"
proof -
  obtain u where u: "view_updated_at s = Some u" "entries_ok E s u" using assms(3) by (auto simp: initialized_ok_def)
  have "(k, ActiveObject v) \<in> set (view_entries s)" using assms(4) entry_at_mem [OF assms(1,2)] by simp
  then have e: "k = obj_id v \<and> object_ok E (view_project_id s) v \<and> obj_project_revision v \<le> view_revision s \<and> obj_updated_at v \<le> u"
    using u(2) by (fastforce simp: entries_ok_def)
  then show "obj_id v = k" "object_ok E (view_project_id s) v" "obj_project_revision v \<le> view_revision s"
    "\<exists>u. view_updated_at s = Some u \<and> obj_updated_at v \<le> u" using u(1) by auto
  have "v \<in> set (active_objects s)" using assms(4) by (auto simp: set_active_objects [OF assms(1,2)])
  then show "resolves (active_type s) k (obj_relations v)" using assms(3) e by (auto simp: initialized_ok_def)
qed

lemma create_validates:
  assumes U: "uuid_bytes_ok (ids E)" and ord: "ordered E s" and init: "initialized_ok E s"
    and clock: "view_updated_at s = Some u" "u \<le> now" and ok: "apply_create E new actor now s = Ok (e, s')"
  shows "validate_state E s' = check_changed s' e"
proof -
  obtain i d r n where new: "into_parts new = (i, d, r)" and n: "view_next_revision (view_revision s) = Ok n"
    and i: "validate_client_object_id E (view_project_id s) i = Ok ()" and fresh: "entry_at s i = None"
    and d: "validate_data E d = Ok ()" and e: "e = ActiveObject (new_active i d r n actor now)"
    and s': "s' = put_entry E i e n now s"
    using ok unfolding apply_create_Ok by blast
  note shape = into_parts_shape [OF new]
  note n' = next_revision_bounds [OF n]
  have types: "active_type s' = (active_type s)(i := Some (data_type d))"
    unfolding s' active_type_put [OF U ord] by (simp add: e)
  have none: "active_type s i = None" using fresh by (simp add: active_type_def)
  have sets: "{k. active_type s' k = Some ty} = (if ty = data_type d then insert i {k. active_type s k = Some ty} else {k. active_type s k = Some ty})" for ty
    using none by (auto simp: types)
  have ord': "ordered E s'" unfolding s' by (rule ordered_put [OF U ord])
  have "count_type ProjectProfile s' = count_type ProjectProfile s"
    unfolding count_type_card [OF U ord] count_type_card [OF U ord'] sets using shape(1) by auto
  then have profile: "count_type ProjectProfile s' = 1" using init by (simp add: initialized_ok_def)
  have "count_type Goal s \<le> count_type Goal s'"
    unfolding count_type_card [OF U ord] count_type_card [OF U ord'] sets
    by (auto intro: card_mono finite_active_type)
  then have goals: "count_type Goal s' \<noteq> 0" using init by (simp add: initialized_ok_def)
  have others: "resolves (active_type s') (obj_id v) (obj_relations v)" if "entry_at s k = Some (ActiveObject v)" for k v
  proof -
    have old: "resolves (active_type s) (obj_id v) (obj_relations v)" using initialized_types [OF U ord init that] by simp
    moreover have "active_type s' j = active_type s j" if "j \<in> references (obj_relations v)" for j
      using resolves_types [OF old that] none by (auto simp: types)
    ultimately show ?thesis by (rule resolves_cong)
  qed
  show ?thesis unfolding s'
  proof (rule validate_put [OF U ord init clock n'(1,2)])
    show "i = entry_id e" "entry_project_revision e = n" "entry_time e \<le> now" by (simp_all add: e)
    show "entry_ok E (view_project_id s) e"
      using n' i d shape by (simp add: e object_ok_def validate_client_object_id_Ok)
  qed (use profile goals others in \<open>simp_all add: s'\<close>)
qed

lemma update_validates:
  assumes U: "uuid_bytes_ok (ids E)" and ord: "ordered E s" and init: "initialized_ok E s"
    and clock: "view_updated_at s = Some t" "t \<le> now" and ok: "apply_update E u actor now s = Ok (e, s')"
  shows "validate_state E s' = check_changed s' e"
proof -
  let ?i = "update_object_id u"
  obtain v w n m where v: "entry_at s ?i = Some (ActiveObject v)" and w: "apply_typed_patch v u = Ok w"
    and d: "validate_data E (obj_data w) = Ok ()" and n: "view_next_revision (view_revision s) = Ok n"
    and m: "view_next_revision (obj_revision v) = Ok m"
    and e: "e = ActiveObject (w\<lparr>obj_revision := m, obj_project_revision := n, obj_updated_at := now, obj_updated_by := actor\<rparr>)"
    and s': "s' = put_entry E ?i e n now s"
    using ok unfolding apply_update_Ok by blast
  note n' = next_revision_bounds [OF n] and m' = next_revision_bounds [OF m] and v' = initialized_types [OF U ord init v]
  obtain d' r' where w': "w = v\<lparr>obj_data := d', obj_relations := r'\<rparr>" "data_type d' = data_type (obj_data v)"
    "shape_ok (data_type (obj_data v)) (obj_relations v) \<Longrightarrow> shape_ok (data_type (obj_data v)) r'"
    using apply_typed_patch_Ok [OF w] by blast
  have types: "active_type s' = active_type s"
    unfolding s' active_type_put [OF U ord] using v by (auto simp: e w' active_type_def fun_eq_iff)
  have ord': "ordered E s'" unfolding s' by (rule ordered_put [OF U ord])
  have count: "count_type ty s' = count_type ty s" for ty
    unfolding count_type_card [OF U ord] count_type_card [OF U ord'] types ..
  have "obj_created_at v \<le> now" using v'(2,5) clock by (auto simp: object_ok_def)
  then have eok: "entry_ok E (view_project_id s) e"
    using v'(2) d n' m' w' by (auto simp: e object_ok_def)
  show ?thesis unfolding s'
  proof (rule validate_put [OF U ord init clock n'(1,2)])
    show "?i = entry_id e" "entry_project_revision e = n" "entry_time e \<le> now" using v'(1) by (simp_all add: e w')
    show "count_type ProjectProfile (put_entry E ?i e n now s) = 1" "count_type Goal (put_entry E ?i e n now s) \<noteq> 0"
      using init count unfolding s' by (simp_all add: initialized_ok_def)
    fix k x assume "entry_at s k = Some (ActiveObject x)"
    then show "resolves (active_type (put_entry E ?i e n now s)) (obj_id x) (obj_relations x)"
      using initialized_types [OF U ord init] types unfolding s' by simp
  qed (rule eok)
qed

lemma delete_validates:
  assumes U: "uuid_bytes_ok (ids E)" and ord: "ordered E s" and init: "initialized_ok E s"
    and clock: "view_updated_at s = Some t" "t \<le> now" and ok: "apply_delete E d actor now s = Ok (e, s')"
  shows "validate_state E s' = check_changed s' e"
proof -
  obtain v n m where v: "entry_at s (del_object_id d) = Some (ActiveObject v)"
    and kinds: "obj_type v \<noteq> ProjectProfile" "\<not> (obj_type v = Goal \<and> count_type Goal s = 1)"
    and free: "first_incoming_relation s (obj_id v) = None" and n: "view_next_revision (view_revision s) = Ok n"
    and m: "view_next_revision (obj_revision v) = Ok m"
    and e: "e = Tombstone \<lparr>tomb_id = obj_id v, tomb_type = obj_type v, tomb_revision = m, tomb_project_revision = n,
               tomb_created_at = obj_created_at v, tomb_deleted_at = now, tomb_created_by = obj_created_by v,
               tomb_deleted_by = actor\<rparr>"
    and s': "s' = put_entry E (obj_id v) e n now s"
    using ok unfolding apply_delete_Ok by blast
  let ?i = "obj_id v"
  note n' = next_revision_bounds [OF n] and m' = next_revision_bounds [OF m] and v' = initialized_types [OF U ord init v]
  have types: "active_type s' = (active_type s)(?i := None)" unfolding s' active_type_put [OF U ord] by (simp add: e)
  have ty: "active_type s ?i = Some (obj_type v)" using v v'(1) by (simp add: active_type_def)
  have sets: "{k. active_type s' k = Some ty} = {k. active_type s k = Some ty} - {?i}" for ty by (auto simp: types)
  have ord': "ordered E s'" unfolding s' by (rule ordered_put [OF U ord])
  have "{k. active_type s k = Some ProjectProfile} - {?i} = {k. active_type s k = Some ProjectProfile}"
    using ty kinds(1) by auto
  then have profile: "count_type ProjectProfile s' = 1"
    using init unfolding initialized_ok_def count_type_card [OF U ord] count_type_card [OF U ord'] sets by simp
  have goals: "count_type Goal s' \<noteq> 0"
  proof (cases "obj_type v = Goal")
    case True
    then have "card {k. active_type s k = Some Goal} = Suc (card ({k. active_type s k = Some Goal} - {?i}))"
      using ty by (intro card.remove [OF finite_active_type]) simp
    then show ?thesis using kinds(2) True init
      unfolding initialized_ok_def count_type_card [OF U ord] count_type_card [OF U ord'] sets by simp
  next
    case False
    then have "{k. active_type s k = Some Goal} - {?i} = {k. active_type s k = Some Goal}" using ty by auto
    then show ?thesis using init
      unfolding initialized_ok_def count_type_card [OF U ord] count_type_card [OF U ord'] sets by simp
  qed
  have others: "resolves (active_type s') (obj_id x) (obj_relations x)" if x: "entry_at s k = Some (ActiveObject x)" for k x
  proof (rule resolves_cong)
    show "resolves (active_type s) (obj_id x) (obj_relations x)" using initialized_types [OF U ord init x] by simp
    have "x \<in> set (active_objects s)" using x by (auto simp: set_active_objects [OF U ord])
    then have "?i \<notin> references (obj_relations x)"
      using free by (simp add: first_incoming_relation_def incoming_relation_None)
    then show "\<And>j. j \<in> references (obj_relations x) \<Longrightarrow> active_type s' j = active_type s j" by (auto simp: types)
  qed
  have "obj_created_at v \<le> now" using v'(2,5) clock by (auto simp: object_ok_def)
  then have eok: "entry_ok E (view_project_id s) e"
    using v'(2) n' m' kinds(1) by (auto simp: e object_ok_def tombstone_ok_def)
  show ?thesis unfolding s'
  proof (rule validate_put [OF U ord init clock n'(1,2)])
    show "?i = entry_id e" "entry_project_revision e = n" "entry_time e \<le> now" by (simp_all add: e)
  qed (use profile goals others eok in \<open>simp_all add: s'\<close>)
qed


section \<open>Initialization\<close>

definition keyed :: "view_entry list \<Rightarrow> (uuid \<times> view_entry) list" where
  "keyed es = map (\<lambda>e. (entry_id e, e)) es"

lemma keyed_simps [simp]: "keyed [] = []" "keyed (e # es) = (entry_id e, e) # keyed es" "map fst (keyed es) = map entry_id es"
  "set (keyed es) = (\<lambda>e. (entry_id e, e)) ` set es"
  by (simp_all add: keyed_def comp_def)

lemma insert_new_entries:
  assumes "uuid_bytes_ok (ids E)" "ordered E s" "insert_new E e s = Ok s'"
  shows "ordered E s'" "entry_at s' = (entry_at s)(entry_id e \<mapsto> e)" "entry_at s (entry_id e) = None"
    "view_project_id s' = view_project_id s"
  using assms by (auto simp: insert_new_Ok entry_at_def [abs_def] fun_eq_iff total_comparison.om_ok_insert [OF uuid_total]
      total_comparison.map_of_om_insert [OF uuid_total])

lemma override_keyed_Cons:
  assumes "entry_id e \<notin> entry_id ` set es"
  shows "m(entry_id e \<mapsto> e) ++ map_of (keyed es) = m ++ map_of (keyed (e # es))"
proof -
  have "map_of (keyed es) (entry_id e) = None" using assms by (auto simp: map_of_eq_None_iff image_iff)
  then show ?thesis by (auto simp: fun_eq_iff map_add_def split: option.split)
qed

lemma insert_goals_entries:
  assumes "uuid_bytes_ok (ids E)" "ordered E s" "insert_goals E n actor now gs s = Ok (changed, s')"
  shows "ordered E s' \<and> entry_at s' = entry_at s ++ map_of (keyed changed) \<and> distinct (map entry_id changed)
    \<and> (\<forall>e\<in>set changed. entry_at s (entry_id e) = None)"
  using assms(2,3)
proof (induction gs arbitrary: s changed)
  case (Cons g gs)
  let ?e = "ActiveObject (new_active (ig_id g) (GoalData (into_goal g)) no_relations n actor now)"
  obtain s1 rest where s1: "insert_new E ?e s = Ok s1" and rest: "insert_goals E n actor now gs s1 = Ok (rest, s')"
    and changed: "changed = ?e # rest"
    using Cons.prems(2) by (auto simp: result_inv Let_def simp del: insert_new_Ok)
  note a = insert_new_entries [OF assms(1) Cons.prems(1) s1]
  have b: "ordered E s'" "entry_at s' = entry_at s1 ++ map_of (keyed rest)" "distinct (map entry_id rest)"
    "\<And>e. e \<in> set rest \<Longrightarrow> entry_at s1 (entry_id e) = None"
    using Cons.IH [OF a(1) rest] by auto
  have new: "entry_id e \<noteq> ig_id g" "entry_at s (entry_id e) = None" if "e \<in> set rest" for e
    using b(4) [OF that] a(2) by (auto split: if_splits)
  then have fresh: "entry_id ?e \<notin> entry_id ` set rest" by (metis (no_types, lifting) entry_id.simps(1) imageE new_active_simps(1))
  have "entry_at s' = entry_at s ++ map_of (keyed changed)"
    unfolding b(2) a(2) changed by (rule override_keyed_Cons [OF fresh])
  moreover have "distinct (map entry_id changed)" using fresh b(3) by (simp add: changed)
  moreover have "\<forall>e\<in>set changed. entry_at s (entry_id e) = None" using new(2) a(3) by (auto simp: changed)
  ultimately show ?case using b(1) by blast
qed (auto simp: fun_eq_iff)

lemma insert_goals_ok:
  assumes "insert_goals E n actor now gs s = Ok (changed, s')"
  shows "view_project_id s' = view_project_id s
    \<and> list_all2 (\<lambda>g e. \<exists>v. e = ActiveObject v \<and> v = new_active (ig_id g) (GoalData (into_goal g)) no_relations n actor now
        \<and> validate_client_object_id E (view_project_id s) (ig_id g) = Ok () \<and> validate_data E (obj_data v) = Ok ()) gs changed"
  using assms
proof (induction gs arbitrary: s changed)
  case (Cons g gs)
  then show ?case by (fastforce simp: result_inv Let_def)
qed simp


text \<open>The answer of an operation: what it says it changed is what it changed.\<close>

definition framed :: "view_env \<Rightarrow> view_state \<Rightarrow> timestamp \<Rightarrow> view_entry list \<Rightarrow> view_state \<Rightarrow> bool" where
  "framed E s now changed s' \<longleftrightarrow> ordered E s' \<and> distinct (map entry_id changed)
     \<and> entry_at s' = entry_at s ++ map_of (keyed changed) \<and> view_project_id s' = view_project_id s
     \<and> view_next_revision (view_revision s) = Ok (view_revision s') \<and> view_updated_at s' = Some now
     \<and> (\<forall>e\<in>set changed. entry_project_revision e = view_revision s')"

lemma keyed_cong:
  assumes "distinct (map entry_id xs)" "set ys = set xs" "length ys = length xs"
  shows "map_of (keyed ys) = map_of (keyed xs)" "distinct (map entry_id ys)"
proof -
  have "card (set (map entry_id ys)) = length (map entry_id ys)"
    using assms distinct_card [OF assms(1)] by (simp only: set_map length_map)
  then show ys: "distinct (map entry_id ys)" by (rule card_distinct)
  show "map_of (keyed ys) = map_of (keyed xs)"
    using assms ys by (subst map_of_inject_set) simp_all
qed

lemma entry_comparison: "comparison (\<lambda>a b. uuid_cmp U (entry_id a) (entry_id b))"
  using comparison_key [of "\<lambda>e. as_bytes U (entry_id e)"] by (simp add: uuid_cmp_def)

interpretation entry_order: comparison "\<lambda>a b. uuid_cmp U (entry_id a) (entry_id b)" for U
  by (rule entry_comparison)

lemma initialize_framed:
  assumes "uuid_bytes_ok (ids E)" "ordered E s" "apply_initialize E m actor now s = Ok (changed, s')"
  shows "framed E s now changed s' \<and> view_initialized_at s' = Some now"
    and "init_goals m \<noteq> []" and "\<forall>e\<in>set changed. entry_at s (entry_id e) = None"
    and "\<exists>goals. set changed = insert (ActiveObject (new_active (view_project_id s) (ProfileData (init_profile m)) no_relations
           (view_revision s') actor now)) (set goals)
        \<and> validate_data E (ProfileData (init_profile m)) = Ok ()
        \<and> list_all2 (\<lambda>g e. \<exists>v. e = ActiveObject v \<and> v = new_active (ig_id g) (GoalData (into_goal g)) no_relations (view_revision s') actor now
        \<and> validate_client_object_id E (view_project_id s) (ig_id g) = Ok () \<and> validate_data E (obj_data v) = Ok ()) (init_goals m) goals"
proof -
  let ?p = "\<lambda>n. ActiveObject (new_active (view_project_id s) (ProfileData (init_profile m)) no_relations n actor now)"
  obtain n s1 s2 goals where n: "view_next_revision (view_revision s) = Ok n"
    and d: "validate_data E (ProfileData (init_profile m)) = Ok ()"
    and s1: "insert_new E (?p n) s = Ok s1" and s2: "insert_goals E n actor now (init_goals m) s1 = Ok (goals, s2)"
    and changed: "changed = sort_by (\<lambda>a b. uuid_cmp (ids E) (entry_id a) (entry_id b)) (?p n # goals)"
    and s': "s' = s2\<lparr>view_revision := n, view_initialized_at := Some now, view_updated_at := Some now\<rparr>"
    and ne: "init_goals m \<noteq> []"
    using assms(3) by (auto simp: apply_initialize_def result_inv Let_def split: if_splits simp del: insert_new_Ok)
  note a = insert_new_entries [OF assms(1,2) s1]
  have b: "ordered E s2" "entry_at s2 = entry_at s1 ++ map_of (keyed goals)" "distinct (map entry_id goals)"
    "\<And>e. e \<in> set goals \<Longrightarrow> entry_at s1 (entry_id e) = None"
    using insert_goals_entries [OF assms(1) a(1) s2] by auto
  have id: "view_project_id s1 = view_project_id s" "view_project_id s2 = view_project_id s1"
    using a(4) insert_goals_ok [OF s2] by simp_all
  have new: "entry_id e \<noteq> view_project_id s" "entry_at s (entry_id e) = None" if "e \<in> set goals" for e
    using b(4) [OF that] a(2) by (auto split: if_splits)
  then have fresh: "entry_id (?p n) \<notin> entry_id ` set goals" by (metis (no_types, lifting) entry_id.simps(1) imageE new_active_simps(1))
  then have dist: "distinct (map entry_id (?p n # goals))" using b(3) by simp
  note sorted = keyed_cong [OF dist entry_order.set_sort_by [of "ids E"] entry_order.length_sort_by, folded changed]
  have "entry_at s' = entry_at s2" by (simp add: s' entry_at_def fun_eq_iff)
  also have "\<dots> = entry_at s ++ map_of (keyed (?p n # goals))"
    unfolding b(2) a(2) by (rule override_keyed_Cons [OF fresh])
  finally have at: "entry_at s' = entry_at s ++ map_of (keyed changed)" unfolding sorted(1) .
  have set: "set changed = insert (?p n) (set goals)" unfolding changed entry_order.set_sort_by by simp
  have goals: "list_all2 (\<lambda>g e. \<exists>v. e = ActiveObject v \<and> v = new_active (ig_id g) (GoalData (into_goal g)) no_relations n actor now
        \<and> validate_client_object_id E (view_project_id s) (ig_id g) = Ok () \<and> validate_data E (obj_data v) = Ok ()) (init_goals m) goals"
    using insert_goals_ok [OF s2] id by simp
  have "\<forall>e\<in>set goals. entry_project_revision e = n"
    using goals by (fastforce simp: list_all2_conv_all_nth in_set_conv_nth)
  then show "framed E s now changed s' \<and> view_initialized_at s' = Some now"
    using b(1) sorted(2) at id n unfolding framed_def by (simp add: s' set)
  show "init_goals m \<noteq> []" by (rule ne)
  show "\<forall>e\<in>set changed. entry_at s (entry_id e) = None" using new(2) a(3) by (auto simp: set)
  show "\<exists>goals. set changed = insert (?p (view_revision s')) (set goals)
        \<and> validate_data E (ProfileData (init_profile m)) = Ok ()
        \<and> list_all2 (\<lambda>g e. \<exists>v. e = ActiveObject v \<and> v = new_active (ig_id g) (GoalData (into_goal g)) no_relations (view_revision s') actor now
        \<and> validate_client_object_id E (view_project_id s) (ig_id g) = Ok () \<and> validate_data E (obj_data v) = Ok ()) (init_goals m) goals"
    using set d goals by (intro exI [of _ goals]) (simp add: s')
qed

text \<open>A state that holds nothing but new objects without relations.\<close>

lemma initialize_validates:
  assumes U: "uuid_bytes_ok (ids E)" and blank: "blank s" and ok: "apply_initialize E m actor now s = Ok (changed, s')"
  shows "initialized_ok E s'"
proof -
  have ord: "ordered E s" and none: "entry_at s = Map.empty" using blank by (auto simp: blank_def entry_at_def)
  let ?p = "new_active (view_project_id s) (ProfileData (init_profile m)) no_relations (view_revision s') actor now"
  let ?g = "\<lambda>g. new_active (ig_id g) (GoalData (into_goal g)) no_relations (view_revision s') actor now"
  note init = initialize_framed [OF U ord ok]
  have frame: "ordered E s'" "distinct (map entry_id changed)" "entry_at s' = map_of (keyed changed)"
    "view_project_id s' = view_project_id s" "view_next_revision (view_revision s) = Ok (view_revision s')"
    "view_updated_at s' = Some now" "view_initialized_at s' = Some now"
    using init(1) none by (auto simp: framed_def)
  obtain goals where set: "set changed = insert (ActiveObject ?p) (set goals)"
    and d: "validate_data E (ProfileData (init_profile m)) = Ok ()"
    and gs: "list_all2 (\<lambda>g e. \<exists>v. e = ActiveObject v \<and> v = ?g g
        \<and> validate_client_object_id E (view_project_id s) (ig_id g) = Ok () \<and> validate_data E (obj_data v) = Ok ()) (init_goals m) goals"
    using init(4) by blast
  have goal: "\<exists>g. e = ActiveObject (?g g) \<and> validate_client_object_id E (view_project_id s) (ig_id g) = Ok ()
      \<and> validate_data E (GoalData (into_goal g)) = Ok ()" if "e \<in> set goals" for e
    using gs that by (fastforce simp: list_all2_conv_all_nth in_set_conv_nth)
  obtain g gs' where "init_goals m = g # gs'" using init(2) by (cases "init_goals m") auto
  then have g: "ActiveObject (?g g) \<in> set goals" using gs by (auto simp: list_all2_Cons1)
  note n = next_revision_bounds [OF frame(5)]
  have mem: "entry_at s' k = Some e \<longleftrightarrow> k = entry_id e \<and> e \<in> set changed" for k e
    using frame(2) unfolding frame(3) by (subst map_of_eq_Some_iff) auto
  have ok: "entry_ok E (view_project_id s) e \<and> entry_project_revision e = view_revision s' \<and> entry_time e = now"
    if "e \<in> set changed" for e
    using that goal [of e] d n unfolding set by (auto simp: object_ok_def shape_ok_def no_relations_def)
  have entries: "entries_ok E s' now" unfolding entries_ok_def
    using ok frame(4) by (auto simp: entry_at_mem [OF U frame(1)] mem)
  have types: "active_type s' k = Some ty \<longleftrightarrow> (\<exists>v. k = obj_id v \<and> obj_type v = ty \<and> ActiveObject v \<in> set changed)" for k ty
    by (auto simp: active_type_Some mem)
  have "obj_type v = Goal" if "ActiveObject v \<in> set goals" for v using goal [OF that] by auto
  then have "active_type s' k = Some ProjectProfile \<longleftrightarrow> k = view_project_id s" for k
    unfolding types set by (fastforce intro: exI [of _ ?p])
  then have profile: "count_type ProjectProfile s' = 1" by (simp add: count_type_card [OF U frame(1)])
  have "active_type s' (ig_id g) = Some Goal" unfolding types set using g by (intro exI [of _ "?g g"]) simp
  then have goals: "count_type Goal s' \<noteq> 0" using finite_active_type [of s' Goal] by (auto simp: count_type_card [OF U frame(1)])
  have "obj_relations v = no_relations" if "ActiveObject v \<in> set changed" for v
    using that goal [of "ActiveObject v"] unfolding set by auto
  then have "resolves (active_type s') (obj_id v) (obj_relations v)" if "v \<in> set (active_objects s')" for v
    using that by (auto simp: set_active_objects [OF U frame(1)] mem resolves_def no_relations_def)
  then show ?thesis using n frame entries profile goals by (simp add: initialized_ok_def)
qed


section \<open>Requests\<close>

lemma put_framed:
  assumes "uuid_bytes_ok (ids E)" "ordered E s" "view_next_revision (view_revision s) = Ok n"
    "i = entry_id e" "entry_project_revision e = n"
  shows "framed E s now [e] (put_entry E i e n now s)"
  using assms ordered_put [OF assms(1,2), of i e n now] entry_at_put [OF assms(1,2), of i e n now]
  by (simp add: framed_def)

lemma request_framed:
  assumes U: "uuid_bytes_ok (ids E)" and ord: "ordered E s" and keys: "\<And>k e. entry_at s k = Some e \<Longrightarrow> entry_id e = k"
    and ok: "apply_request E request actor now s = Ok (changed, s')"
  shows "framed E s now changed s'"
proof (cases request)
  case (InitializeView m)
  then show ?thesis using ok initialize_framed [OF U ord] by (simp add: apply_request_def)
next
  case (CreateObject new)
  then obtain e where "apply_create E new actor now s = Ok (e, s')" "changed = [e]"
    using ok by (auto simp: apply_request_def result_inv)
  then show ?thesis by (auto simp: apply_create_Ok intro!: put_framed [OF U ord])
next
  case (UpdateObject u)
  then obtain e where e: "apply_update E u actor now s = Ok (e, s')" "changed = [e]"
    using ok by (auto simp: apply_request_def result_inv)
  then obtain v w n m where v: "entry_at s (update_object_id u) = Some (ActiveObject v)" "apply_typed_patch v u = Ok w"
    and n: "view_next_revision (view_revision s) = Ok n"
    and e': "e = ActiveObject (w\<lparr>obj_revision := m, obj_project_revision := n, obj_updated_at := now, obj_updated_by := actor\<rparr>)"
      "s' = put_entry E (update_object_id u) e n now s"
    unfolding apply_update_Ok by blast
  have "obj_id w = obj_id v" using v(2) by (auto elim!: apply_typed_patch_Ok)
  then show ?thesis using put_framed [OF U ord n, of "update_object_id u" e] keys [OF v(1)] e e' by simp
next
  case (DeleteObject d)
  then obtain e where "apply_delete E d actor now s = Ok (e, s')" "changed = [e]"
    using ok by (auto simp: apply_request_def result_inv)
  then show ?thesis by (auto simp: apply_delete_Ok intro!: put_framed [OF U ord])
qed

end
