(* ===== verification/View_Projection.thy ===== *)
theory View_Projection
  imports View_Valid
begin

text \<open>
  The plans for relay-signed projections, from \<open>crates/buzz-project-view/src/projection.rs\<close>,
  and the facts about accepted mutations they rest on: an accepted mutation leaves a
  valid state in key order, and the entries it reports are what it changed.
\<close>

section \<open>Projection plans\<close>

record projection_plan =
  proj_project_id :: uuid
  proj_generation :: u64
  proj_project_revision :: u64
  proj_active_object_count :: u32
  proj_updated_at :: timestamp
  proj_source_event_id :: "bytes option"
  proj_reset :: bool
  proj_entries :: "view_entry list"

definition validate_generation :: "u64 \<Rightarrow> unit domain_result" where
  "validate_generation generation =
     (if generation = 0 \<or> generation > MAX_SAFE_REVISION then Err (RevisionOutOfRange generation MAX_SAFE_REVISION)
      else Ok ())"

definition new_plan ::
  "view_state \<Rightarrow> u64 \<Rightarrow> bytes option \<Rightarrow> bool \<Rightarrow> view_entry list \<Rightarrow> projection_plan domain_result" where
  "new_plan s generation source_event_id reset es =
     (let count = length (active_objects s) in
      if count \<ge> 2 ^ 32 then Err (InvalidFinalState ''active object count exceeds the supported range'')
      else bind_r (ok_or NotInitialized (view_updated_at s)) (\<lambda>updated_at.
        Ok \<lparr>proj_project_id = view_project_id s, proj_generation = generation,
            proj_project_revision = view_revision s, proj_active_object_count = word_of_nat count,
            proj_updated_at = updated_at, proj_source_event_id = source_event_id, proj_reset = reset,
            proj_entries = es\<rparr>))"

fun check_changed_entries :: "view_state \<Rightarrow> u64 \<Rightarrow> uuid set \<Rightarrow> view_entry list \<Rightarrow> unit domain_result" where
  "check_changed_entries s revision changed_ids [] = Ok ()"
| "check_changed_entries s revision changed_ids (e # es) =
     (if entry_id e \<in> changed_ids
      then Err (InvalidFinalState ''mutation projection contains a duplicate changed object'')
      else if entry_project_revision e \<noteq> revision \<or> entry_at s (entry_id e) \<noteq> Some e
      then Err (InvalidFinalState ''mutation projection entry does not match the canonical resulting state'')
      else check_changed_entries s revision (insert (entry_id e) changed_ids) es)"

definition for_mutation ::
  "view_env \<Rightarrow> view_state \<Rightarrow> mutation_outcome \<Rightarrow> bytes \<Rightarrow> u64 \<Rightarrow> projection_plan domain_result" where
  "for_mutation E s outcome source_event_id generation =
     then_r (validate_generation generation)
     (then_r (validate_state E s)
      (if \<not> is_initialized s then Err NotInitialized
       else if view_revision s \<noteq> out_project_revision outcome
       then Err (InvalidFinalState ''projection outcome revision differs from canonical state'')
       else if out_changed_entries outcome = []
       then Err (InvalidFinalState ''a mutation projection must contain at least one changed entry'')
       else then_r (check_changed_entries s (out_project_revision outcome) {} (out_changed_entries outcome))
        (new_plan s generation (Some source_event_id) False (out_changed_entries outcome))))"

definition for_reprojection :: "view_env \<Rightarrow> view_state \<Rightarrow> u64 \<Rightarrow> projection_plan domain_result" where
  "for_reprojection E s generation =
     then_r (validate_generation generation)
     (then_r (validate_state E s)
      (if \<not> is_initialized s then Err NotInitialized
       else new_plan s generation None True (map snd (view_entries s))))"


section \<open>Accepted mutations\<close>

lemma initialized_not_blank: "initialized_ok E s \<Longrightarrow> \<not> blank s"
  by (auto simp: initialized_ok_def blank_def)

lemma is_initialized_iff: "validate_state E s = Ok () \<Longrightarrow> is_initialized s \<longleftrightarrow> initialized_ok E s"
  by (auto simp: validate_state_Ok is_initialized_def blank_def initialized_ok_def)

lemma valid_keys:
  assumes "uuid_bytes_ok (ids E)" "ordered E s" "validate_state E s = Ok ()" "entry_at s k = Some e"
  shows "entry_id e = k" "entry_ok E (view_project_id s) e"
proof -
  have "\<not> blank s" using assms(4) by (auto simp: blank_def entry_at_def)
  then have "initialized_ok E s" using assms(3) by (simp add: validate_state_Ok)
  then obtain u where u: "entries_ok E s u" by (auto simp: initialized_ok_def)
  have "(k, e) \<in> set (view_entries s)" using assms by (simp add: entry_at_mem)
  then show "entry_id e = k" "entry_ok E (view_project_id s) e" using u by (auto simp: entries_ok_def)
qed

lemma view_reduce_Ok [result_inv]:
  "view_reduce E s m actor now = Ok (s', out) \<longleftrightarrow> validate_state E s = Ok () \<and> validate_mutation_envelope s m = Ok ()
     \<and> apply_request E (mut_request m) actor now s = Ok (out_changed_entries out, s')
     \<and> validate_state E s' = Ok () \<and> out_project_revision out = view_revision s'"
  by (auto simp: view_reduce_def result_inv)

lemma request_changes:
  assumes "apply_request E request actor now s = Ok (changed, s')"
  shows "changed \<noteq> []" "is_initialized s'"
proof -
  show "changed \<noteq> []"
  proof (cases request)
    case (InitializeView m)
    then obtain n p goals where "changed = sort_by (\<lambda>a b. uuid_cmp (ids E) (entry_id a) (entry_id b)) (p # goals)"
      using assms by (auto simp: apply_request_def apply_initialize_def result_inv Let_def split: if_splits)
    then have "set changed = set (p # goals)" by (simp only: entry_order.set_sort_by)
    then show ?thesis by auto
  qed (use assms in \<open>auto simp: apply_request_def result_inv\<close>)
  show "is_initialized s'"
    using assms by (cases request)
      (auto simp: apply_request_def apply_initialize_def require_initialized_def is_initialized_def Let_def
        apply_create_Ok apply_update_Ok apply_delete_Ok result_inv split: if_splits)
qed

lemma reduce_framed:
  assumes U: "uuid_bytes_ok (ids E)" and ord: "ordered E s" and ok: "view_reduce E s m actor now = Ok (s', out)"
  shows "framed E s now (out_changed_entries out) s'" "initialized_ok E s'" "out_changed_entries out \<noteq> []"
proof -
  have r: "validate_state E s = Ok ()" "apply_request E (mut_request m) actor now s = Ok (out_changed_entries out, s')"
    "validate_state E s' = Ok ()" using ok by (simp_all add: view_reduce_Ok)
  show "framed E s now (out_changed_entries out) s'"
    by (rule request_framed [OF U ord valid_keys(1) [OF U ord r(1)] r(2)])
  show "initialized_ok E s'" "out_changed_entries out \<noteq> []"
    using request_changes [OF r(2)] is_initialized_iff [OF r(3)] by simp_all
qed

lemma view_new_ok [simp]: "validate_state E (view_new p) = Ok ()" "ordered E (view_new p)"
  by (simp_all add: validate_state_Ok blank_def view_new_def)


section \<open>Loading a snapshot\<close>

lemma collect_entries_Ok:
  assumes "uuid_bytes_ok (ids E)" "om_ok (uuid_cmp (ids E)) m"
  shows "collect_entries E m es = Ok m' \<longleftrightarrow> distinct (map entry_id es) \<and> (\<forall>e\<in>set es. map_of m (entry_id e) = None)
     \<and> om_ok (uuid_cmp (ids E)) m' \<and> map_of m' = map_of m ++ map_of (keyed es)"
  using assms(2)
proof (induction es arbitrary: m)
  case Nil
  then show ?case using total_comparison.om_ok_unique [OF uuid_total [OF assms(1)], of m m'] by auto
next
  case (Cons e es)
  let ?m = "om_insert (uuid_cmp (ids E)) (entry_id e) e m"
  have m: "om_ok (uuid_cmp (ids E)) ?m" "map_of ?m = (map_of m)(entry_id e \<mapsto> e)"
    using total_comparison.om_ok_insert [OF uuid_total [OF assms(1)] Cons.prems]
      total_comparison.map_of_om_insert [OF uuid_total [OF assms(1)] Cons.prems] by simp_all
  have "entry_id e \<notin> entry_id ` set es \<longleftrightarrow> (\<forall>x\<in>set es. entry_id x \<noteq> entry_id e)" by (metis imageE imageI)
  then have fresh: "(\<forall>x\<in>set es. map_of ?m (entry_id x) = None) \<longleftrightarrow>
      entry_id e \<notin> entry_id ` set es \<and> (\<forall>x\<in>set es. map_of m (entry_id x) = None)"
    unfolding m(2) by auto
  show ?case
  proof (cases "map_of m (entry_id e)")
    case None
    let ?new = "entry_id e \<notin> entry_id ` set es"
    have over: "map_of ?m ++ map_of (keyed es) = map_of m ++ map_of (keyed (e # es))" if ?new
      unfolding m(2) by (rule override_keyed_Cons [OF that])
    have "collect_entries E m (e # es) = Ok m' \<longleftrightarrow> distinct (map entry_id es) \<and> (?new \<and> (\<forall>x\<in>set es. map_of m (entry_id x) = None))
        \<and> om_ok (uuid_cmp (ids E)) m' \<and> map_of m' = map_of ?m ++ map_of (keyed es)"
      using None unfolding fresh [symmetric] Cons.IH [OF m(1), symmetric] by simp
    also have "\<dots> \<longleftrightarrow> distinct (map entry_id es) \<and> (?new \<and> (\<forall>x\<in>set es. map_of m (entry_id x) = None))
        \<and> om_ok (uuid_cmp (ids E)) m' \<and> map_of m' = map_of m ++ map_of (keyed (e # es))"
      using over by metis
    finally show ?thesis using None by (simp del: keyed_simps) blast
  qed auto
qed

lemma view_from_snapshot_Ok:
  assumes "uuid_bytes_ok (ids E)"
  shows "view_from_snapshot E p n i u es = Ok s \<longleftrightarrow> distinct (map entry_id es) \<and> validate_state E s = Ok ()
     \<and> ordered E s \<and> entry_at s = map_of (keyed es) \<and> view_project_id s = p \<and> view_revision s = n
     \<and> view_initialized_at s = i \<and> view_updated_at s = u"
proof -
  have "view_from_snapshot E p n i u es = Ok s \<longleftrightarrow> collect_entries E [] es = Ok (view_entries s) \<and> validate_state E s = Ok ()
     \<and> view_project_id s = p \<and> view_revision s = n \<and> view_initialized_at s = i \<and> view_updated_at s = u"
    by (cases s) (auto simp: view_from_snapshot_def result_inv Let_def)
  then show ?thesis by (auto simp: collect_entries_Ok [OF assms] entry_at_def [abs_def])
qed

end
