(* ===== verification/View_Properties.thy ===== *)
theory View_Properties
  imports View_Projection Uuid_Layout "HOL-Library.Multiset"
begin

text \<open>
  Properties of the Project View reducer: validating the whole state after a mutation
  amounts to checking the relations of what changed; the identity and the type of an
  object last; projections replay to the state; the check before submission rejects
  nothing the reducer would accept.
\<close>

section \<open>The local reducer\<close>

definition reduce_local ::
  "view_env \<Rightarrow> view_state \<Rightarrow> view_mutation \<Rightarrow> public_key \<Rightarrow> timestamp \<Rightarrow> (view_state \<times> mutation_outcome) domain_result" where
  "reduce_local E s m actor now =
     then_r (validate_mutation_envelope s m)
     (bind_r (apply_request E (mut_request m) actor now s) (\<lambda>(changed, next).
      then_r (for_each (check_changed next) changed)
        (Ok (next, \<lparr>out_project_revision = view_revision next, out_changed_entries = changed\<rparr>))))"

definition view_step :: "view_env \<Rightarrow> view_state \<Rightarrow> view_mutation \<times> public_key \<times> timestamp \<Rightarrow> view_state \<Rightarrow> bool" where
  "view_step E s c s' \<longleftrightarrow> (case c of (m, actor, now) \<Rightarrow> \<exists>out. view_reduce E s m actor now = Ok (s', out))"

text \<open>What a client does with the entries of a plan.\<close>

definition replay :: "view_env \<Rightarrow> view_entries \<Rightarrow> view_entry list \<Rightarrow> view_entries" where
  "replay E m es = foldl (\<lambda>m e. om_insert (uuid_cmp (ids E)) (entry_id e) e m) m es"

lemma validate_mutation_envelope_Ok [result_inv]:
  "validate_mutation_envelope s m = Ok () \<longleftrightarrow> mut_schema_version m = MUTATION_SCHEMA_VERSION
     \<and> mut_expected_revision m \<le> MAX_SAFE_REVISION \<and> mut_expected_revision m = view_revision s"
  by (auto simp: validate_mutation_envelope_def result_inv)

text \<open>A project with a goal, and a plan that comes and goes.\<close>

definition demo_view_env :: view_env where
  "demo_view_env = \<lparr>ids = rfc4122, parse_url = (\<lambda>_. Err ''relative URL without a base'')\<rparr>"

definition demo_text :: ustring where "demo_text = [97]"

definition id_plan :: uuid where "id_plan = 0x33333333333343338333333333333333"

definition demo_initialize :: view_mutation where
  "demo_initialize = mutation_new 0 (InitializeView \<lparr>init_profile = \<lparr>profile_name = demo_text,
     profile_positioning = demo_text, profile_purpose = demo_text, profile_problem = demo_text,
     profile_scope = demo_text, profile_summary = None\<rparr>,
     init_goals = [\<lparr>ig_id = id_b, ig_title = demo_text, ig_desired_outcome = demo_text, ig_directions = [],
       ig_summary = None\<rparr>]\<rparr>)"

definition demo_create_plan :: view_mutation where
  "demo_create_plan = mutation_new 1 (CreateObject (NewPlan id_plan (demo_text) (demo_text) PlanActive (Some id_b)))"

definition demo_delete_plan :: view_mutation where
  "demo_delete_plan = mutation_new 2 (DeleteObject \<lparr>del_object_type = Plan, del_object_id = id_plan\<rparr>)"

definition demo_profile :: view_entry where
  "demo_profile = ActiveObject (new_active id_a (ProfileData \<lparr>profile_name = demo_text, profile_positioning = demo_text,
     profile_purpose = demo_text, profile_problem = demo_text, profile_scope = demo_text, profile_summary = None\<rparr>)
     no_relations 1 7 100)"

definition demo_goal :: view_entry where
  "demo_goal = ActiveObject (new_active id_b (GoalData \<lparr>goal_title = demo_text, goal_desired_outcome = demo_text,
     goal_directions = [], goal_summary = None\<rparr>) no_relations 1 7 100)"

definition demo_plan :: view_entry where
  "demo_plan = ActiveObject (new_active id_plan (PlanData \<lparr>plan_title = demo_text, plan_description = demo_text,
     plan_state = PlanActive, plan_summary = None\<rparr>) (no_relations\<lparr>under_goal_id := Some id_b\<rparr>) 2 7 200)"

definition demo_plan_tombstone :: view_entry where
  "demo_plan_tombstone = Tombstone \<lparr>tomb_id = id_plan, tomb_type = Plan, tomb_revision = 2, tomb_project_revision = 3,
     tomb_created_at = 200, tomb_deleted_at = 300, tomb_created_by = 7, tomb_deleted_by = 7\<rparr>"

definition demo_view :: "u64 \<Rightarrow> timestamp \<Rightarrow> view_entries \<Rightarrow> view_state" where
  "demo_view n now es = \<lparr>view_project_id = id_a, view_revision = n, view_initialized_at = Some 100, view_updated_at = Some now,
     view_entries = (id_a, demo_profile) # (id_b, demo_goal) # es\<rparr>"

lemma demo_view_ids [simp]: "ids demo_view_env = rfc4122" "id_plan \<noteq> id_a" "id_plan \<noteq> id_b" "id_a \<noteq> id_plan" "id_b \<noteq> id_plan"
  by (simp_all add: demo_view_env_def id_plan_def id_a_def id_b_def)

lemma demo_view_ids_ok: "uuid_bytes_ok (ids demo_view_env)"
  by (simp add: rfc4122_bytes_ok)

lemma demo_client_ids [simp]:
  "validate_client_object_id demo_view_env id_a id_b = Ok ()" "validate_client_object_id demo_view_env id_a id_plan = Ok ()"
  by (simp_all add: validate_client_object_id_def layout_version_def layout_variant_def id_plan_def id_a_def id_b_def demo_view_env_def)

lemma demo_order [simp]: "uuid_cmp rfc4122 id_b id_a = Greater" "uuid_cmp rfc4122 id_a id_b = Less" 
  "uuid_cmp rfc4122 id_plan id_a = Greater" "uuid_cmp rfc4122 id_plan id_b = Greater" "uuid_cmp rfc4122 id_plan id_plan = Equal"
  "uuid_cmp rfc4122 id_a id_plan = Less" "uuid_cmp rfc4122 id_b id_plan = Less"
  by code_simp+

lemma demo_texts [simp]: "validate_required_short field demo_text = Ok ()" "validate_required_long field demo_text = Ok ()"
  by (simp_all add: validate_required_short_def validate_required_long_def validate_required_text_def
    SHORT_TEXT_MAX_BYTES_def LONG_TEXT_MAX_BYTES_def demo_text_def trim_def is_whitespace_def utf8_len_def utf8_char_len_def)

lemma demo_data [simp]: "validate_summary None = Ok ()" "validate_string_list field [] = Ok ()"
  by (simp_all add: validate_summary_def validate_string_list_def LIST_MAX_ITEMS_def)

lemma demo_mutations [simp]: 
  "mut_schema_version (mutation_new n r) = MUTATION_SCHEMA_VERSION" "mut_expected_revision (mutation_new n r) = n"
  "mut_request (mutation_new n r) = r"
  by (simp_all add: mutation_new_def)

lemma small_revisions [simp]: "(0::u64) \<le> MAX_SAFE_REVISION" "(2::u64) \<le> MAX_SAFE_REVISION" "0 < MAX_SAFE_REVISION" "1 < MAX_SAFE_REVISION"
  "2 < MAX_SAFE_REVISION"
  by (simp_all add: MAX_SAFE_REVISION_def)

lemma small_next [simp]: "view_next_revision 0 = Ok 1" "view_next_revision 1 = Ok 2" "view_next_revision 2 = Ok 3"
  by (simp_all add: view_next_revision_Ok)

lemmas demo_defs = demo_profile_def demo_goal_def demo_plan_def demo_plan_tombstone_def demo_view_def demo_initialize_def
  demo_create_plan_def demo_delete_plan_def

lemma demo_blank: "blank (view_new p)" "view_revision (view_new p) = 0"
  by (simp_all add: blank_def view_new_def)

lemma demo_view_simps [simp]:
  "view_revision (demo_view n now es) = n" "view_project_id (demo_view n now es) = id_a"
  "view_updated_at (demo_view n now es) = Some now" "view_initialized_at (demo_view n now es) = Some 100"
  by (simp_all add: demo_view_def)

lemma demo_initialize:
  "view_reduce demo_view_env (view_new id_a) demo_initialize 7 100 =
     Ok (demo_view 1 100 [], \<lparr>out_project_revision = 1, out_changed_entries = [demo_profile, demo_goal]\<rparr>)"
proof -
  have "apply_initialize demo_view_env (case mut_request demo_initialize of InitializeView m \<Rightarrow> m) 7 100 (view_new id_a) =
      Ok ([demo_profile, demo_goal], demo_view 1 100 [])"
    by (simp add: demo_defs apply_initialize_def view_new_def is_initialized_def MAX_INITIAL_GOALS_def
        insert_new_def entry_at_def into_goal_def sort_by_def Let_def)
  note ok = this initialize_validates [OF demo_view_ids_ok demo_blank(1) this]
  show ?thesis using ok
    by (simp add: view_reduce_Ok validate_state_Ok demo_blank apply_request_def validate_mutation_envelope_Ok
       demo_initialize_def)
qed

lemma demo_plan_created:
  "view_reduce demo_view_env (demo_view 1 100 []) demo_create_plan 7 200 =
     Ok (demo_view 2 200 [(id_plan, demo_plan)], \<lparr>out_project_revision = 2, out_changed_entries = [demo_plan]\<rparr>)"
proof -
  have s: "validate_state demo_view_env (demo_view 1 100 []) = Ok ()" using demo_initialize by (simp add: view_reduce_Ok)
  have "initialized_ok demo_view_env (demo_view 1 100 [])" using s is_initialized_iff [OF s] by (simp add: is_initialized_def)
  moreover have "ordered demo_view_env (demo_view 1 100 [])" by (simp add: demo_view_def om_ok_Cons)
  moreover have ok: "apply_create demo_view_env (NewPlan id_plan demo_text demo_text PlanActive (Some id_b)) 7 200 (demo_view 1 100 [])
    = Ok (demo_plan, demo_view 2 200 [(id_plan, demo_plan)])"
    by (simp add: apply_create_def Let_def insert_new_def demo_defs entry_at_def)
  ultimately have "validate_state demo_view_env (demo_view 2 200 [(id_plan, demo_plan)]) = check_changed (demo_view 2 200 [(id_plan, demo_plan)]) demo_plan"
    using create_validates [OF demo_view_ids_ok _ _ _ _ ok] by simp
  also have "\<dots> = Ok ()"
    by (simp add: check_changed_def demo_plan_def validate_relation_targets_Ok resolves_def active_type_def entry_at_def demo_view_def no_relations_def demo_goal_def)
  finally show ?thesis using s ok
    by (simp add: view_reduce_Ok apply_request_def validate_mutation_envelope_Ok single_def require_initialized_def is_initialized_def
       demo_create_plan_def)
qed

lemma demo_plan_deleted:
  "view_reduce demo_view_env (demo_view 2 200 [(id_plan, demo_plan)]) demo_delete_plan 7 300 =
     Ok (demo_view 3 300 [(id_plan, demo_plan_tombstone)], \<lparr>out_project_revision = 3, out_changed_entries = [demo_plan_tombstone]\<rparr>)"
proof -
  let ?s = "demo_view 2 200 [(id_plan, demo_plan)]"
  have s: "validate_state demo_view_env ?s = Ok ()" using demo_plan_created by (simp add: view_reduce_Ok)
  have "initialized_ok demo_view_env ?s" using s is_initialized_iff [OF s] by (simp add: is_initialized_def)
  moreover have "ordered demo_view_env ?s" by (simp add: demo_view_def om_ok_Cons)
  moreover have ok: "apply_delete demo_view_env \<lparr>del_object_type = Plan, del_object_id = id_plan\<rparr> 7 300 ?s
    = Ok (demo_plan_tombstone, demo_view 3 300 [(id_plan, demo_plan_tombstone)])"
    by (simp add: apply_delete_def current_object_def Let_def put_entry_def demo_defs entry_at_def first_incoming_relation_def
       active_objects_def no_relations_def)
  ultimately have "validate_state demo_view_env (demo_view 3 300 [(id_plan, demo_plan_tombstone)]) = Ok ()"
    using delete_validates [OF demo_view_ids_ok _ _ _ _ ok] by (simp add: check_changed_def demo_plan_tombstone_def)
  then show ?thesis using s ok
    by (simp add: view_reduce_Ok apply_request_def validate_mutation_envelope_Ok single_def require_initialized_def is_initialized_def
       demo_delete_plan_def)
qed


section \<open>Validation is local\<close>

lemma initialize_unrelated:
  assumes "uuid_bytes_ok (ids E)" "ordered E s" "apply_initialize E m actor now s = Ok (changed, s')"
  shows "for_each (check_changed s') changed = Ok ()"
proof -
  have "check_changed s' e = Ok ()" if e: "e \<in> set changed" for e
  proof -
    have "\<exists>i d. e = ActiveObject (new_active i d no_relations (view_revision s') actor now)"
      using initialize_framed(4) [OF assms] e by (fastforce simp: list_all2_conv_all_nth in_set_conv_nth)
    then show ?thesis by (auto simp: check_changed_def validate_relation_targets_Ok resolves_def no_relations_def)
  qed
  then show ?thesis by (simp add: for_each_Ok_iff)
qed

lemma request_validates:
  assumes U: "uuid_bytes_ok (ids E)" and ord: "ordered E s" and s: "validate_state E s = Ok ()"
    and clock: "\<And>t. view_updated_at s = Some t \<Longrightarrow> t \<le> now"
    and ok: "apply_request E request actor now s = Ok (changed, s')"
  shows "validate_state E s' = for_each (check_changed s') changed"
proof (cases "is_initialized s")
  case False
  then have "blank s" using s by (auto simp: validate_state_Ok is_initialized_def initialized_ok_def)
  moreover obtain m where m: "apply_initialize E m actor now s = Ok (changed, s')"
    using ok False by (cases request) (auto simp: apply_request_def require_initialized_def)
  ultimately show ?thesis
    using initialize_validates [OF U _ m] initialize_unrelated [OF U ord m] by (simp add: validate_state_Ok)
next
  case True
  then have init: "initialized_ok E s" using is_initialized_iff [OF s] by simp
  then obtain t where t: "view_updated_at s = Some t" by (auto simp: initialized_ok_def)
  have one: "for_each (check_changed s') [e] = check_changed s' e" for e by (cases "check_changed s' e") simp_all
  consider n e where "request = CreateObject n" "apply_create E n actor now s = Ok (e, s')" "changed = [e]"
    | u e where "request = UpdateObject u" "apply_update E u actor now s = Ok (e, s')" "changed = [e]"
    | d e where "request = DeleteObject d" "apply_delete E d actor now s = Ok (e, s')" "changed = [e]"
    using ok True by (cases request) (auto simp: apply_request_def apply_initialize_def result_inv)
  then show ?thesis
    using create_validates [OF U ord init t clock [OF t]] update_validates [OF U ord init t clock [OF t]]
      delete_validates [OF U ord init t clock [OF t]] one by cases simp_all
qed

text \<open>
  C14: on a valid state, with a clock that does not run backwards, checking the whole
  state before and after a mutation rejects exactly what checking the relation targets
  of the changed entries rejects, with the same error, and gives the same answer.
\<close>

theorem reduce_view_local:
  assumes "uuid_bytes_ok (ids E)" "ordered E s" "validate_state E s = Ok ()"
    and "\<And>t. view_updated_at s = Some t \<Longrightarrow> t \<le> now"
  shows "view_reduce E s m actor now = reduce_local E s m actor now"
proof (cases "apply_request E (mut_request m) actor now s")
  case (Ok r)
  obtain changed s' where "r = (changed, s')" by (cases r)
  then show ?thesis
    using request_validates [OF assms] Ok assms(3) by (simp add: view_reduce_def reduce_local_def)
next
  case (Err e)
  then show ?thesis using assms(3) by (simp add: view_reduce_def reduce_local_def)
qed

lemma demo_states:
  "ordered demo_view_env (demo_view 1 100 [])" "ordered demo_view_env (demo_view 2 200 [(id_plan, demo_plan)])"
  "validate_state demo_view_env (demo_view 1 100 []) = Ok ()"
  "validate_state demo_view_env (demo_view 2 200 [(id_plan, demo_plan)]) = Ok ()"
  using demo_initialize demo_plan_created by (simp_all add: demo_view_def om_ok_Cons view_reduce_Ok)

theorem reduce_view_local_witness:
  "validate_state demo_view_env (demo_view 2 200 [(id_plan, demo_plan)]) = Ok ()
   \<and> view_reduce demo_view_env (demo_view 2 200 [(id_plan, demo_plan)]) demo_delete_plan 7 300
     = reduce_local demo_view_env (demo_view 2 200 [(id_plan, demo_plan)]) demo_delete_plan 7 300"
  using reduce_view_local [OF demo_view_ids_ok demo_states(2,4), of 300 demo_delete_plan 7] demo_states(4) by simp


section \<open>Objects last\<close>

definition succeeds :: "view_entry \<Rightarrow> view_entry \<Rightarrow> bool" where
  "succeeds old new \<longleftrightarrow> entry_type new = entry_type old \<and> entry_created new = entry_created old
     \<and> view_next_revision (entry_revision old) = Ok (entry_revision new) \<and> (\<exists>v. old = ActiveObject v)"

lemma request_entries:
  assumes U: "uuid_bytes_ok (ids E)" and ord: "ordered E s" and s: "validate_state E s = Ok ()"
    and ok: "apply_request E request actor now s = Ok (changed, s')" and e: "e \<in> set changed"
  shows "(entry_at s (entry_id e) = None \<and> entry_revision e = 1 \<and> entry_created e = (now, actor) \<and> (\<exists>v. e = ActiveObject v))
    \<or> (\<exists>old. entry_at s (entry_id e) = Some old \<and> succeeds old e)"
proof (cases request)
  case (InitializeView m)
  then have m: "apply_initialize E m actor now s = Ok (changed, s')" using ok by (simp add: apply_request_def)
  have "\<exists>i d. e = ActiveObject (new_active i d no_relations (view_revision s') actor now)"
    using initialize_framed(4) [OF U ord m] e by (fastforce simp: list_all2_conv_all_nth in_set_conv_nth)
  then show ?thesis using initialize_framed(3) [OF U ord m] e by auto
next
  case (CreateObject n)
  then have "apply_create E n actor now s = Ok (e, s')" using ok e by (auto simp: apply_request_def result_inv)
  then show ?thesis by (auto simp: apply_create_Ok)
next
  case (UpdateObject u)
  then have "apply_update E u actor now s = Ok (e, s')" using ok e by (auto simp: apply_request_def result_inv)
  then obtain v w n k where v: "entry_at s (update_object_id u) = Some (ActiveObject v)" "apply_typed_patch v u = Ok w"
    and k: "view_next_revision (obj_revision v) = Ok k"
    and e': "e = ActiveObject (w\<lparr>obj_revision := k, obj_project_revision := n, obj_updated_at := now, obj_updated_by := actor\<rparr>)"
    unfolding apply_update_Ok by blast
  obtain d r where "w = v\<lparr>obj_data := d, obj_relations := r\<rparr>" using v(2) by (rule apply_typed_patch_Ok)
  then show ?thesis using v(1) k valid_keys(1) [OF U ord s v(1)] by (simp add: e' succeeds_def)
next
  case (DeleteObject d)
  then have "apply_delete E d actor now s = Ok (e, s')" using ok e by (auto simp: apply_request_def result_inv)
  then obtain v n k where v: "entry_at s (del_object_id d) = Some (ActiveObject v)"
    and k: "view_next_revision (obj_revision v) = Ok k"
    and e': "e = Tombstone \<lparr>tomb_id = obj_id v, tomb_type = obj_type v, tomb_revision = k, tomb_project_revision = n,
               tomb_created_at = obj_created_at v, tomb_deleted_at = now, tomb_created_by = obj_created_by v,
               tomb_deleted_by = actor\<rparr>"
    unfolding apply_delete_Ok by blast
  show ?thesis using v k valid_keys(1) [OF U ord s v] by (simp add: e' succeeds_def)
qed

text \<open>The relation between the entry of an identifier in a state and in a later one.\<close>

definition lasts :: "view_entry \<Rightarrow> view_entry \<Rightarrow> bool" where
  "lasts e e' \<longleftrightarrow> entry_type e' = entry_type e \<and> entry_created e' = entry_created e
     \<and> entry_revision e \<le> entry_revision e' \<and> (entry_revision e = entry_revision e' \<longrightarrow> e' = e)
     \<and> (\<forall>d. e = Tombstone d \<longrightarrow> e' = e)"

lemma lasts_refl: "lasts e e" by (simp add: lasts_def)

lemma lasts_trans: "lasts a b \<Longrightarrow> lasts b c \<Longrightarrow> lasts a c"
  unfolding lasts_def by (metis order.antisym order.trans)

lemma succeeds_lasts: "succeeds a b \<Longrightarrow> lasts a b"
  using next_revision_bounds [of "entry_revision a" "entry_revision b"] by (auto simp: succeeds_def lasts_def)

lemma reduce_lasts:
  assumes U: "uuid_bytes_ok (ids E)" and ord: "ordered E s" and ok: "view_reduce E s m actor now = Ok (s', out)"
    and k: "entry_at s k = Some e"
  shows "\<exists>e'. entry_at s' k = Some e' \<and> lasts e e'"
proof -
  have r: "validate_state E s = Ok ()" "apply_request E (mut_request m) actor now s = Ok (out_changed_entries out, s')"
    using ok by (simp_all add: view_reduce_Ok)
  have at: "entry_at s' = entry_at s ++ map_of (keyed (out_changed_entries out))"
    using reduce_framed(1) [OF U ord ok] by (simp add: framed_def)
  show ?thesis
  proof (cases "map_of (keyed (out_changed_entries out)) k")
    case None
    then show ?thesis using k lasts_refl by (simp add: at map_add_def)
  next
    case (Some e')
    then have e': "e' \<in> set (out_changed_entries out)" "k = entry_id e'" by (auto dest: map_of_SomeD)
    then have "succeeds e e'" using request_entries [OF U ord r e'(1)] k by auto
    then show ?thesis using Some succeeds_lasts by (simp add: at)
  qed
qed

lemma view_run:
  assumes "steps (view_step E) s0 cs s" "uuid_bytes_ok (ids E)" "ordered E s0" "validate_state E s0 = Ok ()"
  shows "ordered E s \<and> validate_state E s = Ok () \<and> unat (view_revision s) = unat (view_revision s0) + length cs
    \<and> view_project_id s = view_project_id s0
    \<and> (\<forall>k e. entry_at s0 k = Some e \<longrightarrow> (\<exists>e'. entry_at s k = Some e' \<and> lasts e e'))"
  using assms(1,3,4)
proof induction
  case (steps_Nil)
  then show ?case using lasts_refl by auto
next
  case (steps_snoc s0 cs s c s')
  note IH = steps_snoc.IH [OF steps_snoc.prems]
  obtain m actor now out where ok: "view_reduce E s m actor now = Ok (s', out)"
    using steps_snoc.hyps(2) by (cases c) (auto simp: view_step_def)
  have ord: "ordered E s" using IH by simp
  have frame: "ordered E s'" "view_project_id s' = view_project_id s" "view_next_revision (view_revision s) = Ok (view_revision s')"
    using reduce_framed(1) [OF assms(2) ord ok] by (simp_all add: framed_def)
  have "\<exists>e''. entry_at s' k = Some e'' \<and> lasts e e''" if k: "entry_at s0 k = Some e" for k e
  proof -
    obtain e' where "entry_at s k = Some e'" "lasts e e'" using IH k by blast
    then show ?thesis using reduce_lasts [OF assms(2) ord ok] lasts_trans by blast
  qed
  then show ?case
    using frame next_revision_bounds(4) [OF frame(3)] IH ok by (simp add: view_reduce_Ok)
qed

lemma valid_typed:
  assumes "uuid_bytes_ok (ids E)" "ordered E s" "validate_state E s = Ok ()" "entry_at s k = Some (ActiveObject v)"
  shows "obj_id v = k \<and> data_type (obj_data v) = obj_type v \<and> shape_ok (obj_type v) (obj_relations v)
    \<and> resolves (active_type s) k (obj_relations v)"
proof -
  have "\<not> blank s" using assms(4) by (auto simp: blank_def entry_at_def)
  then have "initialized_ok E s" using assms(3) by (simp add: validate_state_Ok)
  from initialized_types [OF assms(1,2) this assms(4)] show ?thesis by (auto simp: object_ok_def)
qed

text \<open>
  C12: from any state loaded from storage, through any accepted mutations: an identifier
  once used keeps its type, its creation time and its author; it is never freed, and a
  deleted object stays as it is; an object that changes gets a larger revision.  In the
  state reached every object's data and relation slots fit its declared type and every
  relation names an active object of the type the relation requires, and the project
  revision has counted the mutations.
\<close>

theorem view_objects_typed:
  assumes "uuid_bytes_ok (ids E)" "view_from_snapshot E p n i u es = Ok s0" "steps (view_step E) s0 cs s"
  shows "(\<forall>k e. entry_at s0 k = Some e \<longrightarrow> (\<exists>e'. entry_at s k = Some e' \<and> lasts e e'))
    \<and> (\<forall>k v. entry_at s k = Some (ActiveObject v) \<longrightarrow> obj_id v = k \<and> data_type (obj_data v) = obj_type v
         \<and> shape_ok (obj_type v) (obj_relations v) \<and> resolves (active_type s) k (obj_relations v))
    \<and> unat (view_revision s) = unat n + length cs"
proof -
  have s0: "ordered E s0" "validate_state E s0 = Ok ()" "view_revision s0 = n"
    using assms(2) by (simp_all add: view_from_snapshot_Ok [OF assms(1)])
  note run = view_run [OF assms(3,1) s0(1,2)]
  then show ?thesis using valid_typed [OF assms(1)] s0(3) by blast
qed

lemma demo_steps:
  "steps (view_step demo_view_env) (view_new id_a) [(demo_initialize, 7, 100), (demo_create_plan, 7, 200), (demo_delete_plan, 7, 300)]
     (demo_view 3 300 [(id_plan, demo_plan_tombstone)])"
proof -
  have "steps (view_step demo_view_env) (view_new id_a) ((([] @ [(demo_initialize, 7, 100)]) @ [(demo_create_plan, 7, 200)]) @ [(demo_delete_plan, 7, 300)])
     (demo_view 3 300 [(id_plan, demo_plan_tombstone)])"
    by (rule steps_snoc steps_Nil)+ (auto simp: view_step_def demo_initialize demo_plan_created demo_plan_deleted)
  then show ?thesis by simp
qed

theorem view_objects_typed_witness:
  "view_from_snapshot demo_view_env id_a 0 None None [] = Ok (view_new id_a)
   \<and> unat (view_revision (demo_view 3 300 [(id_plan, demo_plan_tombstone)])) = unat (0::u64) + 3"
proof -
  have load: "view_from_snapshot demo_view_env id_a 0 None None [] = Ok (view_new id_a)"
    by (simp add: view_from_snapshot_Ok demo_view_ids_ok [simplified]) (simp add: view_new_def entry_at_def fun_eq_iff)
  show ?thesis using load view_objects_typed [OF demo_view_ids_ok load demo_steps] by simp
qed


section \<open>Projections\<close>

lemma notin_image_iff: "x \<notin> f ` S \<longleftrightarrow> (\<forall>y\<in>S. f y \<noteq> x)"
  by auto

lemma check_changed_entries_Ok:
  "check_changed_entries s n seen es = Ok () \<longleftrightarrow> distinct (map entry_id es) \<and> (\<forall>e\<in>set es. entry_id e \<notin> seen
     \<and> entry_project_revision e = n \<and> entry_at s (entry_id e) = Some e)"
proof (induction es arbitrary: seen)
  case (Cons e es)
  have "check_changed_entries s n seen (e # es) = Ok () \<longleftrightarrow> entry_id e \<notin> seen \<and> entry_project_revision e = n
      \<and> entry_at s (entry_id e) = Some e \<and> check_changed_entries s n (insert (entry_id e) seen) es = Ok ()"
    by auto
  moreover have "distinct (map entry_id (e # es)) \<longleftrightarrow> (\<forall>x\<in>set es. entry_id x \<noteq> entry_id e) \<and> distinct (map entry_id es)"
    by (simp add: notin_image_iff)
  ultimately show ?case unfolding Cons.IH by auto
qed simp

lemma new_plan_Ok:
  "length (active_objects s) < 2 ^ 32 \<Longrightarrow> view_updated_at s = Some u \<Longrightarrow> new_plan s g src reset es =
     Ok \<lparr>proj_project_id = view_project_id s, proj_generation = g, proj_project_revision = view_revision s,
         proj_active_object_count = word_of_nat (length (active_objects s)), proj_updated_at = u,
         proj_source_event_id = src, proj_reset = reset, proj_entries = es\<rparr>"
  by (simp add: new_plan_def Let_def)

lemma replay_map:
  assumes "uuid_bytes_ok (ids E)" "om_ok (uuid_cmp (ids E)) m" "distinct (map entry_id es)"
  shows "om_ok (uuid_cmp (ids E)) (replay E m es) \<and> map_of (replay E m es) = map_of m ++ map_of (keyed es)"
  using assms(2,3)
proof (induction es arbitrary: m)
  case (Cons e es)
  let ?m = "om_insert (uuid_cmp (ids E)) (entry_id e) e m"
  have m: "om_ok (uuid_cmp (ids E)) ?m" "map_of ?m = (map_of m)(entry_id e \<mapsto> e)"
    using total_comparison.om_ok_insert [OF uuid_total [OF assms(1)] Cons.prems(1)]
      total_comparison.map_of_om_insert [OF uuid_total [OF assms(1)] Cons.prems(1)] by simp_all
  have d: "distinct (map entry_id es)" and new: "entry_id e \<notin> entry_id ` set es" using Cons.prems(2) by simp_all
  have "replay E m (e # es) = replay E ?m es" by (simp add: replay_def)
  then show ?case using Cons.IH [OF m(1) d] unfolding m(2) override_keyed_Cons [OF new] by (simp only:)
qed (simp add: replay_def)

lemma entry_in_changed:
  assumes "framed E s now changed s'" "e \<in> set changed"
  shows "entry_at s' (entry_id e) = Some e"
proof -
  have "map_of (keyed changed) (entry_id e) = Some e"
    using assms by (intro map_of_is_SomeI) (auto simp: framed_def)
  then show ?thesis using assms(1) by (simp add: framed_def)
qed

text \<open>
  C15: the plan for an accepted mutation is always built, it names the new revision and
  the event that caused it, and a client that stores its entries over the preceding
  ones has the new state.
\<close>

theorem mutation_projection_replays:
  assumes "uuid_bytes_ok (ids E)" "ordered E s" "view_reduce E s m actor now = Ok (s', out)"
    and "0 < g" "g \<le> MAX_SAFE_REVISION" "length (active_objects s') < 2 ^ 32"
  shows "\<exists>plan. for_mutation E s' out src g = Ok plan \<and> proj_source_event_id plan = Some src \<and> \<not> proj_reset plan
    \<and> proj_project_revision plan = view_revision s + 1 \<and> proj_updated_at plan = now
    \<and> unat (proj_active_object_count plan) = length (active_objects s')
    \<and> replay E (view_entries s) (proj_entries plan) = view_entries s'"
proof -
  have out: "validate_state E s' = Ok ()" "out_project_revision out = view_revision s'" using assms(3) by (simp_all add: view_reduce_Ok)
  note frame = reduce_framed [OF assms(1-3)]
  then have f: "ordered E s'" "distinct (map entry_id (out_changed_entries out))"
    "entry_at s' = entry_at s ++ map_of (keyed (out_changed_entries out))" "view_updated_at s' = Some now"
    "view_next_revision (view_revision s) = Ok (view_revision s')"
    "\<And>e. e \<in> set (out_changed_entries out) \<Longrightarrow> entry_project_revision e = view_revision s'"
    by (simp_all add: framed_def)
  have "check_changed_entries s' (view_revision s') {} (out_changed_entries out) = Ok ()"
    using f(2,6) entry_in_changed [OF frame(1)] by (simp add: check_changed_entries_Ok)
  moreover have "is_initialized s'" using frame(2) by (auto simp: initialized_ok_def is_initialized_def)
  ultimately have plan: "for_mutation E s' out src g = Ok \<lparr>proj_project_id = view_project_id s', proj_generation = g,
       proj_project_revision = view_revision s', proj_active_object_count = word_of_nat (length (active_objects s')),
       proj_updated_at = now, proj_source_event_id = Some src, proj_reset = False, proj_entries = out_changed_entries out\<rparr>"
    using out frame(3) assms(4,5) new_plan_Ok [OF assms(6) f(4)] by (auto simp: for_mutation_def validate_generation_def)
  have r: "om_ok (uuid_cmp (ids E)) (replay E (view_entries s) (out_changed_entries out))"
    "map_of (replay E (view_entries s) (out_changed_entries out)) = map_of (view_entries s')"
    using replay_map [OF assms(1,2) f(2)] f(3) by (simp_all add: entry_at_def [abs_def])
  then have "replay E (view_entries s) (out_changed_entries out) = view_entries s'"
    by (rule total_comparison.om_ok_unique [OF uuid_total [OF assms(1)] _ f(1)])
  moreover have "view_revision s' = view_revision s + 1" using f(5) by (simp add: view_next_revision_Ok)
  moreover have "unat (word_of_nat (length (active_objects s')) :: u32) = length (active_objects s')"
    using assms(6) by (simp add: unsigned_of_nat take_bit_nat_eq_self)
  ultimately show ?thesis using plan by simp
qed

theorem mutation_projection_replays_witness:
  "view_reduce demo_view_env (demo_view 1 100 []) demo_create_plan 7 200 =
     Ok (demo_view 2 200 [(id_plan, demo_plan)], \<lparr>out_project_revision = 2, out_changed_entries = [demo_plan]\<rparr>)
   \<and> (\<exists>plan. for_mutation demo_view_env (demo_view 2 200 [(id_plan, demo_plan)])
        \<lparr>out_project_revision = 2, out_changed_entries = [demo_plan]\<rparr> [] 1 = Ok plan
      \<and> replay demo_view_env (view_entries (demo_view 1 100 [])) (proj_entries plan)
        = view_entries (demo_view 2 200 [(id_plan, demo_plan)]))"
  using mutation_projection_replays [OF demo_view_ids_ok demo_states(1) demo_plan_created, of 1 "[]"] demo_plan_created
  by (auto simp: demo_view_def active_objects_def demo_profile_def demo_goal_def demo_plan_def)

text \<open>
  C16: a reset plan lists every identifier ever used, and a client that loads its
  entries, in whatever order they arrive, has the state it was made from.
\<close>

theorem reprojection_roundtrip:
  assumes "uuid_bytes_ok (ids E)" "ordered E s" "validate_state E s = Ok ()" "is_initialized s"
    and "0 < g" "g \<le> MAX_SAFE_REVISION" "length (active_objects s) < 2 ^ 32"
  shows "\<exists>plan. for_reprojection E s g = Ok plan \<and> proj_reset plan \<and> (\<forall>es. mset es = mset (proj_entries plan) \<longrightarrow>
    view_from_snapshot E (proj_project_id plan) (proj_project_revision plan) (view_initialized_at s)
      (Some (proj_updated_at plan)) es = Ok s)"
proof -
  have init: "initialized_ok E s" using is_initialized_iff [OF assms(3)] assms(4) by simp
  then obtain u where u: "view_updated_at s = Some u" and ent: "entries_ok E s u" by (auto simp: initialized_ok_def)
  let ?es = "map snd (view_entries s)"
  have plan: "for_reprojection E s g = Ok \<lparr>proj_project_id = view_project_id s, proj_generation = g,
       proj_project_revision = view_revision s, proj_active_object_count = word_of_nat (length (active_objects s)),
       proj_updated_at = u, proj_source_event_id = None, proj_reset = True, proj_entries = ?es\<rparr>"
    using assms(3-6) new_plan_Ok [OF assms(7) u] by (auto simp: for_reprojection_def validate_generation_def)
  have keyed: "keyed ?es = view_entries s"
    using ent by (auto simp: keyed_def entries_ok_def comp_def split_beta intro!: map_idI prod_eqI)
  then have "map entry_id ?es = map fst (view_entries s)" using keyed_simps(3) [of ?es] by (simp only:)
  then have d: "distinct (map entry_id ?es)" using ordered_distinct [OF assms(1,2)] by (simp only:)
  have "view_from_snapshot E (view_project_id s) (view_revision s) (view_initialized_at s) (Some u) es = Ok s"
    if es: "mset es = mset ?es" for es
  proof -
    have "set es = set ?es" "length es = length ?es" using mset_eq_setD [OF es] mset_eq_length [OF es] by simp_all
    note k = keyed_cong [OF d this]
    then have "entry_at s = map_of (keyed es)" unfolding k(1) keyed by (simp add: entry_at_def fun_eq_iff)
    then show ?thesis using k(2) assms(2,3) u by (simp add: view_from_snapshot_Ok [OF assms(1)])
  qed
  then show ?thesis using plan by simp
qed

theorem reprojection_roundtrip_witness:
  "\<exists>plan. for_reprojection demo_view_env (demo_view 2 200 [(id_plan, demo_plan)]) 1 = Ok plan
     \<and> view_from_snapshot demo_view_env (proj_project_id plan) (proj_project_revision plan) (Some 100)
         (Some (proj_updated_at plan)) (rev (proj_entries plan)) = Ok (demo_view 2 200 [(id_plan, demo_plan)])"
proof -
  have "is_initialized (demo_view 2 200 [(id_plan, demo_plan)])" by (simp add: is_initialized_def)
  moreover have "length (active_objects (demo_view 2 200 [(id_plan, demo_plan)])) < 2 ^ 32"
    by (simp add: demo_view_def active_objects_def demo_profile_def demo_goal_def demo_plan_def)
  ultimately show ?thesis
    using reprojection_roundtrip [OF demo_view_ids_ok demo_states(2,4), of 1] by fastforce
qed


section \<open>The check before submission\<close>

lemma required_patch_ok:
  "apply_required x p f = Ok y \<Longrightarrow> validate_required_short f y = Ok () \<Longrightarrow> validate_short_patch p f = Ok ()"
  "apply_required x p f = Ok y \<Longrightarrow> validate_required_long f y = Ok () \<Longrightarrow> validate_long_patch p f = Ok ()"
  by (auto simp: apply_required_def validate_short_patch_def validate_long_patch_def split: patch.splits)

lemma list_patch_ok:
  "apply_required x p f = Ok y \<Longrightarrow> validate_string_list f y = Ok () \<Longrightarrow> validate_list_patch p f = Ok ()"
  by (auto simp: apply_required_def validate_list_patch_def split: patch.splits)

lemma other_patch_ok:
  "apply_required v q f = Ok w \<Longrightarrow> validate_required_patch q f = Ok ()"
  "apply_required_relation z r f = Ok t \<Longrightarrow> validate_required_relation_patch r f = Ok ()"
  by (auto simp: apply_required_def apply_required_relation_def validate_required_patch_def
      validate_required_relation_patch_def split: patch.splits)

lemma unchanged_iff [simp]: "is_unchanged p \<longleftrightarrow> p = Unchanged"
  by (cases p) simp_all

lemma apply_unchanged [simp]:
  "apply_required x Unchanged f = Ok x" "apply_optional y Unchanged = y" "apply_required_relation y Unchanged f = Ok y"
  by (simp_all add: apply_required_def apply_optional_def apply_required_relation_def)

lemma patch_fields:
  assumes "patch_data u d r = Some (Ok (d', r'))" "validate_data E d' = Ok ()" "resolves types (update_object_id u) r'"
  shows "\<exists>b. validate_patch E u = Ok b"
proof (cases u)
  case (UpdateIssue i p)
  then have "case ip_about p of Set target \<Rightarrow> ref_id target \<noteq> i | _ \<Rightarrow> True"
    using assms(1,3) by (auto simp: result_inv apply_optional_def resolves_def split: object_data.splits patch.splits)
  then show ?thesis using assms(1,2) UpdateIssue
    by (auto simp: result_inv intro: required_patch_ok list_patch_ok other_patch_ok split: object_data.splits patch.split)
next
  case (UpdateWork i p)
  then have "case wp_handles p of Set target \<Rightarrow> ref_type target = Requirement \<or> ref_type target = Issue | _ \<Rightarrow> True"
    using assms(1,3) by (auto simp: result_inv apply_required_relation_def resolves_def split: object_data.splits patch.splits)
  then show ?thesis using assms(1,2) UpdateWork
    by (auto simp: result_inv intro: required_patch_ok list_patch_ok other_patch_ok split: object_data.splits patch.split)
next
  case (UpdateResource i p)
  then have "case rsp_locator p of Set l \<Rightarrow> validate_locator E l = Ok () | Clear \<Rightarrow> False | _ \<Rightarrow> True"
    using assms(1,2) by (auto simp: result_inv apply_required_def split: object_data.splits patch.splits)
  then show ?thesis using assms(1,2) UpdateResource
    by (auto simp: result_inv intro: required_patch_ok list_patch_ok other_patch_ok split: object_data.splits patch.split)
qed (use assms(1,2) in \<open>auto simp: result_inv intro: required_patch_ok list_patch_ok other_patch_ok split: object_data.splits\<close>)

lemma patch_unchanged:
  assumes "validate_patch E u = Ok False" "patch_data u d r = Some (Ok (d', r'))"
  shows "d' = d \<and> r' = r"
  using assms by (cases u) (auto simp: result_inv split: object_data.splits)

lemma update_submits:
  assumes U: "uuid_bytes_ok (ids E)" and ord: "ordered E s" and init: "initialized_ok E s"
    and ok: "apply_update E u actor now s = Ok (e, s')" and s': "initialized_ok E s'"
  shows "validate_update_input E u = Ok ()"
proof -
  obtain v w n k where v: "entry_at s (update_object_id u) = Some (ActiveObject v)" "obj_type v = update_object_type u"
    and w: "apply_typed_patch v u = Ok w" "\<not> (obj_data w = obj_data v \<and> obj_relations w = obj_relations v)"
      "validate_data E (obj_data w) = Ok ()"
    and e: "e = ActiveObject (w\<lparr>obj_revision := k, obj_project_revision := n, obj_updated_at := now, obj_updated_by := actor\<rparr>)"
      "s' = put_entry E (update_object_id u) e n now s"
    using ok unfolding apply_update_Ok by blast
  obtain d r where p: "patch_data u (obj_data v) (obj_relations v) = Some (Ok (d, r))" "w = v\<lparr>obj_data := d, obj_relations := r\<rparr>"
    using w(1) by (auto simp: apply_typed_patch_def result_inv split: option.splits)
  have at: "entry_at s' (update_object_id u) = Some e" unfolding e(2) entry_at_put [OF U ord] by simp
  have ord': "ordered E s'" unfolding e(2) by (rule ordered_put [OF U ord])
  have "resolves (active_type s') (update_object_id u) r"
    using initialized_types(3) [OF U ord' s' at [unfolded e(1)]] by (simp add: p(2))
  then obtain b where b: "validate_patch E u = Ok b" using patch_fields [OF p(1)] w(3) p(2) by auto
  moreover have b using patch_unchanged [OF _ p(1)] b w(2) p(2) by (cases b) auto
  moreover have "update_object_type u \<noteq> ProjectProfile \<Longrightarrow> validate_client_generated_id E (update_object_id u) = Ok ()"
    using initialized_types(1,2) [OF U ord init v(1)] v(2)
    by (auto simp: object_ok_def validate_client_object_id_Ok validate_client_generated_id_Ok)
  ultimately show ?thesis by (simp add: validate_update_input_def)
qed

lemma create_submits:
  assumes U: "uuid_bytes_ok (ids E)" and ord: "ordered E s"
    and ok: "apply_create E new actor now s = Ok (e, s')" and s': "initialized_ok E s'"
  shows "validate_create_input E new = Ok ()"
proof -
  obtain i d r n where p: "into_parts new = (i, d, r)" and c: "validate_client_object_id E (view_project_id s) i = Ok ()"
    "validate_data E d = Ok ()" and e: "e = ActiveObject (new_active i d r n actor now)" "s' = put_entry E i e n now s"
    using ok unfolding apply_create_Ok by blast
  have at: "entry_at s' i = Some e" unfolding e(2) entry_at_put [OF U ord] by simp
  have ord': "ordered E s'" unfolding e(2) by (rule ordered_put [OF U ord])
  have "resolves (active_type s') i r" using initialized_types(3) [OF U ord' s' at [unfolded e(1)]] by simp
  then have "(case d of IssueData _ \<Rightarrow> if (case about r of Some target \<Rightarrow> ref_id target = i | None \<Rightarrow> False)
            then Err (SelfReference ''about'' i) else Ok ()
        | WorkData _ \<Rightarrow> when_some (handles r) (\<lambda>target. validate_work_target (ref_type target))
        | _ \<Rightarrow> Ok ()) = Ok ()"
    by (auto simp: resolves_def when_some_def validate_work_target_Ok split: object_data.split option.split)
  moreover have "new_object_id new = i" using p by (cases new) auto
  ultimately show ?thesis
    using c into_parts_shape(2) [OF p]
    by (simp add: validate_create_input_def p validate_client_object_id_Ok validate_client_generated_id_Ok
        result_inv)
qed

lemma initial_goals_submit:
  "insert_goals E n actor now gs s = Ok (changed, s') \<Longrightarrow> (\<And>i. i \<in> seen \<Longrightarrow> entry_at s i \<noteq> None) \<Longrightarrow>
   uuid_bytes_ok (ids E) \<Longrightarrow> ordered E s \<Longrightarrow> validate_initial_goals E seen gs = Ok ()"
proof (induction gs arbitrary: s seen changed)
  case (Cons g gs)
  let ?e = "ActiveObject (new_active (ig_id g) (GoalData (into_goal g)) no_relations n actor now)"
  obtain s1 rest where c: "validate_client_object_id E (view_project_id s) (ig_id g) = Ok ()"
    "validate_data E (GoalData (into_goal g)) = Ok ()" and s1: "insert_new E ?e s = Ok s1"
    and rest: "insert_goals E n actor now gs s1 = Ok (rest, s')"
    using Cons.prems(1) by (auto simp: result_inv Let_def simp del: insert_new_Ok)
  note a = insert_new_entries [OF Cons.prems(3,4) s1]
  have "validate_initial_goals E (insert (ig_id g) seen) gs = Ok ()"
  proof (rule Cons.IH [OF rest _ Cons.prems(3) a(1)])
    fix i assume "i \<in> insert (ig_id g) seen"
    then show "entry_at s1 i \<noteq> None" using Cons.prems(2) by (auto simp: a(2))
  qed
  moreover have "ig_id g \<notin> seen" using a(3) Cons.prems(2) [of "ig_id g"] by auto
  ultimately show ?case using c by (simp add: validate_client_object_id_Ok validate_client_generated_id_Ok result_inv)
qed simp

text \<open>
  C17: a client that checks a mutation before sending it holds back nothing the reducer
  would have accepted.
\<close>

theorem submission_check_complete:
  assumes U: "uuid_bytes_ok (ids E)" and ord: "ordered E s" and ok: "view_reduce E s m actor now = Ok (s', out)"
  shows "validate_for_submission E m = Ok ()"
proof -
  have r: "validate_state E s = Ok ()" "validate_mutation_envelope s m = Ok ()"
    "apply_request E (mut_request m) actor now s = Ok (out_changed_entries out, s')" using ok by (simp_all add: view_reduce_Ok)
  note s' = reduce_framed(2) [OF U ord ok]
  have "validate_mutation_input E (mut_request m) = Ok ()"
  proof (cases "mut_request m")
    case (InitializeView i)
    then have i: "apply_initialize E i actor now s = Ok (out_changed_entries out, s')" using r(3) by (simp add: apply_request_def)
    then obtain n s1 changed s2 where "insert_goals E n actor now (init_goals i) s1 = Ok (changed, s2)"
        "insert_new E (ActiveObject (new_active (view_project_id s) (ProfileData (init_profile i)) no_relations n actor now)) s = Ok s1"
      by (auto simp: apply_initialize_def result_inv Let_def split: if_splits simp del: insert_new_Ok)
    then have "validate_initial_goals E {} (init_goals i) = Ok ()"
      using initial_goals_submit [of E n actor now "init_goals i" s1 changed s2 "{}"] insert_new_entries(1) [OF U ord] U by blast
    then show ?thesis using i by (auto simp: InitializeView apply_initialize_def result_inv Let_def split: if_splits)
  next
    case (CreateObject new)
    then show ?thesis using r(3) create_submits [OF U ord _ s'] by (auto simp: apply_request_def result_inv)
  next
    case (UpdateObject u)
    then have u: "apply_update E u actor now s = Ok (hd (out_changed_entries out), s')" "is_initialized s"
      using r(3) by (auto simp: apply_request_def result_inv require_initialized_def split: if_splits)
    then show ?thesis using update_submits [OF U ord _ u(1) s'] is_initialized_iff [OF r(1)] UpdateObject by simp
  next
    case (DeleteObject d)
    then have "apply_delete E d actor now s = Ok (hd (out_changed_entries out), s')" using r(3) by (auto simp: apply_request_def result_inv)
    then obtain v where v: "entry_at s (del_object_id d) = Some (ActiveObject v)" "obj_type v = del_object_type d" "obj_type v \<noteq> ProjectProfile"
      unfolding apply_delete_Ok by blast
    then show ?thesis using valid_keys [OF U ord r(1) v(1)]
      by (auto simp: DeleteObject object_ok_def validate_client_object_id_Ok validate_client_generated_id_Ok)
  qed
  then show ?thesis using r(2) by (auto simp: validate_for_submission_def validate_mutation_envelope_Ok validate_view_revision_Ok result_inv)
qed

theorem submission_check_complete_witness:
  "view_reduce demo_view_env (demo_view 2 200 [(id_plan, demo_plan)]) demo_delete_plan 7 300 =
     Ok (demo_view 3 300 [(id_plan, demo_plan_tombstone)], \<lparr>out_project_revision = 3, out_changed_entries = [demo_plan_tombstone]\<rparr>)
   \<and> validate_for_submission demo_view_env demo_delete_plan = Ok ()"
  using submission_check_complete [OF demo_view_ids_ok demo_states(2) demo_plan_deleted] demo_plan_deleted by simp

end
