(* ===== verification/View_Read.thy ===== *)
theory View_Read
  imports View_Properties Sort_Multiset
begin

unbundle bit_operations_syntax

text \<open>
  The logical read model of Project View, from \<open>crates/buzz-project-view/src/read_model.rs\<close>:
  the hierarchy of goals, plans, stages, requirements, issues and work items assembled
  from the canonical state, and that it is the hierarchy the relations describe.
\<close>

section \<open>Views\<close>

record requirement_view =
  rv_requirement :: view_object
  rv_works :: "view_object list"

record issue_view =
  iv_issue :: view_object
  iv_works :: "view_object list"

record stage_view =
  sv_stage :: view_object
  sv_requirements :: "requirement_view list"
  sv_issues :: "issue_view list"

record plan_view =
  pv_plan :: view_object
  pv_stages :: "stage_view list"

record goal_view =
  gv_goal :: view_object
  gv_plans :: "plan_view list"

record project_view =
  view_profile :: view_object
  view_goals :: "goal_view list"
  unbound_plans :: "plan_view list"
  unplanned_requirements :: "requirement_view list"
  unplanned_issues :: "issue_view list"
  view_roles :: "view_object list"
  view_resources :: "view_object list"
  issue_references_by_target :: "(uuid \<times> object_ref list) list"


section \<open>Groups\<close>

text \<open>
  A \<open>HashMap<Uuid, Vec<T>>\<close> that is filled with \<open>entry().or_default().push()\<close> and
  emptied with \<open>remove().unwrap_or_default()\<close>.
\<close>

type_synonym 'a groups = "(uuid \<times> 'a list) list"

fun group_push :: "uuid \<Rightarrow> 'a \<Rightarrow> 'a groups \<Rightarrow> 'a groups" where
  "group_push k v [] = [(k, [v])]"
| "group_push k v ((k', vs) # m) = (if k' = k then (k', vs @ [v]) # m else (k', vs) # group_push k v m)"

definition group_of :: "'a groups \<Rightarrow> uuid \<Rightarrow> 'a list" where
  "group_of m k = (case map_of m k of Some vs \<Rightarrow> vs | None \<Rightarrow> [])"

definition group_remove :: "uuid \<Rightarrow> 'a groups \<Rightarrow> 'a groups" where
  "group_remove k m = filter (\<lambda>(k', _). k' \<noteq> k) m"

type_synonym objects_by_id = "uuid \<rightharpoonup> view_object"

fun index_objects :: "view_env \<Rightarrow> objects_by_id \<Rightarrow> view_object list \<Rightarrow> objects_by_id domain_result" where
  "index_objects E by_id [] = Ok by_id"
| "index_objects E by_id (v # vs) =
     (if by_id (obj_id v) \<noteq> None
      then Err (InvalidFinalState (''duplicate active object id '' @ uuid_display (ids E) (obj_id v)))
      else index_objects E (by_id(obj_id v \<mapsto> v)) vs)"

definition exactly_one_profile :: "view_object list \<Rightarrow> view_object domain_result" where
  "exactly_one_profile profiles =
     (case profiles of
        [profile] \<Rightarrow> Ok profile
      | _ \<Rightarrow> Err (InvalidFinalState (''an initialized Project View must contain exactly one active profile, found ''
          @ show_nat (length profiles))))"


section \<open>Shapes\<close>

type_synonym allowed_bits = u8

definition ALLOW_NONE :: allowed_bits where "ALLOW_NONE = 0"
definition ALLOW_UNDER_GOAL :: allowed_bits where "ALLOW_UNDER_GOAL = push_bit 0 1"
definition ALLOW_UNDER_PLAN :: allowed_bits where "ALLOW_UNDER_PLAN = push_bit 1 1"
definition ALLOW_PLANNED_IN_STAGE :: allowed_bits where "ALLOW_PLANNED_IN_STAGE = push_bit 2 1"
definition ALLOW_ABOUT :: allowed_bits where "ALLOW_ABOUT = push_bit 3 1"
definition ALLOW_HANDLES :: allowed_bits where "ALLOW_HANDLES = push_bit 4 1"

definition allowed_union :: "allowed_bits \<Rightarrow> allowed_bits \<Rightarrow> allowed_bits" where
  "allowed_union a b = a OR b"

definition allowed_contains :: "allowed_bits \<Rightarrow> allowed_bits \<Rightarrow> bool" where
  "allowed_contains a b \<longleftrightarrow> a AND b = b"

definition reject_disallowed_relations ::
  "project_view_object_type \<Rightarrow> view_relations \<Rightarrow> allowed_bits \<Rightarrow> unit domain_result" where
  "reject_disallowed_relations ty r allowed =
     (let relation =
        (if under_goal_id r \<noteq> None \<and> \<not> allowed_contains allowed ALLOW_UNDER_GOAL then Some ''under_goal_id''
         else if under_plan_id r \<noteq> None \<and> \<not> allowed_contains allowed ALLOW_UNDER_PLAN then Some ''under_plan_id''
         else if planned_in_stage_id r \<noteq> None \<and> \<not> allowed_contains allowed ALLOW_PLANNED_IN_STAGE
         then Some ''planned_in_stage_id''
         else if about r \<noteq> None \<and> \<not> allowed_contains allowed ALLOW_ABOUT then Some ''about''
         else if handles r \<noteq> None \<and> \<not> allowed_contains allowed ALLOW_HANDLES then Some ''handles''
         else None) in
      case relation of Some name \<Rightarrow> Err (RelationNotAllowed name ty) | None \<Rightarrow> Ok ())"

fun allowed_for :: "project_view_object_type \<Rightarrow> allowed_bits" where
  "allowed_for ProjectProfile = ALLOW_NONE"
| "allowed_for Goal = ALLOW_NONE"
| "allowed_for Role = ALLOW_NONE"
| "allowed_for Resource = ALLOW_NONE"
| "allowed_for Plan = ALLOW_UNDER_GOAL"
| "allowed_for Stage = ALLOW_UNDER_PLAN"
| "allowed_for Requirement = ALLOW_PLANNED_IN_STAGE"
| "allowed_for Issue = allowed_union ALLOW_PLANNED_IN_STAGE ALLOW_ABOUT"
| "allowed_for Work = ALLOW_HANDLES"

definition validate_object_shape :: "view_object \<Rightarrow> unit domain_result" where
  "validate_object_shape v =
     (if obj_type v \<noteq> data_type (obj_data v) then Err (DataTypeMismatch (obj_type v) (data_type (obj_data v)))
      else then_r (reject_disallowed_relations (obj_type v) (obj_relations v) (allowed_for (obj_type v)))
       (if obj_type v = Stage \<and> under_plan_id (obj_relations v) = None
        then Err (MissingRequiredRelation ''under_plan_id'')
        else if obj_type v = Work \<and> handles (obj_relations v) = None then Err (MissingRequiredRelation ''handles'')
        else Ok ()))"

definition require_typed_target :: "string \<Rightarrow> object_ref \<Rightarrow> objects_by_id \<Rightarrow> view_object domain_result" where
  "require_typed_target relation target by_id =
     bind_r (ok_or (RelationTargetNotFound relation (ref_id target)) (by_id (ref_id target))) (\<lambda>actual.
       if ref_type target \<noteq> obj_type actual
       then Err (RelationTargetTypeMismatch relation (ref_id target) (ref_type target) (obj_type actual))
       else Ok actual)"

definition require_target_type ::
  "string \<Rightarrow> uuid \<Rightarrow> project_view_object_type \<Rightarrow> objects_by_id \<Rightarrow> view_object domain_result" where
  "require_target_type relation target_id expected by_id =
     bind_r (ok_or (RelationTargetNotFound relation target_id) (by_id target_id)) (\<lambda>actual.
       if obj_type actual \<noteq> expected
       then Err (RelationTargetTypeMismatch relation target_id expected (obj_type actual)) else Ok actual)"


section \<open>Placement\<close>

fun group_works :: "objects_by_id \<Rightarrow> view_object list \<Rightarrow> view_object groups \<Rightarrow> view_object groups domain_result" where
  "group_works by_id [] by_target = Ok by_target"
| "group_works by_id (work # works) by_target =
     bind_r (ok_or (MissingRequiredRelation ''handles'') (handles (obj_relations work))) (\<lambda>target.
     bind_r (require_typed_target ''handles'' target by_id) (\<lambda>actual.
       if obj_type actual \<noteq> Requirement \<and> obj_type actual \<noteq> Issue then Err (InvalidWorkTarget (obj_type actual))
       else group_works by_id works (group_push (ref_id target) work by_target)))"

fun om_push :: "('k \<Rightarrow> 'k \<Rightarrow> ordering) \<Rightarrow> 'k \<Rightarrow> 'a \<Rightarrow> ('k \<times> 'a list) list \<Rightarrow> ('k \<times> 'a list) list" where
  "om_push cmp k v m = om_insert cmp k ((case map_of m k of Some vs \<Rightarrow> vs | None \<Rightarrow> []) @ [v]) m"

fun group_issue_references ::
  "view_env \<Rightarrow> objects_by_id \<Rightarrow> view_object list \<Rightarrow> (uuid \<times> object_ref list) list
   \<Rightarrow> (uuid \<times> object_ref list) list domain_result" where
  "group_issue_references E by_id [] by_target = Ok by_target"
| "group_issue_references E by_id (issue # issues) by_target =
     (case about (obj_relations issue) of
        None \<Rightarrow> group_issue_references E by_id issues by_target
      | Some target \<Rightarrow>
          if ref_id target = obj_id issue then Err (SelfReference ''about'' (obj_id issue))
          else bind_r (require_typed_target ''about'' target by_id) (\<lambda>_.
            group_issue_references E by_id issues
              (om_push (uuid_cmp (ids E)) (ref_id target) \<lparr>ref_type = Issue, ref_id = obj_id issue\<rparr> by_target)))"

text \<open>
  The loops over requirements, issues and plans: each takes the children that name the
  object, and files its view under the object its optional relation names.
\<close>

fun place ::
  "string \<Rightarrow> project_view_object_type \<Rightarrow> (view_object \<Rightarrow> uuid option) \<Rightarrow> (view_object \<Rightarrow> 'c list \<Rightarrow> 'v) \<Rightarrow> objects_by_id
   \<Rightarrow> view_object list \<Rightarrow> 'c groups \<Rightarrow> 'v groups \<Rightarrow> 'v list \<Rightarrow> ('c groups \<times> 'v groups \<times> 'v list) domain_result" where
  "place relation expected parent view by_id [] children placed loose = Ok (children, placed, loose)"
| "place relation expected parent view by_id (v # vs) children placed loose =
     (let x = view v (group_of children (obj_id v)); rest = group_remove (obj_id v) children in
      case parent v of
        Some i \<Rightarrow> bind_r (require_target_type relation i expected by_id) (\<lambda>_.
          place relation expected parent view by_id vs rest (group_push i x placed) loose)
      | None \<Rightarrow> place relation expected parent view by_id vs rest placed (loose @ [x]))"

fun place_stages ::
  "objects_by_id \<Rightarrow> view_object list \<Rightarrow> requirement_view groups \<Rightarrow> issue_view groups \<Rightarrow> stage_view groups
   \<Rightarrow> (requirement_view groups \<times> issue_view groups \<times> stage_view groups) domain_result" where
  "place_stages by_id [] reqs iss by_plan = Ok (reqs, iss, by_plan)"
| "place_stages by_id (v # vs) reqs iss by_plan =
     bind_r (ok_or (MissingRequiredRelation ''under_plan_id'') (under_plan_id (obj_relations v))) (\<lambda>plan_id.
     bind_r (require_target_type ''under_plan_id'' plan_id Plan by_id) (\<lambda>_.
       place_stages by_id vs (group_remove (obj_id v) reqs) (group_remove (obj_id v) iss)
         (group_push plan_id \<lparr>sv_stage = v, sv_requirements = group_of reqs (obj_id v),
            sv_issues = group_of iss (obj_id v)\<rparr> by_plan)))"

fun place_goals :: "view_object list \<Rightarrow> plan_view groups \<Rightarrow> goal_view list \<times> plan_view groups" where
  "place_goals [] plans = ([], plans)"
| "place_goals (v # vs) plans =
     (let (views, rest) = place_goals vs (group_remove (obj_id v) plans) in
      (\<lparr>gv_goal = v, gv_plans = group_of plans (obj_id v)\<rparr> # views, rest))"

definition of_type :: "project_view_object_type \<Rightarrow> view_object list \<Rightarrow> view_object list" where
  "of_type ty = filter (\<lambda>v. data_type (obj_data v) = ty)"

definition read_order :: "view_env \<Rightarrow> view_object \<Rightarrow> view_object \<Rightarrow> ordering" where
  "read_order E left right =
     then_with (cmp_of (obj_created_at left) (obj_created_at right)) (uuid_cmp (ids E) (obj_id left) (obj_id right))"

definition assemble :: "view_env \<Rightarrow> view_state \<Rightarrow> project_view domain_result" where
  "assemble E s =
     (if \<not> is_initialized s then Err NotInitialized
      else then_r (validate_state E s)
       (let objects = sort_by (read_order E) (active_objects s) in
        bind_r (index_objects E Map.empty objects) (\<lambda>by_id.
        then_r (for_each validate_object_shape objects)
        (bind_r (exactly_one_profile (of_type ProjectProfile objects)) (\<lambda>profile.
         if of_type Goal objects = []
         then Err (InvalidFinalState ''an initialized Project View must contain at least one active goal'')
         else
           bind_r (group_works by_id (of_type Work objects) []) (\<lambda>works.
           bind_r (group_issue_references E by_id (of_type Issue objects) []) (\<lambda>references.
           bind_r (place ''planned_in_stage_id'' Stage (\<lambda>v. planned_in_stage_id (obj_relations v)) requirement_view.make
             by_id (of_type Requirement objects) works [] []) (\<lambda>(works, requirements_by_stage, loose_requirements).
           bind_r (place ''planned_in_stage_id'' Stage (\<lambda>v. planned_in_stage_id (obj_relations v)) issue_view.make
             by_id (of_type Issue objects) works [] []) (\<lambda>(works, issues_by_stage, loose_issues).
           if works \<noteq> []
           then Err (InvalidFinalState
             ''one or more active work items could not be placed under their handles target'')
           else bind_r (place_stages by_id (of_type Stage objects) requirements_by_stage issues_by_stage [])
             (\<lambda>(requirements_by_stage, issues_by_stage, stages_by_plan).
           if requirements_by_stage \<noteq> [] \<or> issues_by_stage \<noteq> []
           then Err (InvalidFinalState
             ''one or more planned requirements or issues could not be placed under a stage'')
           else bind_r (place ''under_goal_id'' Goal (\<lambda>v. under_goal_id (obj_relations v)) plan_view.make
             by_id (of_type Plan objects) stages_by_plan [] []) (\<lambda>(stages_by_plan, plans_by_goal, loose_plans).
           if stages_by_plan \<noteq> []
           then Err (InvalidFinalState ''one or more stages could not be placed under their required plan'')
           else let (goals, plans_by_goal) = place_goals (of_type Goal objects) plans_by_goal in
           if plans_by_goal \<noteq> []
           then Err (InvalidFinalState ''one or more plans could not be placed under their goal'')
           else Ok \<lparr>view_profile = profile, view_goals = goals, unbound_plans = loose_plans,
             unplanned_requirements = loose_requirements, unplanned_issues = loose_issues,
             view_roles = of_type Role objects, view_resources = of_type Resource objects,
             issue_references_by_target = references\<rparr>)))))))))))"


section \<open>The hierarchy the relations describe\<close>

definition handled_id :: "view_object \<Rightarrow> uuid option" where
  "handled_id v = map_option ref_id (handles (obj_relations v))"

definition about_id :: "view_object \<Rightarrow> uuid option" where
  "about_id v = map_option ref_id (about (obj_relations v))"

definition stage_id :: "view_object \<Rightarrow> uuid option" where "stage_id v = planned_in_stage_id (obj_relations v)"
definition plan_id :: "view_object \<Rightarrow> uuid option" where "plan_id v = under_plan_id (obj_relations v)"
definition goal_id :: "view_object \<Rightarrow> uuid option" where "goal_id v = under_goal_id (obj_relations v)"

definition having :: "(view_object \<Rightarrow> uuid option) \<Rightarrow> uuid option \<Rightarrow> view_object list \<Rightarrow> view_object list" where
  "having key k = filter (\<lambda>v. key v = k)"

definition requirement_at :: "view_object list \<Rightarrow> view_object \<Rightarrow> requirement_view" where
  "requirement_at os v = requirement_view.make v (having handled_id (Some (obj_id v)) (of_type Work os))"

definition issue_at :: "view_object list \<Rightarrow> view_object \<Rightarrow> issue_view" where
  "issue_at os v = issue_view.make v (having handled_id (Some (obj_id v)) (of_type Work os))"

definition stage_at :: "view_object list \<Rightarrow> view_object \<Rightarrow> stage_view" where
  "stage_at os v = \<lparr>sv_stage = v,
     sv_requirements = map (requirement_at os) (having stage_id (Some (obj_id v)) (of_type Requirement os)),
     sv_issues = map (issue_at os) (having stage_id (Some (obj_id v)) (of_type Issue os))\<rparr>"

definition plan_at :: "view_object list \<Rightarrow> view_object \<Rightarrow> plan_view" where
  "plan_at os v = plan_view.make v (map (stage_at os) (having plan_id (Some (obj_id v)) (of_type Stage os)))"

definition goal_at :: "view_object list \<Rightarrow> view_object \<Rightarrow> goal_view" where
  "goal_at os v = \<lparr>gv_goal = v, gv_plans = map (plan_at os) (having goal_id (Some (obj_id v)) (of_type Plan os))\<rparr>"

definition reference_view :: "view_object list \<Rightarrow> (uuid \<times> object_ref list) list \<Rightarrow> project_view" where
  "reference_view os refs = \<lparr>view_profile = hd (of_type ProjectProfile os),
     view_goals = map (goal_at os) (of_type Goal os),
     unbound_plans = map (plan_at os) (having goal_id None (of_type Plan os)),
     unplanned_requirements = map (requirement_at os) (having stage_id None (of_type Requirement os)),
     unplanned_issues = map (issue_at os) (having stage_id None (of_type Issue os)),
     view_roles = of_type Role os, view_resources = of_type Resource os,
     issue_references_by_target = refs\<rparr>"

text \<open>Every object of a view, in the order a reader meets them.\<close>

definition requirement_objects :: "requirement_view \<Rightarrow> view_object list" where
  "requirement_objects r = rv_requirement r # rv_works r"

definition issue_objects :: "issue_view \<Rightarrow> view_object list" where
  "issue_objects i = iv_issue i # iv_works i"

definition stage_objects :: "stage_view \<Rightarrow> view_object list" where
  "stage_objects v = sv_stage v # concat (map requirement_objects (sv_requirements v)) @ concat (map issue_objects (sv_issues v))"

definition plan_objects :: "plan_view \<Rightarrow> view_object list" where
  "plan_objects v = pv_plan v # concat (map stage_objects (pv_stages v))"

definition goal_objects :: "goal_view \<Rightarrow> view_object list" where
  "goal_objects v = gv_goal v # concat (map plan_objects (gv_plans v))"

definition placed_objects :: "project_view \<Rightarrow> view_object list" where
  "placed_objects v = view_profile v # concat (map goal_objects (view_goals v)) @ concat (map plan_objects (unbound_plans v))
     @ concat (map requirement_objects (unplanned_requirements v)) @ concat (map issue_objects (unplanned_issues v))
     @ view_roles v @ view_resources v"


section \<open>Groups hold what was pushed\<close>

definition groups_ok :: "'a groups \<Rightarrow> bool" where
  "groups_ok m \<longleftrightarrow> distinct (map fst m) \<and> (\<forall>kv\<in>set m. snd kv \<noteq> [])"

lemma groups_ok_Nil [simp]: "groups_ok []" "group_of [] = (\<lambda>_. [])"
  by (simp_all add: groups_ok_def group_of_def fun_eq_iff)

lemma fst_group_push: "fst ` set (group_push k v m) = insert k (fst ` set m)"
  by (induction k v m rule: group_push.induct) auto

lemma group_of_push: "group_of (group_push k v m) = (group_of m)(k := group_of m k @ [v])"
  by (induction k v m rule: group_push.induct) (auto simp: group_of_def fun_eq_iff split: if_splits)

lemma groups_ok_push: "groups_ok m \<Longrightarrow> groups_ok (group_push k v m)"
proof (induction k v m rule: group_push.induct)
  case (2 k v k' vs m)
  then show ?case by (auto simp: groups_ok_def fst_group_push)
qed (simp add: groups_ok_def)

lemma group_of_remove: "group_of (group_remove k m) = (group_of m)(k := [])"
  by (induction m) (auto simp: group_of_def group_remove_def fun_eq_iff)

lemma groups_ok_remove: "groups_ok m \<Longrightarrow> groups_ok (group_remove k m)"
  by (auto simp: groups_ok_def group_remove_def distinct_map_filter)

lemma groups_empty: "groups_ok m \<Longrightarrow> m = [] \<longleftrightarrow> group_of m = (\<lambda>_. [])"
proof (cases m)
  case (Cons kv m')
  assume "groups_ok m"
  then have "group_of m (fst kv) \<noteq> []" by (cases kv) (auto simp: Cons group_of_def groups_ok_def)
  then show ?thesis using Cons by auto
qed simp

lemma place_Ok:
  assumes "\<forall>v\<in>set vs. \<forall>i. parent v = Some i \<longrightarrow> (\<exists>t. by_id i = Some t \<and> obj_type t = expected)"
    and "distinct (map obj_id vs)" "groups_ok children" "groups_ok placed"
  shows "\<exists>children' placed'. place relation expected parent view by_id vs children placed loose
      = Ok (children', placed', loose @ map (\<lambda>v. view v (group_of children (obj_id v))) (having parent None vs))
    \<and> groups_ok children' \<and> groups_ok placed' \<and> (\<forall>i. group_of children' i = (if i \<in> obj_id ` set vs then [] else group_of children i))
    \<and> (\<forall>i. group_of placed' i = group_of placed i
         @ map (\<lambda>v. view v (group_of children (obj_id v))) (having parent (Some i) vs))"
  using assms
proof (induction vs arbitrary: children placed loose)
  case Nil
  then show ?case by (simp add: having_def)
next
  case (Cons v vs)
  let ?x = "view v (group_of children (obj_id v))" and ?rest = "group_remove (obj_id v) children"
  have same: "map (\<lambda>w. view w (group_of ?rest (obj_id w))) (having parent k vs)
      = map (\<lambda>w. view w (group_of children (obj_id w))) (having parent k vs)" for k
    using Cons.prems(2) by (auto simp: group_of_remove having_def notin_image_iff)
  have targets: "\<forall>w\<in>set vs. \<forall>i. parent w = Some i \<longrightarrow> (\<exists>t. by_id i = Some t \<and> obj_type t = expected)"
    using Cons.prems(1) by simp
  have d: "distinct (map obj_id vs)" using Cons.prems(2) by simp
  note IH = Cons.IH [OF targets d groups_ok_remove [OF Cons.prems(3), of "obj_id v"]]
  show ?case
  proof (cases "parent v")
    case None
    obtain children' placed' where "place relation expected parent view by_id vs ?rest placed (loose @ [?x])
        = Ok (children', placed', (loose @ [?x]) @ map (\<lambda>v. view v (group_of ?rest (obj_id v))) (having parent None vs))"
      "groups_ok children'" "groups_ok placed'" "\<forall>i. group_of children' i = (if i \<in> obj_id ` set vs then [] else group_of ?rest i)"
      "\<forall>i. group_of placed' i = group_of placed i @ map (\<lambda>v. view v (group_of ?rest (obj_id v))) (having parent (Some i) vs)"
      using IH [OF Cons.prems(4), of "loose @ [?x]"] by blast
    then show ?thesis using None unfolding same by (simp add: having_def group_of_remove)
  next
    case (Some i)
    obtain t where t: "by_id i = Some t" "obj_type t = expected" using Cons.prems(1) Some by auto
    obtain children' placed' where "place relation expected parent view by_id vs ?rest (group_push i ?x placed) loose
        = Ok (children', placed', loose @ map (\<lambda>v. view v (group_of ?rest (obj_id v))) (having parent None vs))"
      "groups_ok children'" "groups_ok placed'" "\<forall>i. group_of children' i = (if i \<in> obj_id ` set vs then [] else group_of ?rest i)"
      "\<forall>j. group_of placed' j = group_of (group_push i ?x placed) j @ map (\<lambda>v. view v (group_of ?rest (obj_id v))) (having parent (Some j) vs)"
      using IH [OF groups_ok_push [OF Cons.prems(4), of i ?x], of loose] by blast
    then show ?thesis using Some t unfolding same
      by (simp add: having_def group_of_remove group_of_push require_target_type_def)
  qed
qed

lemma group_works_Ok:
  assumes "\<And>w. w \<in> set ws \<Longrightarrow> \<exists>t a. handles (obj_relations w) = Some t \<and> by_id (ref_id t) = Some a
      \<and> obj_type a = ref_type t \<and> (ref_type t = Requirement \<or> ref_type t = Issue)"
    and "groups_ok m"
  shows "\<exists>m'. group_works by_id ws m = Ok m' \<and> groups_ok m'
    \<and> (\<forall>i. group_of m' i = group_of m i @ having handled_id (Some i) ws)"
  using assms
proof (induction ws arbitrary: m)
  case (Cons w ws)
  obtain t a where t: "handles (obj_relations w) = Some t" "by_id (ref_id t) = Some a" "obj_type a = ref_type t"
    "ref_type t = Requirement \<or> ref_type t = Issue" using Cons.prems(1) [of w] by auto
  obtain m' where "group_works by_id ws (group_push (ref_id t) w m) = Ok m'" "groups_ok m'"
    "\<forall>i. group_of m' i = group_of (group_push (ref_id t) w m) i @ having handled_id (Some i) ws"
    using Cons.IH [of "group_push (ref_id t) w m"] Cons.prems groups_ok_push [OF Cons.prems(2)] by auto
  then show ?case using t by (auto simp: require_typed_target_def having_def handled_id_def group_of_push)
qed (simp add: having_def)

lemma group_issue_references_Ok:
  assumes "\<And>v t. v \<in> set vs \<Longrightarrow> about (obj_relations v) = Some t \<Longrightarrow> ref_id t \<noteq> obj_id v
      \<and> (\<exists>a. by_id (ref_id t) = Some a \<and> obj_type a = ref_type t)"
    and "uuid_bytes_ok (ids E)" "om_ok (uuid_cmp (ids E)) m" "\<And>i. map_of m i \<noteq> Some []"
  shows "\<exists>m'. group_issue_references E by_id vs m = Ok m' \<and> om_ok (uuid_cmp (ids E)) m' \<and> (\<forall>i. map_of m' i \<noteq> Some [])
    \<and> (\<forall>i. group_of m' i = group_of m i @ map (\<lambda>v. \<lparr>ref_type = Issue, ref_id = obj_id v\<rparr>) (having about_id (Some i) vs))"
  using assms
proof (induction vs arbitrary: m)
  case (Cons v vs)
  show ?case
  proof (cases "about (obj_relations v)")
    case None
    then show ?thesis using Cons.IH [of m] Cons.prems by (auto simp: having_def about_id_def)
  next
    case (Some t)
    let ?m = "om_push (uuid_cmp (ids E)) (ref_id t) \<lparr>ref_type = Issue, ref_id = obj_id v\<rparr> m"
    have m: "om_ok (uuid_cmp (ids E)) ?m"
      "map_of ?m = (map_of m)(ref_id t \<mapsto> group_of m (ref_id t) @ [\<lparr>ref_type = Issue, ref_id = obj_id v\<rparr>])"
      using total_comparison.om_ok_insert [OF uuid_total Cons.prems(3)] Cons.prems(2)
        total_comparison.map_of_om_insert [OF uuid_total Cons.prems(3)] by (simp_all add: group_of_def)
    have g: "group_of ?m = (group_of m)(ref_id t := group_of m (ref_id t) @ [\<lparr>ref_type = Issue, ref_id = obj_id v\<rparr>])"
      unfolding group_of_def [abs_def] m(2) by (auto simp: fun_eq_iff group_of_def)
    obtain a where a: "ref_id t \<noteq> obj_id v" "by_id (ref_id t) = Some a" "obj_type a = ref_type t"
      using Cons.prems(1) [of v t] Some by auto
    have ne: "map_of ?m i \<noteq> Some []" for i unfolding m(2) using Cons.prems(4) by auto
    obtain m' where "group_issue_references E by_id vs ?m = Ok m'" "om_ok (uuid_cmp (ids E)) m'" "\<forall>i. map_of m' i \<noteq> Some []"
      "\<forall>i. group_of m' i = group_of ?m i @ map (\<lambda>v. \<lparr>ref_type = Issue, ref_id = obj_id v\<rparr>) (having about_id (Some i) vs)"
      using Cons.IH [of ?m, OF _ Cons.prems(2) m(1) ne] Cons.prems(1) by auto
    then show ?thesis using Some a by (simp add: require_typed_target_def having_def about_id_def g del: om_push.simps)
  qed
qed (simp add: having_def)

lemma place_stages_Ok:
  assumes "\<forall>v\<in>set vs. \<exists>i t. plan_id v = Some i \<and> by_id i = Some t \<and> obj_type t = Plan"
    and "distinct (map obj_id vs)" "groups_ok reqs" "groups_ok iss" "groups_ok plans"
  shows "\<exists>reqs' iss' plans'. place_stages by_id vs reqs iss plans = Ok (reqs', iss', plans')
    \<and> groups_ok reqs' \<and> groups_ok iss' \<and> groups_ok plans'
    \<and> (\<forall>i. group_of reqs' i = (if i \<in> obj_id ` set vs then [] else group_of reqs i))
    \<and> (\<forall>i. group_of iss' i = (if i \<in> obj_id ` set vs then [] else group_of iss i))
    \<and> (\<forall>i. group_of plans' i = group_of plans i @ map (\<lambda>v. \<lparr>sv_stage = v, sv_requirements = group_of reqs (obj_id v),
         sv_issues = group_of iss (obj_id v)\<rparr>) (having plan_id (Some i) vs))"
  using assms
proof (induction vs arbitrary: reqs iss plans)
  case (Cons v vs)
  obtain i t where t: "plan_id v = Some i" "by_id i = Some t" "obj_type t = Plan" using Cons.prems(1) by auto
  let ?x = "\<lambda>reqs iss v. \<lparr>sv_stage = v, sv_requirements = group_of reqs (obj_id v), sv_issues = group_of iss (obj_id v)\<rparr>"
  let ?r = "group_remove (obj_id v) reqs" and ?i = "group_remove (obj_id v) iss" and ?p = "group_push i (?x reqs iss v) plans"
  have same: "map (?x ?r ?i) (having plan_id k vs) = map (?x reqs iss) (having plan_id k vs)" for k
    using Cons.prems(2) by (auto simp: group_of_remove having_def notin_image_iff)
  have d: "distinct (map obj_id vs)" using Cons.prems(2) by simp
  obtain reqs' iss' plans' where "place_stages by_id vs ?r ?i ?p = Ok (reqs', iss', plans')"
    "groups_ok reqs'" "groups_ok iss'" "groups_ok plans'"
    "\<forall>i. group_of reqs' i = (if i \<in> obj_id ` set vs then [] else group_of ?r i)"
    "\<forall>i. group_of iss' i = (if i \<in> obj_id ` set vs then [] else group_of ?i i)"
    "\<forall>i. group_of plans' i = group_of ?p i @ map (?x ?r ?i) (having plan_id (Some i) vs)"
    using Cons.IH [OF _ d groups_ok_remove [OF Cons.prems(3)] groups_ok_remove [OF Cons.prems(4)] groups_ok_push [OF Cons.prems(5)],
      of "obj_id v" "obj_id v" i "?x reqs iss v"] Cons.prems(1) by auto
  then show ?case using t unfolding same
    by (simp add: having_def group_of_remove group_of_push require_target_type_def plan_id_def)
qed (simp add: having_def)

lemma place_goals_eq:
  assumes "distinct (map obj_id vs)" "groups_ok plans"
  shows "fst (place_goals vs plans) = map (\<lambda>v. \<lparr>gv_goal = v, gv_plans = group_of plans (obj_id v)\<rparr>) vs
    \<and> groups_ok (snd (place_goals vs plans))
    \<and> (\<forall>i. group_of (snd (place_goals vs plans)) i = (if i \<in> obj_id ` set vs then [] else group_of plans i))"
  using assms
proof (induction vs arbitrary: plans)
  case (Cons v vs)
  let ?r = "group_remove (obj_id v) plans"
  have same: "map (\<lambda>v. \<lparr>gv_goal = v, gv_plans = group_of ?r (obj_id v)\<rparr>) vs = map (\<lambda>v. \<lparr>gv_goal = v, gv_plans = group_of plans (obj_id v)\<rparr>) vs"
    using Cons.prems(1) by (auto simp: group_of_remove notin_image_iff)
  show ?case using Cons.IH [of ?r] Cons.prems groups_ok_remove [OF Cons.prems(2)] same
    by (simp add: split_beta group_of_remove)
qed simp


section \<open>Every object once\<close>

lemma sum_groups:
  fixes f :: "'a \<Rightarrow> 'b::comm_monoid_add"
  shows "distinct is \<Longrightarrow> \<forall>c\<in>set cs. key c \<in> set is \<Longrightarrow> (\<Sum>i\<leftarrow>is. \<Sum>c\<leftarrow>filter (\<lambda>c. key c = i) cs. f c) = (\<Sum>c\<leftarrow>cs. f c)"
proof (induction cs)
  case (Cons c cs)
  have "(\<Sum>i\<leftarrow>is. \<Sum>x\<leftarrow>filter (\<lambda>x. key x = i) (c # cs). f x)
      = (\<Sum>i\<leftarrow>is. (if i = key c then f c else 0) + (\<Sum>x\<leftarrow>filter (\<lambda>x. key x = i) cs. f x))"
    by (rule arg_cong [where f = sum_list], rule map_cong) auto
  also have "\<dots> = (\<Sum>i\<leftarrow>is. if i = key c then f c else 0) + (\<Sum>i\<leftarrow>is. \<Sum>x\<leftarrow>filter (\<lambda>x. key x = i) cs. f x)"
    by (rule sum_list_addf)
  also have "(\<Sum>i\<leftarrow>is. if i = key c then f c else 0) = f c"
    using Cons.prems by (simp add: sum_list_distinct_conv_sum_set)
  finally show ?case using Cons by simp
qed simp

lemma mset_concat_map: "mset (concat (map f xs)) = (\<Sum>x\<leftarrow>xs. mset (f x))"
  by (induction xs) simp_all

lemma tree_sum:
  fixes f :: "view_object \<Rightarrow> 'b::comm_monoid_add"
  assumes "distinct (map obj_id ps)" "\<forall>c\<in>set cs. \<forall>i. key c = Some i \<longrightarrow> i \<in> obj_id ` set ps"
  shows "(\<Sum>p\<leftarrow>ps. \<Sum>c\<leftarrow>having key (Some (obj_id p)) cs. f c) + (\<Sum>c\<leftarrow>having key None cs. f c) = (\<Sum>c\<leftarrow>cs. f c)"
proof -
  let ?is = "None # map (\<lambda>p. Some (obj_id p)) ps"
  have "distinct ?is" using assms(1) by (auto simp: distinct_map inj_on_def)
  moreover have "\<forall>c\<in>set cs. key c \<in> set ?is"
  proof
    fix c assume "c \<in> set cs"
    then show "key c \<in> set ?is" using assms(2) by (cases "key c") auto
  qed
  ultimately have "(\<Sum>i\<leftarrow>?is. \<Sum>c\<leftarrow>filter (\<lambda>c. key c = i) cs. f c) = (\<Sum>c\<leftarrow>cs. f c)" by (rule sum_groups)
  then show ?thesis by (simp add: having_def comp_def add.commute)
qed

definition all_types :: "project_view_object_type list" where
  "all_types = [ProjectProfile, Goal, Role, Plan, Stage, Requirement, Issue, Work, Resource]"

lemma sum_types: "(\<Sum>ty\<leftarrow>all_types. mset (of_type ty os)) = mset os"
proof -
  have sing: "(\<Sum>v\<leftarrow>xs. {#v#}) = mset xs" for xs :: "view_object list" by (induction xs) simp_all
  have "(\<Sum>ty\<leftarrow>all_types. \<Sum>v\<leftarrow>filter (\<lambda>v. data_type (obj_data v) = ty) os. {#v#}) = (\<Sum>v\<leftarrow>os. {#v#})"
  proof (rule sum_groups)
    show "distinct all_types" by (simp add: all_types_def)
    have "ty \<in> set all_types" for ty by (cases ty) (simp_all add: all_types_def)
    then show "\<forall>c\<in>set os. data_type (obj_data c) \<in> set all_types" by blast
  qed
  then show ?thesis by (simp add: sing of_type_def)
qed


section \<open>Assembly succeeds\<close>

definition readable :: "view_object list \<Rightarrow> objects_by_id \<Rightarrow> bool" where
  "readable os by_id \<longleftrightarrow> distinct (map obj_id os) \<and> (\<forall>i v. by_id i = Some v \<longleftrightarrow> v \<in> set os \<and> obj_id v = i)
     \<and> (\<forall>v\<in>set os. obj_type v = data_type (obj_data v) \<and> shape_ok (obj_type v) (obj_relations v)
          \<and> resolves (\<lambda>i. map_option obj_type (by_id i)) (obj_id v) (obj_relations v))"

lemma index_objects_Ok:
  "distinct (map obj_id os) \<Longrightarrow> \<forall>v\<in>set os. m (obj_id v) = None \<Longrightarrow>
   index_objects E m os = Ok (m ++ map_of (map (\<lambda>v. (obj_id v, v)) os))"
proof (induction os arbitrary: m)
  case (Cons v os)
  have new: "\<forall>w\<in>set os. (m(obj_id v \<mapsto> v)) (obj_id w) = None" and d: "distinct (map obj_id os)"
    using Cons.prems by (auto simp: notin_image_iff)
  have "index_objects E m (v # os) = Ok (m(obj_id v \<mapsto> v) ++ map_of (map (\<lambda>v. (obj_id v, v)) os))"
    using Cons.prems(2) Cons.IH [OF d new] by (simp del: fun_upd_apply)
  moreover have "map_of (map (\<lambda>v. (obj_id v, v)) os) (obj_id v) = None"
    using Cons.prems(1) by (auto simp: map_of_eq_None_iff comp_def)
  ultimately show ?case by (auto simp: fun_eq_iff map_add_def split: option.split)
qed simp

lemma distinct_active_of:
  "distinct (map fst m) \<Longrightarrow> \<forall>ke\<in>set m. fst ke = entry_id (snd ke) \<Longrightarrow> distinct (map obj_id (active_of (map snd m)))"
proof (induction m)
  case (Cons ke m)
  obtain k e where ke: "ke = (k, e)" by (cases ke)
  have "obj_id v \<noteq> k" if "v \<in> set (active_of (map snd m))" for v
  proof -
    obtain k' where "(k', ActiveObject v) \<in> set m" using \<open>v \<in> _\<close> by (auto simp: set_active_of)
    then show ?thesis using Cons.prems by (force simp: ke)
  qed
  then have "\<forall>v\<in>set (active_of (map snd m)). obj_id v \<noteq> k" by blast
  then show ?case using Cons by (cases e) (auto simp: ke notin_image_iff)
qed simp

lemma validate_object_shape_Ok:
  assumes "obj_type v = data_type (obj_data v)" "shape_ok (obj_type v) (obj_relations v)"
  shows "validate_object_shape v = Ok ()"
  using assms unfolding validate_object_shape_def reject_disallowed_relations_def Let_def
  by (cases "obj_type v") (auto simp: shape_ok_def allowed_contains_def allowed_union_def ALLOW_NONE_def ALLOW_UNDER_GOAL_def
      ALLOW_UNDER_PLAN_def ALLOW_PLANNED_IN_STAGE_def ALLOW_ABOUT_def ALLOW_HANDLES_def)

lemma state_readable:
  assumes "uuid_bytes_ok (ids E)" "ordered E s" "initialized_ok E s" "mset os = mset (active_objects s)"
  shows "\<exists>by_id. index_objects E Map.empty os = Ok by_id \<and> readable os by_id \<and> for_each validate_object_shape os = Ok ()
    \<and> length (of_type ProjectProfile os) = 1 \<and> of_type Goal os \<noteq> []"
proof -
  have valid: "validate_state E s = Ok ()" using assms(3) by (simp add: validate_state_Ok)
  obtain u where "entries_ok E s u" using assms(3) by (auto simp: initialized_ok_def)
  then have keys: "\<forall>ke\<in>set (view_entries s). fst ke = entry_id (snd ke)" by (auto simp: entries_ok_def)
  have "distinct (map obj_id (active_objects s))"
    unfolding active_objects_def by (rule distinct_active_of [OF ordered_distinct [OF assms(1,2)] keys])
  moreover have "mset (map obj_id os) = mset (map obj_id (active_objects s))" using assms(4) by simp
  ultimately have d: "distinct (map obj_id os)" using mset_eq_imp_distinct_iff by metis
  have set: "set os = set (active_objects s)" using mset_eq_setD [OF assms(4)] .
  have key: "obj_id v = k" if "entry_at s k = Some (ActiveObject v)" for k v
    using valid_typed [OF assms(1,2) valid that] by simp
  have mem: "v \<in> set os \<longleftrightarrow> entry_at s (obj_id v) = Some (ActiveObject v)" for v
  proof
    assume "v \<in> set os"
    then obtain k where "entry_at s k = Some (ActiveObject v)" by (auto simp: set set_active_objects [OF assms(1,2)])
    then show "entry_at s (obj_id v) = Some (ActiveObject v)" using key by simp
  qed (auto simp: set set_active_objects [OF assms(1,2)])
  let ?m = "map_of (map (\<lambda>v. (obj_id v, v)) os)"
  have m: "?m i = Some v \<longleftrightarrow> v \<in> set os \<and> obj_id v = i" for i v
    using d by (subst map_of_eq_Some_iff) (auto simp: comp_def)
  have types: "map_option obj_type (?m i) = active_type s i" for i
  proof (cases "?m i")
    case None
    then have "\<not> (v \<in> set os \<and> obj_id v = i)" for v by (simp flip: m)
    then have "entry_at s i \<noteq> Some (ActiveObject v)" for v using key [of i v] mem [of v] by metis
    then have "active_type s i = None" by (simp add: active_type_def split: option.split view_entry.split)
    then show ?thesis using None by simp
  next
    case (Some v)
    then have "v \<in> set os" "obj_id v = i" by (simp_all only: m)
    then have "entry_at s i = Some (ActiveObject v)" using mem by blast
    then show ?thesis using Some by (simp add: active_type_def)
  qed
  have typed: "obj_type v = data_type (obj_data v) \<and> shape_ok (obj_type v) (obj_relations v)
      \<and> resolves (active_type s) (obj_id v) (obj_relations v)" if "v \<in> set os" for v
    using valid_typed [OF assms(1,2) valid iffD1 [OF mem that]] by simp
  have "readable os ?m" unfolding readable_def types using d m typed by blast
  moreover have "index_objects E Map.empty os = Ok ?m" using index_objects_Ok [OF d, of Map.empty E] by simp
  moreover have "for_each validate_object_shape os = Ok ()"
    unfolding for_each_Ok_iff using typed validate_object_shape_Ok by blast
  moreover have len: "length (of_type ty os) = count_type ty s" for ty
  proof -
    have "of_type ty os = filter (\<lambda>v. obj_type v = ty) os" unfolding of_type_def using typed by (auto intro: filter_cong)
    then have "mset (of_type ty os) = mset (filter (\<lambda>v. obj_type v = ty) (active_objects s))" using assms(4) by simp
    then show ?thesis unfolding count_type_def by (rule mset_eq_length)
  qed
  moreover have "length (of_type ProjectProfile os) = 1" using assms(3) by (simp add: len initialized_ok_def)
  moreover have "length (of_type Goal os) \<noteq> 0" using assms(3) by (simp add: len initialized_ok_def)
  then have "of_type Goal os \<noteq> []" by simp
  ultimately show ?thesis by blast
qed

text \<open>What a readable list of objects gives the loops.\<close>

lemma readable_types:
  assumes "readable os by_id"
  shows "v \<in> set (of_type ty os) \<longleftrightarrow> v \<in> set os \<and> obj_type v = ty"
    "distinct (map obj_id (of_type ty os))"
    "map_option obj_type (by_id i) = Some ty \<Longrightarrow> i \<in> obj_id ` set (of_type ty os)"
proof -
  have ty: "v \<in> set (of_type ty os) \<longleftrightarrow> v \<in> set os \<and> obj_type v = ty" for v
    using assms by (auto simp: readable_def of_type_def)
  then show "v \<in> set (of_type ty os) \<longleftrightarrow> v \<in> set os \<and> obj_type v = ty" .
  show "distinct (map obj_id (of_type ty os))"
    using assms by (simp add: readable_def of_type_def distinct_map_filter)
  assume "map_option obj_type (by_id i) = Some ty"
  then obtain v where "by_id i = Some v" "obj_type v = ty" by auto
  then have "v \<in> set (of_type ty os)" "obj_id v = i" using assms by (auto simp: ty readable_def)
  then show "i \<in> obj_id ` set (of_type ty os)" by blast
qed

lemma readable_disjoint:
  assumes "readable os by_id" "v \<in> set os" "w \<in> set os" "obj_id v = obj_id w"
  shows "v = w"
  using assms by (auto simp: readable_def distinct_map inj_on_def)

lemma readable_object:
  assumes "readable os by_id" "v \<in> set os"
  shows "resolves (\<lambda>i. map_option obj_type (by_id i)) (obj_id v) (obj_relations v)" "shape_ok (obj_type v) (obj_relations v)"
  using assms unfolding readable_def by blast+

lemma readable_targets:
  assumes "readable os by_id"
  shows "v \<in> set os \<Longrightarrow> goal_id v = Some i \<Longrightarrow> map_option obj_type (by_id i) = Some Goal"
    "v \<in> set os \<Longrightarrow> plan_id v = Some i \<Longrightarrow> map_option obj_type (by_id i) = Some Plan"
    "v \<in> set os \<Longrightarrow> stage_id v = Some i \<Longrightarrow> map_option obj_type (by_id i) = Some Stage"
    "v \<in> set (of_type Stage os) \<Longrightarrow> plan_id v \<noteq> None"
  using readable_object [OF assms] readable_types(1) [OF assms]
  by (auto simp: resolves_def shape_ok_def goal_id_def plan_id_def stage_id_def)

lemma readable_work:
  assumes "readable os by_id" "w \<in> set (of_type Work os)"
  shows "\<exists>t a. handles (obj_relations w) = Some t \<and> by_id (ref_id t) = Some a \<and> obj_type a = ref_type t
      \<and> (ref_type t = Requirement \<or> ref_type t = Issue)"
proof -
  have w: "w \<in> set os" "obj_type w = Work" using assms by (simp_all add: readable_types(1) [OF assms(1)])
  then obtain t where "handles (obj_relations w) = Some t" using readable_object(2) [OF assms(1) w(1)] by (auto simp: shape_ok_def)
  then show ?thesis using readable_object(1) [OF assms(1) w(1)] by (auto simp: resolves_def)
qed

lemma readable_about:
  assumes "readable os by_id" "v \<in> set os" "about (obj_relations v) = Some t"
  shows "ref_id t \<noteq> obj_id v \<and> (\<exists>a. by_id (ref_id t) = Some a \<and> obj_type a = ref_type t)"
  using readable_object(1) [OF assms(1,2)] assms(3) by (auto simp: resolves_def)

lemma emptied:
  assumes "groups_ok m" "\<And>i. group_of m i = (if i \<in> S then [] else f i)" "\<And>i. f i \<noteq> [] \<Longrightarrow> i \<in> S"
  shows "m = []"
  using groups_empty [OF assms(1)] assms(2,3) by (auto simp: fun_eq_iff)

lemma place_typed:
  assumes r: "readable os by_id" and target: "\<forall>v\<in>set os. \<forall>i. parent v = Some i \<longrightarrow> map_option obj_type (by_id i) = Some expected"
    and ok: "groups_ok children"
  shows "\<exists>children' placed'. place relation expected parent view by_id (of_type ty os) children [] []
      = Ok (children', placed', map (\<lambda>v. view v (group_of children (obj_id v))) (having parent None (of_type ty os)))
    \<and> groups_ok children' \<and> groups_ok placed'
    \<and> (\<forall>i. group_of children' i = (if i \<in> obj_id ` set (of_type ty os) then [] else group_of children i))
    \<and> (\<forall>i. group_of placed' i = map (\<lambda>v. view v (group_of children (obj_id v))) (having parent (Some i) (of_type ty os)))"
proof -
  have t: "\<forall>v\<in>set (of_type ty os). \<forall>i. parent v = Some i \<longrightarrow> (\<exists>t. by_id i = Some t \<and> obj_type t = expected)"
    using target by (fastforce simp: readable_types(1) [OF r])
  show ?thesis using place_Ok [OF t readable_types(2) [OF r] ok groups_ok_Nil(1), of relation view "[]"] by simp
qed

lemma having_mem: "v \<in> set (having key k vs) \<longleftrightarrow> v \<in> set vs \<and> key v = k"
  by (simp add: having_def)

lemma having_empty: "having key k vs \<noteq> [] \<Longrightarrow> \<exists>v\<in>set vs. key v = k"
  by (auto simp: having_def filter_empty_conv)

lemma assemble_readable:
  assumes r: "readable os by_id" and U: "uuid_bytes_ok (ids E)"
  shows "\<exists>works refs works' reqs works'' iss.
      group_works by_id (of_type Work os) [] = Ok works
    \<and> group_issue_references E by_id (of_type Issue os) [] = Ok refs
    \<and> om_ok (uuid_cmp (ids E)) refs \<and> (\<forall>i. map_of refs i \<noteq> Some [])
    \<and> (\<forall>i. group_of refs i = map (\<lambda>v. \<lparr>ref_type = Issue, ref_id = obj_id v\<rparr>) (having about_id (Some i) (of_type Issue os)))
    \<and> place ''planned_in_stage_id'' Stage stage_id requirement_view.make by_id (of_type Requirement os) works [] []
        = Ok (works', reqs, map (requirement_at os) (having stage_id None (of_type Requirement os)))
    \<and> place ''planned_in_stage_id'' Stage stage_id issue_view.make by_id (of_type Issue os) works' [] []
        = Ok (works'', iss, map (issue_at os) (having stage_id None (of_type Issue os)))
    \<and> works'' = [] \<and> groups_ok reqs \<and> groups_ok iss
    \<and> (\<forall>i. group_of reqs i = map (requirement_at os) (having stage_id (Some i) (of_type Requirement os)))
    \<and> (\<forall>i. group_of iss i = map (issue_at os) (having stage_id (Some i) (of_type Issue os)))"
proof -
  let ?W = "\<lambda>i. having handled_id (Some i) (of_type Work os)"
  let ?ids = "\<lambda>ty. obj_id ` set (of_type ty os)"
  obtain works where works: "group_works by_id (of_type Work os) [] = Ok works" "groups_ok works" "\<And>i. group_of works i = ?W i"
    using group_works_Ok [of "of_type Work os" by_id "[]"] readable_work [OF r] by auto
  obtain refs where refs: "group_issue_references E by_id (of_type Issue os) [] = Ok refs"
    "om_ok (uuid_cmp (ids E)) refs" "\<forall>i. map_of refs i \<noteq> Some []"
    "\<forall>i. group_of refs i = map (\<lambda>v. \<lparr>ref_type = Issue, ref_id = obj_id v\<rparr>) (having about_id (Some i) (of_type Issue os))"
    using group_issue_references_Ok [of "of_type Issue os" by_id E "[]"] readable_about [OF r] U
    by (auto simp: readable_types(1) [OF r])
  have stage: "\<forall>v\<in>set os. \<forall>i. stage_id v = Some i \<longrightarrow> map_option obj_type (by_id i) = Some Stage"
    using readable_targets(3) [OF r] by blast
  obtain works' reqs where reqs: "place ''planned_in_stage_id'' Stage stage_id requirement_view.make by_id (of_type Requirement os) works [] []
        = Ok (works', reqs, map (\<lambda>v. requirement_view.make v (group_of works (obj_id v))) (having stage_id None (of_type Requirement os)))"
    "groups_ok works'" "groups_ok reqs" "\<And>i. group_of works' i = (if i \<in> ?ids Requirement then [] else group_of works i)"
    "\<And>i. group_of reqs i = map (\<lambda>v. requirement_view.make v (group_of works (obj_id v))) (having stage_id (Some i) (of_type Requirement os))"
    using place_typed [OF r stage works(2), of "''planned_in_stage_id''" requirement_view.make Requirement] by blast
  obtain works'' iss where iss: "place ''planned_in_stage_id'' Stage stage_id issue_view.make by_id (of_type Issue os) works' [] []
        = Ok (works'', iss, map (\<lambda>v. issue_view.make v (group_of works' (obj_id v))) (having stage_id None (of_type Issue os)))"
    "groups_ok works''" "groups_ok iss" "\<And>i. group_of works'' i = (if i \<in> ?ids Issue then [] else group_of works' i)"
    "\<And>i. group_of iss i = map (\<lambda>v. issue_view.make v (group_of works' (obj_id v))) (having stage_id (Some i) (of_type Issue os))"
    using place_typed [OF r stage reqs(2), of "''planned_in_stage_id''" issue_view.make Issue] by blast
  have req_at: "(\<lambda>v. requirement_view.make v (group_of works (obj_id v))) = requirement_at os"
    by (simp add: fun_eq_iff requirement_at_def works(3))
  have iss_at: "map (\<lambda>v. issue_view.make v (group_of works' (obj_id v))) (having stage_id k (of_type Issue os))
      = map (issue_at os) (having stage_id k (of_type Issue os))" for k
  proof (rule map_cong [OF refl])
    fix v assume "v \<in> set (having stage_id k (of_type Issue os))"
    then have v: "v \<in> set os" "obj_type v = Issue" by (simp_all add: having_mem readable_types(1) [OF r])
    have "obj_id w \<noteq> obj_id v" if "w \<in> set (of_type Requirement os)" for w
      using readable_disjoint [OF r v(1), of w] that v(2) by (auto simp: readable_types(1) [OF r])
    then have "obj_id v \<notin> ?ids Requirement" by (simp add: notin_image_iff)
    then show "issue_view.make v (group_of works' (obj_id v)) = issue_at os v" by (simp add: reqs(4) works(3) issue_at_def)
  qed
  have "works'' = []"
  proof (rule emptied [OF iss(2)])
    show "group_of works'' i = (if i \<in> ?ids Requirement \<union> ?ids Issue then [] else ?W i)" for i
      by (simp add: iss(4) reqs(4) works(3))
    fix i assume "?W i \<noteq> []"
    then obtain w where w: "w \<in> set (of_type Work os)" "handled_id w = Some i" using having_empty by blast
    then obtain t a where "by_id i = Some a" "obj_type a = Requirement \<or> obj_type a = Issue"
      using readable_work [OF r w(1)] by (auto simp: handled_id_def)
    then show "i \<in> ?ids Requirement \<union> ?ids Issue"
      using readable_types(3) [OF r, of i Requirement] readable_types(3) [OF r, of i Issue] by auto
  qed
  with works refs reqs iss show ?thesis unfolding req_at iss_at by blast
qed

lemma assemble_plans:
  assumes r: "readable os by_id" and reqs: "groups_ok reqs" "groups_ok iss"
    and at: "\<And>i. group_of reqs i = map (requirement_at os) (having stage_id (Some i) (of_type Requirement os))"
      "\<And>i. group_of iss i = map (issue_at os) (having stage_id (Some i) (of_type Issue os))"
  shows "\<exists>stages plans. place_stages by_id (of_type Stage os) reqs iss [] = Ok ([], [], stages)
    \<and> place ''under_goal_id'' Goal goal_id plan_view.make by_id (of_type Plan os) stages [] []
        = Ok ([], plans, map (plan_at os) (having goal_id None (of_type Plan os)))
    \<and> place_goals (of_type Goal os) plans = (map (goal_at os) (of_type Goal os), [])"
proof -
  let ?ids = "\<lambda>ty. obj_id ` set (of_type ty os)"
  have under: "\<exists>i t. plan_id v = Some i \<and> by_id i = Some t \<and> obj_type t = Plan" if v: "v \<in> set (of_type Stage os)" for v
  proof -
    obtain i where i: "plan_id v = Some i" using readable_targets(4) [OF r v] by blast
    then show ?thesis using readable_targets(2) [OF r, of v i] v by (auto simp: readable_types(1) [OF r])
  qed
  then have under: "\<forall>v\<in>set (of_type Stage os). \<exists>i t. plan_id v = Some i \<and> by_id i = Some t \<and> obj_type t = Plan" by blast
  obtain reqs' iss' stages where st: "place_stages by_id (of_type Stage os) reqs iss [] = Ok (reqs', iss', stages)"
    "groups_ok reqs'" "groups_ok iss'" "groups_ok stages"
    "\<And>i. group_of reqs' i = (if i \<in> ?ids Stage then [] else group_of reqs i)"
    "\<And>i. group_of iss' i = (if i \<in> ?ids Stage then [] else group_of iss i)"
    "\<And>i. group_of stages i = map (\<lambda>v. \<lparr>sv_stage = v, sv_requirements = group_of reqs (obj_id v),
         sv_issues = group_of iss (obj_id v)\<rparr>) (having plan_id (Some i) (of_type Stage os))"
    using place_stages_Ok [OF under readable_types(2) [OF r] reqs groups_ok_Nil(1)] by (auto simp only: groups_ok_Nil append_Nil)
  have staged: "having stage_id (Some i) (of_type ty os) \<noteq> [] \<Longrightarrow> i \<in> ?ids Stage" for i ty
  proof -
    assume "having stage_id (Some i) (of_type ty os) \<noteq> []"
    then obtain v where "v \<in> set (of_type ty os)" "stage_id v = Some i" using having_empty by blast
    then show "i \<in> ?ids Stage"
      using readable_targets(3) [OF r, of v i] readable_types(3) [OF r, of i Stage] by (simp add: readable_types(1) [OF r])
  qed
  have empty: "reqs' = []" "iss' = []"
    using emptied [OF st(2,5)] emptied [OF st(3,6)] staged by (auto simp: at)
  have goal: "\<forall>v\<in>set os. \<forall>i. goal_id v = Some i \<longrightarrow> map_option obj_type (by_id i) = Some Goal"
    using readable_targets(1) [OF r] by blast
  obtain stages' plans where pl: "place ''under_goal_id'' Goal goal_id plan_view.make by_id (of_type Plan os) stages [] []
        = Ok (stages', plans, map (\<lambda>v. plan_view.make v (group_of stages (obj_id v))) (having goal_id None (of_type Plan os)))"
    "groups_ok stages'" "groups_ok plans" "\<And>i. group_of stages' i = (if i \<in> ?ids Plan then [] else group_of stages i)"
    "\<And>i. group_of plans i = map (\<lambda>v. plan_view.make v (group_of stages (obj_id v))) (having goal_id (Some i) (of_type Plan os))"
    using place_typed [OF r goal st(4), of "''under_goal_id''" plan_view.make Plan] by blast
  have plan: "(\<lambda>v. plan_view.make v (group_of stages (obj_id v))) = plan_at os"
    by (simp add: fun_eq_iff plan_at_def st(7) stage_at_def [abs_def] at)
  have planned: "i \<in> ?ids Plan" if i: "group_of stages i \<noteq> []" for i
  proof -
    obtain v where v: "v \<in> set (of_type Stage os)" "plan_id v = Some i" using i having_empty [of plan_id "Some i" "of_type Stage os"] by (auto simp: st(7))
    then show ?thesis
      using readable_targets(2) [OF r, of v i] readable_types(3) [OF r, of i Plan] by (simp add: readable_types(1) [OF r])
  qed
  have empty': "stages' = []" by (rule emptied [OF pl(2,4) planned])
  note goals = place_goals_eq [OF readable_types(2) [OF r] pl(3), of Goal]
  have bound: "i \<in> ?ids Goal" if i: "group_of plans i \<noteq> []" for i
  proof -
    obtain v where v: "v \<in> set (of_type Plan os)" "goal_id v = Some i" using i having_empty [of goal_id "Some i" "of_type Plan os"] by (auto simp: pl(5))
    then show ?thesis
      using readable_targets(1) [OF r, of v i] readable_types(3) [OF r, of i Goal] by (simp add: readable_types(1) [OF r])
  qed
  have "snd (place_goals (of_type Goal os) plans) = []"
    by (rule emptied [of _ "?ids Goal" "group_of plans"]) (use goals bound in auto)
  moreover have "fst (place_goals (of_type Goal os) plans) = map (goal_at os) (of_type Goal os)"
    using goals by (simp add: goal_at_def [abs_def] pl(5) plan)
  ultimately have "place_goals (of_type Goal os) plans = (map (goal_at os) (of_type Goal os), [])" by (simp add: prod_eq_iff)
  then show ?thesis using st(1) pl(1) unfolding plan empty empty' by blast
qed

lemma reference_view_objects:
  assumes r: "readable os by_id" and one: "length (of_type ProjectProfile os) = 1"
  shows "mset (placed_objects (reference_view os refs)) = mset os"
proof -
  have sing: "(\<Sum>v\<leftarrow>xs. add_mset v (f v)) = mset xs + (\<Sum>v\<leftarrow>xs. f v)" for xs :: "view_object list" and f
    by (induction xs) (simp_all add: ac_simps)
  have one': "(\<Sum>v\<leftarrow>xs. {#v#}) = mset xs" for xs :: "view_object list" by (induction xs) simp_all
  let ?W = "of_type Work os" and ?R = "of_type Requirement os" and ?I = "of_type Issue os"
  let ?w = "\<lambda>v. mset (having handled_id (Some (obj_id v)) ?W)"
  have dist: "distinct (map obj_id (?R @ ?I))"
  proof -
    have "obj_id v \<noteq> obj_id w" if "v \<in> set ?R" "w \<in> set ?I" for v w
      using that readable_disjoint [OF r, of v w] by (auto simp: readable_types(1) [OF r])
    then have "obj_id ` set ?R \<inter> obj_id ` set ?I = {}" by blast
    then show ?thesis using readable_types(2) [OF r] by simp
  qed
  have handled: "i \<in> obj_id ` set (?R @ ?I)" if w: "w \<in> set ?W" "handled_id w = Some i" for w i
  proof -
    obtain a where "by_id i = Some a" "obj_type a = Requirement \<or> obj_type a = Issue"
      using readable_work [OF r w(1)] w(2) by (auto simp: handled_id_def)
    then show ?thesis using readable_types(3) [OF r, of i Requirement] readable_types(3) [OF r, of i Issue] by auto
  qed
  then have handled: "\<forall>w\<in>set ?W. \<forall>i. handled_id w = Some i \<longrightarrow> i \<in> obj_id ` set (?R @ ?I)" by blast
  have none: "having handled_id None ?W = []"
    using readable_work [OF r] by (fastforce simp: having_def handled_id_def filter_empty_conv)
  have works: "(\<Sum>v\<leftarrow>?R. ?w v) + (\<Sum>v\<leftarrow>?I. ?w v) = mset ?W"
    using tree_sum [OF dist handled, of "\<lambda>v. {#v#}"] none by (simp add: one')
  have stages: "\<forall>v\<in>set (of_type ty os). \<forall>i. stage_id v = Some i \<longrightarrow> i \<in> obj_id ` set (of_type Stage os)" for ty
    using readable_targets(3) [OF r] readable_types(1,3) [OF r] by blast
  have plans: "\<forall>v\<in>set (of_type Stage os). \<forall>i. plan_id v = Some i \<longrightarrow> i \<in> obj_id ` set (of_type Plan os)"
    using readable_targets(2) [OF r] readable_types(1,3) [OF r] by blast
  have goals: "\<forall>v\<in>set (of_type Plan os). \<forall>i. goal_id v = Some i \<longrightarrow> i \<in> obj_id ` set (of_type Goal os)"
    using readable_targets(1) [OF r] readable_types(1,3) [OF r] by blast
  have none': "having plan_id None (of_type Stage os) = []"
    using readable_targets(4) [OF r] by (fastforce simp: having_def filter_empty_conv)
  let ?r = "\<lambda>v. add_mset v (?w v)"
  let ?s = "\<lambda>v. add_mset v ((\<Sum>x\<leftarrow>having stage_id (Some (obj_id v)) ?R. ?r x) + (\<Sum>x\<leftarrow>having stage_id (Some (obj_id v)) ?I. ?r x))"
  let ?p = "\<lambda>v. add_mset v (\<Sum>x\<leftarrow>having plan_id (Some (obj_id v)) (of_type Stage os). ?s x)"
  let ?g = "\<lambda>v. add_mset v (\<Sum>x\<leftarrow>having goal_id (Some (obj_id v)) (of_type Plan os). ?p x)"
  have o: "mset (requirement_objects (requirement_at os v)) = ?r v" "mset (issue_objects (issue_at os v)) = ?r v"
    "mset (stage_objects (stage_at os v)) = ?s v" "mset (plan_objects (plan_at os v)) = ?p v"
    "mset (goal_objects (goal_at os v)) = ?g v" for v
    by (simp_all add: requirement_objects_def issue_objects_def stage_objects_def plan_objects_def goal_objects_def
        requirement_at_def issue_at_def stage_at_def plan_at_def goal_at_def mset_concat_map comp_def
        requirement_view.make_def issue_view.make_def plan_view.make_def)
  have R: "(\<Sum>s\<leftarrow>of_type Stage os. \<Sum>x\<leftarrow>having stage_id (Some (obj_id s)) ?R. ?r x) + (\<Sum>x\<leftarrow>having stage_id None ?R. ?r x)
      = mset ?R + (\<Sum>v\<leftarrow>?R. ?w v)"
    using tree_sum [OF readable_types(2) [OF r] stages [of Requirement], of ?r] by (simp add: sing)
  have I: "(\<Sum>s\<leftarrow>of_type Stage os. \<Sum>x\<leftarrow>having stage_id (Some (obj_id s)) ?I. ?r x) + (\<Sum>x\<leftarrow>having stage_id None ?I. ?r x)
      = mset ?I + (\<Sum>v\<leftarrow>?I. ?w v)"
    using tree_sum [OF readable_types(2) [OF r] stages [of Issue], of ?r] by (simp add: sing)
  have P: "(\<Sum>v\<leftarrow>of_type Plan os. ?p v) = mset (of_type Plan os) + (\<Sum>v\<leftarrow>of_type Stage os. ?s v)"
    using tree_sum [OF readable_types(2) [OF r] plans, of ?s] by (simp only: sing none' sum_list.Nil list.map add_0_right)
  have G: "(\<Sum>v\<leftarrow>of_type Goal os. ?g v) + (\<Sum>v\<leftarrow>having goal_id None (of_type Plan os). ?p v)
      = mset (of_type Goal os) + (\<Sum>v\<leftarrow>of_type Plan os. ?p v)"
    using tree_sum [OF readable_types(2) [OF r] goals, of ?p] by (simp only: sing add.assoc)
  obtain p where p: "of_type ProjectProfile os = [p]" using one by (auto simp: length_Suc_conv)
  define A where "A = (\<Sum>s\<leftarrow>of_type Stage os. \<Sum>x\<leftarrow>having stage_id (Some (obj_id s)) ?R. ?r x)"
  define B where "B = (\<Sum>s\<leftarrow>of_type Stage os. \<Sum>x\<leftarrow>having stage_id (Some (obj_id s)) ?I. ?r x)"
  define LR where "LR = (\<Sum>x\<leftarrow>having stage_id None ?R. ?r x)"
  define LI where "LI = (\<Sum>x\<leftarrow>having stage_id None ?I. ?r x)"
  have S: "(\<Sum>v\<leftarrow>of_type Stage os. ?s v) = mset (of_type Stage os) + (A + B)"
    unfolding sing sum_list_addf A_def B_def ..
  have "mset (placed_objects (reference_view os refs)) = add_mset p ((\<Sum>v\<leftarrow>of_type Goal os. ?g v)
      + (\<Sum>v\<leftarrow>having goal_id None (of_type Plan os). ?p v) + LR + LI + mset (of_type Role os) + mset (of_type Resource os))"
    by (simp add: placed_objects_def reference_view_def mset_concat_map comp_def o p LR_def LI_def add.assoc)
  also have "\<dots> = add_mset p (mset (of_type Goal os) + (mset (of_type Plan os) + (mset (of_type Stage os) + (A + B)))
      + LR + LI + mset (of_type Role os) + mset (of_type Resource os))" unfolding G P S ..
  also have "\<dots> = add_mset p (mset (of_type Goal os) + mset (of_type Plan os) + mset (of_type Stage os) + (A + LR) + (B + LI)
      + mset (of_type Role os) + mset (of_type Resource os))" by (simp add: ac_simps)
  also have "\<dots> = add_mset p (mset (of_type Goal os) + mset (of_type Plan os) + mset (of_type Stage os) + mset ?R + mset ?I
      + ((\<Sum>v\<leftarrow>?R. ?w v) + (\<Sum>v\<leftarrow>?I. ?w v)) + mset (of_type Role os) + mset (of_type Resource os))"
    using R I unfolding A_def [symmetric] B_def [symmetric] LR_def [symmetric] LI_def [symmetric] by (simp add: ac_simps)
  also have "\<dots> = mset os" unfolding works sum_types [of os, symmetric] by (simp add: all_types_def p ac_simps)
  finally show ?thesis .
qed


text \<open>
  C13: on every valid initialized state the read model is assembled, and it is the
  hierarchy the relations describe: each goal with the plans under it, each plan with
  its stages, each stage with its requirements and issues, each of these with the work
  that handles it, and the plans, requirements and issues without a parent apart, all in
  order of creation.  Every active object appears in exactly one position, and the
  references to an object are those of the issues about it.
\<close>

theorem read_model_complete:
  fixes E s
  defines "os \<equiv> sort_by (read_order E) (active_objects s)"
  assumes "uuid_bytes_ok (ids E)" "ordered E s" "validate_state E s = Ok ()" "is_initialized s"
  shows "\<exists>refs. assemble E s = Ok (reference_view os refs)
    \<and> mset (placed_objects (reference_view os refs)) = mset (active_objects s)
    \<and> om_ok (uuid_cmp (ids E)) refs \<and> (\<forall>i. map_of refs i \<noteq> Some [])
    \<and> (\<forall>i. group_of refs i = map (\<lambda>v. \<lparr>ref_type = Issue, ref_id = obj_id v\<rparr>) (having about_id (Some i) (of_type Issue os)))"
proof -
  have os: "mset os = mset (active_objects s)" unfolding os_def by (rule mset_sort_by)
  have init: "initialized_ok E s" using is_initialized_iff [OF assms(4)] assms(5) by simp
  obtain by_id where by_id: "index_objects E Map.empty os = Ok by_id" and r: "readable os by_id"
    and shape: "for_each validate_object_shape os = Ok ()" and one: "length (of_type ProjectProfile os) = 1"
    and goals: "of_type Goal os \<noteq> []"
    using state_readable [OF assms(2,3) init os] by blast
  obtain works refs works' reqs iss where a: "group_works by_id (of_type Work os) [] = Ok works"
      "group_issue_references E by_id (of_type Issue os) [] = Ok refs"
    and refs: "om_ok (uuid_cmp (ids E)) refs" "\<forall>i. map_of refs i \<noteq> Some []"
      "\<forall>i. group_of refs i = map (\<lambda>v. \<lparr>ref_type = Issue, ref_id = obj_id v\<rparr>) (having about_id (Some i) (of_type Issue os))"
    and b: "place ''planned_in_stage_id'' Stage stage_id requirement_view.make by_id (of_type Requirement os) works [] []
        = Ok (works', reqs, map (requirement_at os) (having stage_id None (of_type Requirement os)))"
      "place ''planned_in_stage_id'' Stage stage_id issue_view.make by_id (of_type Issue os) works' [] []
        = Ok ([], iss, map (issue_at os) (having stage_id None (of_type Issue os)))"
    and g: "groups_ok reqs" "groups_ok iss"
      "\<And>i. group_of reqs i = map (requirement_at os) (having stage_id (Some i) (of_type Requirement os))"
      "\<And>i. group_of iss i = map (issue_at os) (having stage_id (Some i) (of_type Issue os))"
    using assemble_readable [OF r assms(2)] by blast
  obtain stages plans where c: "place_stages by_id (of_type Stage os) reqs iss [] = Ok ([], [], stages)"
      "place ''under_goal_id'' Goal goal_id plan_view.make by_id (of_type Plan os) stages [] []
        = Ok ([], plans, map (plan_at os) (having goal_id None (of_type Plan os)))"
      "place_goals (of_type Goal os) plans = (map (goal_at os) (of_type Goal os), [])"
    using assemble_plans [OF r g] by blast
  obtain profile where p: "of_type ProjectProfile os = [profile]" using one by (auto simp: length_Suc_conv)
  have "assemble E s = Ok (reference_view os refs)"
    using assms(4,5) by_id shape goals a b c p
    by (simp add: assemble_def os_def [symmetric] Let_def exactly_one_profile_def reference_view_def
        stage_id_def [abs_def] goal_id_def [abs_def])
  then show ?thesis using reference_view_objects [OF r one, of refs] os refs by auto
qed

theorem read_model_complete_witness:
  "\<exists>view. assemble demo_view_env (demo_view 2 200 [(id_plan, demo_plan)]) = Ok view
     \<and> mset (placed_objects view) = mset (active_objects (demo_view 2 200 [(id_plan, demo_plan)]))"
proof -
  have "is_initialized (demo_view 2 200 [(id_plan, demo_plan)])" by (simp add: is_initialized_def)
  then show ?thesis using read_model_complete [OF demo_view_ids_ok demo_states(2,4)] by blast
qed

end
