(* ===== verification/Spec2Isabelle.thy ===== *)
theory Spec2Isabelle
  imports Document_Store Context_Store Event_Queue_Properties Git_Policy Git_Transport Audit_Chain View_Read
begin

text \<open>
  Carryforth is a community relay: members and their agents exchange signed
  events, and the relay keeps the shared state of their projects.  This library
  models the parts of the repository that decide what that shared state may
  become, and proves what they promise.

  \<^bold>\<open>The parts and how they interact.\<close>  A member command on a project reaches a pure
  reducer (\<open>crates/buzz-project-document\<close>, \<open>crates/buzz-project-context\<close>,
  \<open>crates/buzz-project-view\<close>), which is given the current rows, checks the command and returns the new rows, the projection
  events and a receipt; the database writes them in one transaction.  Git pushes
  reach the HTTP endpoints of \<open>crates/buzz-relay/src/api/git\<close>: a pre-receive hook asks
  the policy endpoint, then the push is published as immutable packs and a
  manifest, and one conditional write of the repository's pointer makes it
  visible.  What the relay does on behalf of members is recorded in a hash chain per
  community (\<open>crates/buzz-audit\<close>).  On the agent's side \<open>crates/buzz-acp/src/queue.rs\<close> queues the events of the
  channels, and hands batches to the agents.

  \<^bold>\<open>Common ground.\<close>  \<open>CF_Prelude\<close> has the Rust notions: \<open>Result\<close> with its question-mark
  operator, checked integers at their width, UTF-8 text, JSON values, ordered
  comparison (locales \<open>comparison\<close>, \<open>total_comparison\<close>), runs of a step relation, and the
  locale \<open>revisioned\<close> for state whose revision counts its steps.  \<open>Text_Tools\<close> has the
  string functions, \<open>Sort_Multiset\<close> that sorting permutes, \<open>Ordered_Map\<close> a \<open>BTreeMap\<close> as its entries in key order, \<open>Uuid_Layout\<close> a concrete UUID layout, \<open>Runtime_Fence\<close> the fence of
  \<open>buzz-core/src/runtime.rs\<close>.  The uuid, SHA-256, hexadecimal, serde and nostr crates
  are records of functions passed as arguments.

  \<^bold>\<open>Project Documents.\<close>  \<open>Document_Model\<close> and \<open>Document_Wire\<close> are \<open>error.rs\<close>, \<open>validation.rs\<close>,
  \<open>model.rs\<close>, \<open>command.rs\<close> and \<open>projection.rs\<close>: one definition per validator and constructor.
  \<open>Document_Reducer\<close> is \<open>reducer.rs\<close>, with the refinement to an abstract transition.
  \<open>Document_Store\<close> closes the reducer under its calling convention, one atomic step per
  accepted command, and shows over every run that rows, catalog and revisions stay
  consistent, that no update is lost, that a deleted document stays deleted, and
  that revisions count accepted commands.

  \<^bold>\<open>Project Context.\<close>  \<open>Context_Coordinate\<close>, \<open>Context_Model\<close>, \<open>Context_Reducer\<close> and \<open>Context_Store\<close>
  treat the hypergraph of context edges in the same way: canonical coordinate sets
  and their edge keys, validated state, the attach and detach transitions with their
  refinement, and the invariants of every run.

  \<^bold>\<open>Project View.\<close>  \<open>View_Vocabulary\<close> and \<open>View_Model\<close> have the nine object types, the state
  and the mutations (\<open>model.rs\<close>, \<open>patch.rs\<close>, \<open>mutation.rs\<close>, the types of \<open>state.rs\<close>);
  \<open>View_Validation\<close> is \<open>validation.rs\<close>, and \<open>View_Reducer\<close> has \<open>reduce\<close> with its four operations
  and \<open>from_snapshot\<close>.  \<open>View_Valid\<close> says what a valid state is without the order of the
  checks, and what each operation does to one; \<open>View_Projection\<close> is \<open>projection.rs\<close>.
  \<open>View_Properties\<close> shows that an object keeps its identity and type through every run
  and that relations always resolve, that the reducer's whole-state validation amounts
  to a check of what changed, that projections replay to the state, and that the
  client's check before submission refuses nothing acceptable.  \<open>View_Read\<close> is
  \<open>read_model.rs\<close>: on every valid state the hierarchy is assembled, it is the one the
  relations describe, and every active object has exactly one place in it.

  \<^bold>\<open>The audit log.\<close>  \<open>Audit_Log\<close> is \<open>crates/buzz-audit\<close>: the canonical preimage, the hash of an
  entry, appending and verification.  \<open>Audit_Chain\<close> shows that a log that was only
  appended to verifies and reads back, and that a verified range with an honest last
  hash holds the honest entries from its first row on; verification does not anchor
  the first row, so rows cut off before it are not noticed.

  \<^bold>\<open>The agent event queue.\<close>  \<open>Event_Queue\<close> has the state of \<open>EventQueue\<close> as a record and one
  definition per method, with time as an argument.  \<open>Event_Queue_Properties\<close> shows the
  invariant over every sequence of calls, the fairness and conservation of
  \<open>flush_next\<close>, the retry budget, and that an expired channel is released.  The jitter of a
  retry delay is floating-point arithmetic; the delay is an argument.

  \<^bold>\<open>Git permissions and policy.\<close>  \<open>Git_Perms\<close> is \<open>buzz-core/src/git_perms.rs\<close>: ref patterns and
  their language, protection tags, and the evaluation of a push.  \<open>Git_Policy\<close> is the
  policy endpoint: the signed callback, whose payload determines the request, and
  exactly which callbacks it admits.

  \<^bold>\<open>Git publication.\<close>  \<open>Git_Manifest\<close> has the manifest and its validation.  \<open>Git_Store\<close> is the
  client of the object store; because pushes interleave at every await, code that
  talks to the store is a tree of requests (\<open>prog\<close>), and \<open>Git_Publish\<close> translates
  hydration and \<open>cas_publish\<close> into such programs.  \<open>Git_Concurrency\<close> states what the store
  promises (locale \<open>object_store\<close>, with a concrete store as its model), the interleaving
  of a pool of programs, and a rely-guarantee principle (\<open>guarantee\<close>, \<open>safe_pool\<close>).  The store
  idealises two things: entity tags never coincide on different contents, and a write
  whose answer is an error has been applied by then or never will be.
  \<open>Git_Publication\<close> has the invariant of the published histories and shows that every
  write keeps it; \<open>Git_Commit\<close> gives each step of a push its specification.  \<open>Git_Announce\<close> is
  the other writer of pointers, the announcement of a repository
  (\<open>handlers/side_effects.rs\<close>), which creates the pointer with an empty manifest.  \<open>Git_Wire\<close> has
  the pkt-line formats with the scan of a push report, which never panics and sees every
  rejection that is not split between side-band frames, the advertisement, repository
  names and the ref-state event; \<open>Git_Transport\<close> composes the handlers and concludes, for any number of
  concurrent pushes, reads and announcements, that histories only grow, that a push reported as successful
  is durable and ordered with respect to others, and that a read advertises
  committed refs.

  \<^bold>\<open>Bounds and termination.\<close>  Integers of the sources are words of their width or natural
  numbers with the checks written out.  All definitions are total: loops are
  structural recursions, except the pkt-line scan, whose termination is proved from
  the position.  No fuel is used.  Slices that may panic are checked and the panic is a
  value; the seconds of a queue deadline wrap as in a release build.

  \<^bold>\<open>Not modelled.\<close>  SQL is executed by Postgres, whose semantics is not in the sources: the
  reducers' transactions are atomic steps, and \<open>crates/buzz-db\<close> is left out.  Processes,
  files, sockets, model providers and user interfaces (\<open>buzz-agent\<close>, \<open>buzz-dev-mcp\<close>,
  \<open>buzz-media\<close>, \<open>carryforth-cli\<close>, \<open>desktop\<close>, \<open>web\<close>, \<open>admin-web\<close> and most of \<open>buzz-acp\<close> and
  \<open>buzz-relay\<close>) are I/O around the modelled decisions.  The git program itself is a
  parameter of the endpoints, and so is the pack cache: \<open>materialize_pack\<close> is its answer
  for one pack of the manifest, whether it comes from a file or from the store.  The
  \<open>upload_pack\<close> route reads the store and streams a subprocess, and is left out.  Of Project View the legacy
  role continuity and the version 3 migration, and the relay mesh and the
  workflow engine, are left out.
\<close>

end
